(* ===== verification/Effects.thy ===== *)
theory Effects
  imports Prelude
begin

text \<open>
  Errors and effects.  \<open>exc_class\<close> holds the exception classes of
  \<open>core/exceptions.py\<close> and the built-in and library classes the program raises or
  catches (\<open>HTTPException n\<close> is FastAPI's exception with \<open>status_code\<close> n and
  its \<open>detail\<close> as text); \<open>superclass\<close> is the class statement's base and \<open>is_subclass\<close> what
  \<open>isinstance\<close> and \<open>except\<close> test.  An operation with effects takes the state and
  returns either the exception it raised or its value, together with the state at that
  point (Python keeps the effects that happened before a raise).
\<close>

named_theorems eff_simps \<open>unfolding of sequencing, raising and catching\<close>

section \<open>The exception hierarchy\<close>

datatype exc_class =
    TVListBaseError | TransientError | PermanentError | SourceUnavailableError
  | SourceAuthError | ParseError | RateLimitError | StorageError | LLMError
  | ConfigurationError
  | ValueError | JSONDecodeError | UnicodeDecodeError | ValidationError | PermissionError | KeyError
  | AttributeError | AssertionError | RuntimeError | ZeroDivisionError | ImportError
  | TransportError | IntegrityError | MultipleResultsFound | JWTError
  | RequestValidationError | ResponseValidationError | RateLimitExceeded | HTTPException int | OtherError

fun superclass :: "exc_class \<Rightarrow> exc_class option" where
  "superclass TransientError = Some TVListBaseError"
| "superclass PermanentError = Some TVListBaseError"
| "superclass SourceUnavailableError = Some TransientError"
| "superclass SourceAuthError = Some PermanentError"
| "superclass ParseError = Some PermanentError"
| "superclass RateLimitError = Some TransientError"
| "superclass StorageError = Some TVListBaseError"
| "superclass LLMError = Some TVListBaseError"
| "superclass ConfigurationError = Some TVListBaseError"
| "superclass JSONDecodeError = Some ValueError"
| "superclass UnicodeDecodeError = Some ValueError"
| "superclass ValidationError = Some ValueError"
| "superclass _ = None"

fun class_depth :: "exc_class \<Rightarrow> nat" where
  "class_depth SourceUnavailableError = 2"
| "class_depth SourceAuthError = 2"
| "class_depth ParseError = 2"
| "class_depth RateLimitError = 2"
| "class_depth TransientError = 1"
| "class_depth PermanentError = 1"
| "class_depth StorageError = 1"
| "class_depth LLMError = 1"
| "class_depth ConfigurationError = 1"
| "class_depth JSONDecodeError = 1"
| "class_depth UnicodeDecodeError = 1"
| "class_depth ValidationError = 1"
| "class_depth _ = 0"

function is_subclass :: "exc_class \<Rightarrow> exc_class \<Rightarrow> bool" where
  "is_subclass c d \<longleftrightarrow>
     c = d \<or> (case superclass c of None \<Rightarrow> False | Some b \<Rightarrow> is_subclass b d)"
  by pat_completeness auto

lemma superclass_depth: "superclass c = Some b \<Longrightarrow> class_depth b < class_depth c"
  by (cases c) auto

termination is_subclass
  by (relation "measure (\<lambda>(c, d). class_depth c)") (auto dest: superclass_depth)

declare is_subclass.simps [simp del]

lemma is_subclass_refl [simp]: "is_subclass c c"
  by (subst is_subclass.simps) simp

lemma is_subclass_None: "superclass c = None \<Longrightarrow> is_subclass c d \<longleftrightarrow> c = d"
  by (subst is_subclass.simps) simp

lemma is_subclass_Some:
  "superclass c = Some b \<Longrightarrow> is_subclass c d \<longleftrightarrow> c = d \<or> is_subclass b d"
  by (subst is_subclass.simps) simp

lemma is_subclass_trans:
  "is_subclass a b \<Longrightarrow> is_subclass b c \<Longrightarrow> is_subclass a c"
proof (induction a b rule: is_subclass.induct)
  case (1 a b)
  show ?case
  proof (cases "a = b")
    case False
    with "1.prems"(1) obtain p where "superclass a = Some p" "is_subclass p b"
      by (subst (asm) is_subclass.simps) (auto split: option.splits)
    with "1.IH"[OF \<open>superclass a = Some p\<close>] "1.prems"(2) show ?thesis
      by (simp add: is_subclass_Some)
  qed (use "1.prems" in simp)
qed

section \<open>Exceptions and effectful operations\<close>

datatype exn = Exn (exc: exc_class) (exn_str: string)

abbreviation isinstance :: "exn \<Rightarrow> exc_class \<Rightarrow> bool" where
  "isinstance e c \<equiv> is_subclass (exc e) c"

type_synonym ('s, 'a) eff = "'s \<Rightarrow> (exn + 'a) \<times> 's"

definition ret :: "'a \<Rightarrow> ('s, 'a) eff" where
  "ret x s = (Inr x, s)"

definition raise :: "exn \<Rightarrow> ('s, 'a) eff" where
  "raise e s = (Inl e, s)"

definition bindE :: "('s, 'a) eff \<Rightarrow> ('a \<Rightarrow> ('s, 'b) eff) \<Rightarrow> ('s, 'b) eff" where
  "bindE m f s = (case m s of (Inl e, s') \<Rightarrow> (Inl e, s') | (Inr x, s') \<Rightarrow> f x s')"

text \<open>\<open>try: m except C: h\<close> with the test of the except clause as a predicate.\<close>

definition try_except ::
  "('s, 'a) eff \<Rightarrow> (exn \<Rightarrow> bool) \<Rightarrow> (exn \<Rightarrow> ('s, 'a) eff) \<Rightarrow> ('s, 'a) eff" where
  "try_except m p h s =
     (case m s of
        (Inl e, s') \<Rightarrow> (if p e then h e s' else (Inl e, s'))
      | (Inr x, s') \<Rightarrow> (Inr x, s'))"

text \<open>A computation without effects that may raise.\<close>

definition pure_eff :: "exn + 'a \<Rightarrow> ('s, 'a) eff" where
  "pure_eff r s = (r, s)"

lemma ret_apply [simp, eff_simps]: "ret x s = (Inr x, s)"
  by (simp add: ret_def)

lemma raise_apply [simp, eff_simps]: "raise e s = (Inl e, s)"
  by (simp add: raise_def)

lemma pure_eff_apply [simp, eff_simps]: "pure_eff r s = (r, s)"
  by (simp add: pure_eff_def)

lemma bindE_Inr [eff_simps]: "m s = (Inr x, s') \<Longrightarrow> bindE m f s = f x s'"
  by (simp add: bindE_def)

lemma bindE_Inl [eff_simps]: "m s = (Inl e, s') \<Longrightarrow> bindE m f s = (Inl e, s')"
  by (simp add: bindE_def)

lemma bindE_ret [simp]: "bindE (ret x) f = f x"
  by (simp add: bindE_def fun_eq_iff)

lemma bindE_ret_right [simp]: "bindE m ret = m"
  by (auto simp: bindE_def fun_eq_iff split: prod.splits sum.splits)

lemma bindE_raise [simp]: "bindE (raise e) f = raise e"
  by (simp add: bindE_def fun_eq_iff)

lemma bindE_assoc: "bindE (bindE m f) g = bindE m (\<lambda>x. bindE (f x) g)"
  by (auto simp: bindE_def fun_eq_iff split: prod.splits sum.splits)

lemma bindE_Inr_iff:
  "bindE m f s = (Inr y, s'') \<longleftrightarrow> (\<exists>x s'. m s = (Inr x, s') \<and> f x s' = (Inr y, s''))"
  by (auto simp: bindE_def split: prod.splits sum.splits)

lemma bindE_Inl_iff:
  "bindE m f s = (Inl e, s'') \<longleftrightarrow>
     m s = (Inl e, s'') \<or> (\<exists>x s'. m s = (Inr x, s') \<and> f x s' = (Inl e, s''))"
  by (auto simp: bindE_def split: prod.splits sum.splits)

lemma try_except_Inr [eff_simps]: "m s = (Inr x, s') \<Longrightarrow> try_except m p h s = (Inr x, s')"
  by (simp add: try_except_def)

lemma try_except_caught [eff_simps]:
  "m s = (Inl e, s') \<Longrightarrow> p e \<Longrightarrow> try_except m p h s = h e s'"
  by (simp add: try_except_def)

lemma try_except_uncaught [eff_simps]:
  "m s = (Inl e, s') \<Longrightarrow> \<not> p e \<Longrightarrow> try_except m p h s = (Inl e, s')"
  by (simp add: try_except_def)

text \<open>
  \<open>eff_cases\<close> splits an effectful call into its two outcomes.
\<close>

lemma eff_cases:
  fixes r :: "(exn + 'a) \<times> 's"
  obtains (raised) e s' where "r = (Inl e, s')" | (returned) x s' where "r = (Inr x, s')"
  by (metis old.prod.exhaust sum.exhaust)

text \<open>What each step of a sequence leaves alone, the sequence leaves alone.\<close>

lemma snd_bindE:
  assumes "v (snd (m s)) = v s" "\<And>x s'. v (snd (f x s')) = v s'"
  shows "v (snd (bindE m f s)) = v s"
  using assms by (cases rule: eff_cases [of "m s"]) (auto simp: bindE_def)

lemma snd_try_except:
  assumes "\<And>s. v (snd (m s)) = v s" "\<And>e s'. v (snd (h e s')) = v s'"
  shows "v (snd (try_except m p h s)) = v s"
  using assms(1) [of s] assms(2) by (cases rule: eff_cases [of "m s"]) (auto simp: try_except_def)

section \<open>Comprehensions\<close>

text \<open>\<open>[f(x) for x in xs]\<close> with an \<open>f\<close> that may raise: the first exception ends it.\<close>

fun traverse :: "('a \<Rightarrow> exn + 'b) \<Rightarrow> 'a list \<Rightarrow> exn + 'b list" where
  "traverse f [] = Inr []"
| "traverse f (x # xs) =
     (case f x of Inl e \<Rightarrow> Inl e
      | Inr y \<Rightarrow> (case traverse f xs of Inl e \<Rightarrow> Inl e | Inr ys \<Rightarrow> Inr (y # ys)))"

lemma traverse_Inr: "(\<And>x. x \<in> set xs \<Longrightarrow> f x = Inr (g x)) \<Longrightarrow> traverse f xs = Inr (map g xs)"
  by (induction xs) auto

lemma traverse_Inl:
  "x \<in> set xs \<Longrightarrow> f x = Inl e \<Longrightarrow> \<exists>x' e'. x' \<in> set xs \<and> f x' = Inl e' \<and> traverse f xs = Inl e'"
proof (induction xs)
  case (Cons y ys)
  show ?case
  proof (cases "f y")
    case (Inr b)
    with Cons have "x \<in> set ys" by auto
    with Cons obtain x' e' where "x' \<in> set ys" "f x' = Inl e'" "traverse f ys = Inl e'" by blast
    with Inr show ?thesis by auto
  qed auto
qed simp

text \<open>A \<open>for\<close> loop whose body may raise.\<close>

fun for_each :: "('a \<Rightarrow> ('s, unit) eff) \<Rightarrow> 'a list \<Rightarrow> ('s, unit) eff" where
  "for_each f [] = ret ()"
| "for_each f (x # xs) = bindE (f x) (\<lambda>_. for_each f xs)"

lemma snd_for_each: "(\<And>x s. v (snd (f x s)) = v s) \<Longrightarrow> v (snd (for_each f xs s)) = v s"
  by (induction xs arbitrary: s) (auto intro!: snd_bindE)

text \<open>A loop that appends what its body returns to a list.\<close>

fun collect :: "('a \<Rightarrow> ('s, 'b) eff) \<Rightarrow> 'a list \<Rightarrow> ('s, 'b list) eff" where
  "collect f [] = ret []"
| "collect f (x # xs) = bindE (f x) (\<lambda>y. bindE (collect f xs) (\<lambda>ys. ret (y # ys)))"

lemma snd_collect: "(\<And>x s. v (snd (f x s)) = v s) \<Longrightarrow> v (snd (collect f xs s)) = v s"
  by (induction xs arbitrary: s) (auto intro!: snd_bindE)

text \<open>A body that never raises: the loop does not either, and gives one result for each element.\<close>

lemma collect_total:
  assumes "\<And>x s. \<exists>y s'. f x s = (Inr y, s') \<and> P x y"
  shows "\<exists>ys s'. collect f xs s = (Inr ys, s') \<and> list_all2 P xs ys"
proof (induction xs arbitrary: s)
  case (Cons x xs)
  obtain y s1 where y: "f x s = (Inr y, s1)" "P x y" using assms by blast
  obtain ys s2 where "collect f xs s1 = (Inr ys, s2)" "list_all2 P xs ys" using Cons.IH by blast
  with y show ?case by (auto simp: bindE_def)
qed simp

section \<open>Retryability\<close>

text \<open>
  The split the module's docstring promises.  No exception class is at the same time
  retryable (below \<open>TransientError\<close>) and permanent (below \<open>PermanentError\<close>), and
  both families lie below \<open>TVListBaseError\<close>, so a handler that tests them in either
  order takes the same decision.
\<close>

theorem transient_permanent_disjoint:
  "\<not> (is_subclass c TransientError \<and> is_subclass c PermanentError) \<and>
   is_subclass TransientError TVListBaseError \<and> is_subclass PermanentError TVListBaseError"
  by (cases c) (auto simp: is_subclass_None is_subclass_Some)

end
