(* ===== verification/PyString.thy ===== *)
theory PyString
  imports Prelude "HOL-Library.Sublist"
begin

text \<open>
  The methods of Python's \<open>str\<close> that the program calls: \<open>strip\<close>, \<open>lower\<close>,
  \<open>split\<close>, \<open>splitlines\<close>, \<open>replace\<close>, \<open>startswith\<close>, \<open>in\<close>, and the
  regular expression \<open>\s+\<close>.  A string is a list of code points below 256 (the range of
  Isabelle's \<open>char\<close>); the character classes are Python's on that range.
\<close>

named_theorems str_simps \<open>rewriting rules for Python string methods\<close>

section \<open>White space and case\<close>

text \<open>\<open>str.isspace\<close>, which is also the class \<open>\s\<close> of a \<open>str\<close> pattern.\<close>

definition py_space :: "char \<Rightarrow> bool" where
  "py_space c \<longleftrightarrow>
     c \<in> {CHR 0x09, CHR 0x0A, CHR 0x0B, CHR 0x0C, CHR 0x0D,
          CHR 0x1C, CHR 0x1D, CHR 0x1E, CHR 0x1F, CHR '' '', CHR 0x85, CHR 0xA0}"

lemma py_space_blank [simp]: "py_space (CHR '' '')"
  by (simp add: py_space_def)

text \<open>\<open>str.lower\<close> on Latin-1: A-Z and the accented capitals, except the multiplication sign.\<close>

definition lower_char :: "char \<Rightarrow> char" where
  "lower_char c =
     (let n = (of_char c :: nat)
      in if (65 \<le> n \<and> n \<le> 90) \<or> (192 \<le> n \<and> n \<le> 222 \<and> n \<noteq> 215)
         then char_of (n + 32) else c)"

definition lower :: "string \<Rightarrow> string" where
  "lower s = map lower_char s"

lemma lower_char_idem [simp]: "lower_char (lower_char c) = lower_char c"
proof -
  let ?n = "of_char c :: nat"
  have lt: "?n < 256" by simp
  show ?thesis
  proof (cases "(65 \<le> ?n \<and> ?n \<le> 90) \<or> (192 \<le> ?n \<and> ?n \<le> 222 \<and> ?n \<noteq> 215)")
    case True
    then have l: "lower_char c = char_of (?n + 32)" by (simp add: lower_char_def)
    have "?n + 32 < 256" using True by auto
    then have "of_char (lower_char c) = ?n + 32"
      by (simp add: l)
    with True show ?thesis by (auto simp: lower_char_def [of "lower_char c"] Let_def)
  next
    case False
    then have "lower_char c = c"
      unfolding lower_char_def Let_def by (simp only: if_False)
    then show ?thesis by simp
  qed
qed

lemma lower_idem [simp]: "lower (lower s) = lower s"
  by (simp add: lower_def)

lemma lower_length [simp]: "length (lower s) = length s"
  by (simp add: lower_def)

lemma lower_Nil_iff [simp]: "lower s = [] \<longleftrightarrow> s = []"
  by (simp add: lower_def)

section \<open>strip\<close>

definition lstrip :: "string \<Rightarrow> string" where
  "lstrip s = dropWhile py_space s"

definition rstrip :: "string \<Rightarrow> string" where
  "rstrip s = rev (dropWhile py_space (rev s))"

definition strip :: "string \<Rightarrow> string" where
  "strip s = rstrip (lstrip s)"

text \<open>A string with no white space at either end.\<close>

definition stripped :: "string \<Rightarrow> bool" where
  "stripped s \<longleftrightarrow> s = [] \<or> (\<not> py_space (hd s) \<and> \<not> py_space (last s))"

lemma rstrip_prefix: "\<exists>t. s = rstrip s @ t \<and> (\<forall>c\<in>set t. py_space c)"
proof -
  let ?t = "rev (takeWhile py_space (rev s))"
  have "s = rstrip s @ ?t"
    unfolding rstrip_def rev_append [symmetric] takeWhile_dropWhile_id by simp
  moreover have "\<forall>c\<in>set ?t. py_space c"
    by (auto dest: set_takeWhileD)
  ultimately show ?thesis by blast
qed

lemma rstrip_last: "rstrip s \<noteq> [] \<Longrightarrow> \<not> py_space (last (rstrip s))"
proof -
  assume "rstrip s \<noteq> []"
  then have "dropWhile py_space (rev s) \<noteq> []" by (simp add: rstrip_def)
  from hd_dropWhile [OF this] show ?thesis
    by (simp add: rstrip_def last_rev)
qed

lemma lstrip_hd: "lstrip s \<noteq> [] \<Longrightarrow> \<not> py_space (hd (lstrip s))"
  unfolding lstrip_def by (rule hd_dropWhile)

lemma stripped_strip: "stripped (strip s)"
proof (cases "strip s = []")
  case True
  then show ?thesis by (simp add: stripped_def)
next
  case False
  obtain t where t: "lstrip s = strip s @ t"
    using rstrip_prefix [of "lstrip s"] by (auto simp: strip_def)
  with False have "hd (strip s) = hd (lstrip s)" "lstrip s \<noteq> []"
    by (cases "strip s"; simp)+
  with False show ?thesis
    by (metis stripped_def lstrip_hd rstrip_last strip_def)
qed

lemma strip_stripped: "stripped s \<Longrightarrow> strip s = s"
proof (cases s)
  case (Cons c s')
  assume "stripped s"
  with Cons have "lstrip s = s" by (simp add: lstrip_def stripped_def)
  moreover from \<open>stripped s\<close> Cons have "\<not> py_space (hd (rev s))"
    unfolding stripped_def by (metis hd_rev list.distinct(1))
  then have "dropWhile py_space (rev s) = rev s"
    by (cases "rev s") auto
  then have "rstrip s = s"
    by (simp add: rstrip_def)
  ultimately show ?thesis by (simp add: strip_def)
qed (simp add: strip_def lstrip_def rstrip_def)

lemma strip_idem [simp]: "strip (strip s) = strip s"
  by (rule strip_stripped [OF stripped_strip])

lemma stripped_iff: "stripped s \<longleftrightarrow> strip s = s"
  by (metis strip_stripped stripped_strip)

lemma set_strip_subset: "set (strip s) \<subseteq> set s"
  by (auto simp: strip_def lstrip_def rstrip_def dest!: set_dropWhileD)

lemma strip_length_le: "length (strip s) \<le> length s"
proof -
  have "length (rstrip t) \<le> length t" for t
    unfolding rstrip_def by (metis length_dropWhile_le length_rev)
  moreover have "length (lstrip s) \<le> length s"
    unfolding lstrip_def by (rule length_dropWhile_le)
  ultimately show ?thesis unfolding strip_def by (meson le_trans)
qed

lemma strip_Nil_iff: "strip s = [] \<longleftrightarrow> (\<forall>c\<in>set s. py_space c)"
proof
  assume "strip s = []"
  then have "\<forall>c\<in>set (lstrip s). py_space c"
    by (simp add: strip_def rstrip_def dropWhile_eq_Nil_conv)
  moreover have "lstrip s \<noteq> [] \<Longrightarrow> hd (lstrip s) \<in> set (lstrip s)" by simp
  ultimately have "lstrip s = []" using lstrip_hd by blast
  then show "\<forall>c\<in>set s. py_space c"
    by (simp add: lstrip_def dropWhile_eq_Nil_conv)
next
  assume "\<forall>c\<in>set s. py_space c"
  then have "lstrip s = []"
    by (simp add: lstrip_def dropWhile_eq_Nil_conv)
  then show "strip s = []" by (simp add: strip_def rstrip_def)
qed

section \<open>Searching and splitting\<close>

text \<open>
  \<open>partition_at sep s\<close> is the split of \<open>s\<close> at the first occurrence of \<open>sep\<close>:
  \<open>None\<close> when there is none, otherwise the text before and after it.  With it,
  \<open>sep in s\<close> is \<open>contains sep s\<close>, and \<open>s.split(sep, 1)\<close> is one or two parts.
\<close>

fun partition_at :: "string \<Rightarrow> string \<Rightarrow> (string \<times> string) option" where
  "partition_at sep s =
     (if prefix sep s then Some ([], drop (length sep) s)
      else case s of
             [] \<Rightarrow> None
           | c # cs \<Rightarrow> map_option (\<lambda>(a, b). (c # a, b)) (partition_at sep cs))"

declare partition_at.simps [simp del]

definition contains :: "string \<Rightarrow> string \<Rightarrow> bool" where
  "contains sep s \<longleftrightarrow> partition_at sep s \<noteq> None"

definition split1 :: "string \<Rightarrow> string \<Rightarrow> string list" where
  "split1 sep s = (case partition_at sep s of None \<Rightarrow> [s] | Some (a, b) \<Rightarrow> [a, b])"

text \<open>\<open>s.split(c)\<close> for a separator of one character.\<close>

fun split_on :: "char \<Rightarrow> string \<Rightarrow> string list" where
  "split_on c [] = [[]]"
| "split_on c (x # xs) =
     (if x = c then [] # split_on c xs
      else (case split_on c xs of [] \<Rightarrow> [[x]] | w # ws \<Rightarrow> (x # w) # ws))"

definition startswith :: "string \<Rightarrow> string \<Rightarrow> bool" where
  "startswith s p \<longleftrightarrow> prefix p s"

lemma partition_at_join: "partition_at sep s = Some (a, b) \<Longrightarrow> s = a @ sep @ b"
proof (induction sep s arbitrary: a rule: partition_at.induct)
  case (1 sep s)
  show ?case
  proof (cases "prefix sep s")
    case True
    with "1.prems" show ?thesis
      by (subst (asm) partition_at.simps) (auto simp: prefix_def)
  next
    case False
    with "1.prems" obtain c cs a' where "s = c # cs" "a = c # a'" "partition_at sep cs = Some (a', b)"
      by (subst (asm) partition_at.simps) (auto split: list.splits)
    with "1.IH" [OF False] show ?thesis by simp
  qed
qed

lemma partition_at_sublist: "partition_at sep (a @ sep @ b) \<noteq> None"
proof (induction a)
  case Nil
  then show ?case by (subst partition_at.simps) simp
next
  case (Cons c a)
  then show ?case by (subst partition_at.simps) (auto simp: prefix_def)
qed

lemma contains_iff: "contains sep s \<longleftrightarrow> (\<exists>a b. s = a @ sep @ b)"
  using partition_at_join partition_at_sublist
  by (metis contains_def not_None_eq surj_pair)

lemma contains_sublist: "contains sep s \<longleftrightarrow> sublist sep s"
  by (auto simp: contains_iff sublist_def)

section \<open>splitlines\<close>

definition line_break :: "char \<Rightarrow> bool" where
  "line_break c \<longleftrightarrow>
     c \<in> {CHR 0x0A, CHR 0x0B, CHR 0x0C, CHR 0x0D, CHR 0x1C, CHR 0x1D, CHR 0x1E, CHR 0x85}"

text \<open>What follows a line break: a carriage return takes a line feed with it.\<close>

definition after_break :: "char \<Rightarrow> string \<Rightarrow> string" where
  "after_break c cs = (if c = CHR 0x0D \<and> prefix [CHR 0x0A] cs then tl cs else cs)"

lemma after_break_length: "length (after_break c cs) \<le> length cs"
  by (simp add: after_break_def)

text \<open>\<open>splitl acc s\<close> continues a line whose characters so far are \<open>rev acc\<close>.\<close>

function splitl :: "string \<Rightarrow> string \<Rightarrow> string list" where
  "splitl acc [] = (if acc = [] then [] else [rev acc])"
| "splitl acc (c # cs) =
     (if line_break c
      then rev acc # splitl [] (after_break c cs)
      else splitl (c # acc) cs)"
  by pat_completeness auto
termination
  by (relation "measure (\<lambda>(acc, s). length s)")
     (auto simp: le_imp_less_Suc after_break_length)

definition splitlines :: "string \<Rightarrow> string list" where
  "splitlines s = splitl [] s"

lemma splitl_no_break:
  "(\<forall>c\<in>set acc. \<not> line_break c) \<Longrightarrow> l \<in> set (splitl acc s) \<Longrightarrow> \<forall>c\<in>set l. \<not> line_break c"
proof (induction acc s rule: splitl.induct)
  case (1 acc)
  then show ?case by (simp split: if_splits)
next
  case (2 acc c cs)
  show ?case
  proof (cases "line_break c")
    case True
    with "2.prems"(2) have "l = rev acc \<or> l \<in> set (splitl [] (after_break c cs))"
      by simp
    then show ?thesis
    proof
      assume "l = rev acc"
      with "2.prems"(1) show ?thesis by simp
    qed (rule "2.IH"(1) [OF True], simp)
  next
    case False
    show ?thesis
      by (rule "2.IH"(2) [OF False]) (use "2.prems" False in simp_all)
  qed
qed

lemma splitlines_no_break: "l \<in> set (splitlines s) \<Longrightarrow> c \<in> set l \<Longrightarrow> \<not> line_break c"
  unfolding splitlines_def using splitl_no_break [of "[]" l s] by simp

section \<open>replace\<close>

text \<open>\<open>s.replace(old, new)\<close> for a non-empty \<open>old\<close>; an empty \<open>old\<close> does not occur.\<close>

function replace_all :: "string \<Rightarrow> string \<Rightarrow> string \<Rightarrow> string" where
  "replace_all old new s =
     (if old \<noteq> [] \<and> prefix old s then new @ replace_all old new (drop (length old) s)
      else case s of [] \<Rightarrow> [] | c # cs \<Rightarrow> c # replace_all old new cs)"
  by pat_completeness auto
termination
  by (relation "measure (\<lambda>(old, new, s). length s)") (auto simp: prefix_def)

declare replace_all.simps [simp del]

lemma replace_all_absent: "\<not> contains old s \<Longrightarrow> replace_all old new s = s"
proof (induction s)
  case Nil
  then show ?case
    by (subst replace_all.simps) (auto simp: contains_sublist)
next
  case (Cons c s)
  from Cons.prems have "\<not> prefix old (c # s)" "\<not> contains old s"
    by (auto simp: contains_sublist sublist_Cons_right)
  with Cons.IH show ?case by (subst replace_all.simps) simp
qed

section \<open>Numbers as text\<close>

text \<open>\<open>str(n)\<close> of an integer.\<close>

function show_nat :: "nat \<Rightarrow> string" where
  "show_nat n = (if n < 10 then [char_of (48 + n)] else show_nat (n div 10) @ [char_of (48 + n mod 10)])"
  by pat_completeness auto
termination
  by (relation "measure id") auto

declare show_nat.simps [simp del]

definition show_int :: "int \<Rightarrow> string" where
  "show_int i = (if i < 0 then CHR ''-'' # show_nat (nat (- i)) else show_nat (nat i))"

end
