(* ===== verification/Domain.thy ===== *)
theory Domain
  imports Complex_Main Effects PyString
begin

text \<open>
  The entities and value objects of \<open>domain/models\<close> and \<open>domain/ports/fetcher.py\<close>.
  A pydantic model is a record; its declared field constraints are a predicate
  (\<open>channel_ok\<close>, \<open>program_ok\<close>, \<open>source_ok\<close>, \<open>user_ok\<close>), and constructing the
  model is \<open>validated\<close>: the record, or a \<open>ValidationError\<close> when a constraint fails.
  Assigning to an attribute of an existing model is an unchecked record update, because
  none of the models sets \<open>validate_assignment\<close>.  A string enumeration is a
  datatype with its \<open>.value\<close> function and the constructor that looks a value up.
\<close>

section \<open>Time and JSON values\<close>

text \<open>
  A \<open>datetime\<close>: wall-clock microseconds since 1970-01-01T00:00 and the UTC offset in
  microseconds, absent for a naive one.  The order is that of the DateTime columns, which
  hold the wall clock.
\<close>

datatype datetime = DateTime (dt_wall: int) (dt_off: "int option")

definition us_per_second :: int where "us_per_second = 1000000"

definition dt_plus :: "datetime \<Rightarrow> int \<Rightarrow> datetime" where
  "dt_plus d us = DateTime (dt_wall d + us) (dt_off d)"

lemma dt_plus_simps [simp]:
  "dt_wall (dt_plus d us) = dt_wall d + us" "dt_off (dt_plus d us) = dt_off d"
  by (simp_all add: dt_plus_def)

instantiation datetime :: linorder
begin

definition less_eq_datetime :: "datetime \<Rightarrow> datetime \<Rightarrow> bool" where
  "less_eq_datetime a b \<longleftrightarrow>
     dt_wall a < dt_wall b \<or>
     dt_wall a = dt_wall b \<and>
       (case (dt_off a, dt_off b) of
          (None, _) \<Rightarrow> True | (Some x, None) \<Rightarrow> False | (Some x, Some y) \<Rightarrow> x \<le> y)"

definition less_datetime :: "datetime \<Rightarrow> datetime \<Rightarrow> bool" where
  "less_datetime a b \<longleftrightarrow> a \<le> b \<and> \<not> b \<le> (a :: datetime)"

instance
  by standard
    (auto simp: less_eq_datetime_def less_datetime_def datetime.expand split: option.splits)

end

datatype json =
    JNull | JBool bool | JInt int | JFloat real | JStr string
  | JList "json list" | JObj "(string \<times> json) list"

text \<open>\<open>str(x)\<close> of a JSON value; \<open>pyrepr\<close> is Python's rendering of floats and containers.\<close>

fun py_str :: "(json \<Rightarrow> string) \<Rightarrow> json \<Rightarrow> string" where
  "py_str pyrepr (JStr s) = s"
| "py_str pyrepr JNull = ''None''"
| "py_str pyrepr (JBool b) = (if b then ''True'' else ''False'')"
| "py_str pyrepr (JInt i) = show_int i"
| "py_str pyrepr j = pyrepr j"

section \<open>Construction with validation\<close>

definition validated :: "bool \<Rightarrow> 'a \<Rightarrow> exn + 'a" where
  "validated ok x = (if ok then Inr x else Inl (Exn ValidationError ''validation error''))"

lemma validated_Inr [simp]: "validated ok x = Inr y \<longleftrightarrow> ok \<and> y = x"
  by (auto simp: validated_def)

lemma validated_Inl: "validated ok x = Inl e \<Longrightarrow> \<not> ok \<and> exc e = ValidationError"
  by (auto simp: validated_def split: if_splits)

definition str_between :: "nat \<Rightarrow> nat \<Rightarrow> string \<Rightarrow> bool" where
  "str_between lo hi s \<longleftrightarrow> lo \<le> length s \<and> length s \<le> hi"

text \<open>
  Validating an optional \<open>HttpUrl\<close> field: pydantic's URL parser is a parameter that gives
  the normalised URL of a string it accepts.
\<close>

definition optional_url :: "(string \<Rightarrow> string option) \<Rightarrow> string option \<Rightarrow> exn + string option" where
  "optional_url http_url u =
     (case u of None \<Rightarrow> Inr None
      | Some v \<Rightarrow> (case http_url v of
          None \<Rightarrow> Inl (Exn ValidationError ''invalid url'') | Some v' \<Rightarrow> Inr (Some v')))"

text \<open>\<open>str(u) if u else None\<close>.\<close>

definition str_or_none :: "string option \<Rightarrow> string option" where
  "str_or_none u = (if u = Some [] then None else u)"

text \<open>A \<open>DateTime\<close> column keeps the wall clock and drops the UTC offset.\<close>

definition naive :: "datetime \<Rightarrow> datetime" where
  "naive d = DateTime (dt_wall d) None"

lemma naive_simps [simp]: "dt_wall (naive d) = dt_wall d" "naive (naive d) = naive d"
  by (simp_all add: naive_def)

section \<open>Value objects\<close>

record channel =
  channel_id :: string
  channel_name :: string
  logo_url :: "string option"
  country :: "string option"
  language :: "string option"

definition channel_ok :: "channel \<Rightarrow> bool" where
  "channel_ok c \<longleftrightarrow> str_between 1 64 (channel_id c) \<and> str_between 1 255 (channel_name c)"

record time_slot =
  slot_start :: datetime
  slot_end :: datetime
  slot_timezone :: string

datatype tag = Tag (label: string) (category: string)

section \<open>The programme aggregate\<close>

record tv_program =
  prog_id :: "string option"
  title :: string
  description :: "string option"
  channel :: channel
  slot :: time_slot
  tags :: "tag list"
  source_ids :: "string list"
  identity_key :: string
  created_at :: datetime
  updated_at :: datetime
  version :: int

definition program_ok :: "tv_program \<Rightarrow> bool" where
  "program_ok p \<longleftrightarrow> str_between 1 512 (title p)"

section \<open>Data sources\<close>

datatype source_type = HTTP_JSON | RSS | HTML_SCRAPE | M3U | CUSTOM

fun source_type_value :: "source_type \<Rightarrow> string" where
  "source_type_value HTTP_JSON = ''http_json''"
| "source_type_value RSS = ''rss''"
| "source_type_value HTML_SCRAPE = ''html_scrape''"
| "source_type_value M3U = ''m3u''"
| "source_type_value CUSTOM = ''custom''"

datatype source_status = ACTIVE | PAUSED | DISABLED

fun source_status_value :: "source_status \<Rightarrow> string" where
  "source_status_value ACTIVE = ''active''"
| "source_status_value PAUSED = ''paused''"
| "source_status_value DISABLED = ''disabled''"

text \<open>Looking a member up by value; an unknown value raises \<open>ValueError\<close>.\<close>

definition enum_of :: "('e \<Rightarrow> string) \<Rightarrow> 'e list \<Rightarrow> string \<Rightarrow> exn + 'e" where
  "enum_of value members v =
     (case find (\<lambda>m. value m = v) members of
        Some m \<Rightarrow> Inr m
      | None \<Rightarrow> Inl (Exn ValueError (v @ '' is not a valid member'')))"

lemma enum_of_Inr: "enum_of value members v = Inr m \<Longrightarrow> m \<in> set members \<and> value m = v"
  by (auto simp: enum_of_def split: option.splits dest: find_SomeD)

definition source_type_of :: "string \<Rightarrow> exn + source_type" where
  "source_type_of = enum_of source_type_value [HTTP_JSON, RSS, HTML_SCRAPE, M3U, CUSTOM]"

definition source_status_of :: "string \<Rightarrow> exn + source_status" where
  "source_status_of = enum_of source_status_value [ACTIVE, PAUSED, DISABLED]"

lemma source_type_of_value [simp]: "source_type_of (source_type_value t) = Inr t"
  by (cases t) (simp_all add: source_type_of_def enum_of_def)

lemma source_status_of_value [simp]: "source_status_of (source_status_value s) = Inr s"
  by (cases s) (simp_all add: source_status_of_def enum_of_def)

lemma source_status_value_eq_iff [simp]:
  "source_status_value s = source_status_value s' \<longleftrightarrow> s = s'"
  by (cases s; cases s'; simp)

record tv_source =
  src_id :: string
  src_name :: string
  src_type :: source_type
  src_url :: "string option"
  src_config :: "(string, json) dict"
  src_headers :: "(string, string) dict"
  src_cron :: string
  src_priority :: int
  src_status :: source_status
  src_parser :: string
  src_created_at :: datetime
  src_updated_at :: datetime

definition source_ok :: "tv_source \<Rightarrow> bool" where
  "source_ok s \<longleftrightarrow> str_between 1 255 (src_name s) \<and> 0 \<le> src_priority s \<and> src_priority s \<le> 10"

text \<open>The tests \<open>if not source.url\<close> and \<open>source.headers or None\<close>.\<close>

definition has_url :: "tv_source \<Rightarrow> bool" where
  "has_url s \<longleftrightarrow> src_url s \<noteq> None \<and> src_url s \<noteq> Some []"

definition headers_or_none :: "tv_source \<Rightarrow> (string, string) dict option" where
  "headers_or_none s = (if src_headers s = [] then None else Some (src_headers s))"

section \<open>Crawl jobs, health results, users\<close>

datatype job_status = PENDING | RUNNING | SUCCESS | FAILED | PARTIAL_FAILURE | RETRY

fun job_status_value :: "job_status \<Rightarrow> string" where
  "job_status_value PENDING = ''pending''"
| "job_status_value RUNNING = ''running''"
| "job_status_value SUCCESS = ''success''"
| "job_status_value FAILED = ''failed''"
| "job_status_value PARTIAL_FAILURE = ''partial_failure''"
| "job_status_value RETRY = ''retry''"

definition job_status_of :: "string \<Rightarrow> exn + job_status" where
  "job_status_of =
     enum_of job_status_value [PENDING, RUNNING, SUCCESS, FAILED, PARTIAL_FAILURE, RETRY]"

lemma job_status_of_value [simp]: "job_status_of (job_status_value s) = Inr s"
  by (cases s) (simp_all add: job_status_of_def enum_of_def)

lemma job_status_value_eq_iff [simp]: "job_status_value s = job_status_value s' \<longleftrightarrow> s = s'"
  by (cases s; cases s'; simp)

record crawl_job =
  job_id :: string
  job_source_id :: string
  job_status :: job_status
  job_started_at :: datetime
  job_finished_at :: "datetime option"
  items_fetched :: nat
  items_saved :: nat
  job_error :: "string option"
  job_trace_id :: "string option"

definition job_ok :: "crawl_job \<Rightarrow> bool" where
  "job_ok j \<longleftrightarrow> (case job_error j of None \<Rightarrow> True | Some e \<Rightarrow> length e \<le> 2000)"

record source_health =
  health_source_id :: string
  is_alive :: bool
  latency_ms :: "int option"
  checked_at :: datetime
  health_message :: "string option"

datatype role = Admin | User

record user =
  user_id :: string
  username :: string
  user_role :: role
  user_created_at :: datetime
  disabled :: bool

definition user_ok :: "user \<Rightarrow> bool" where
  "user_ok u \<longleftrightarrow> str_between 1 64 (username u)"

section \<open>Fetch results\<close>

record fetch_result =
  res_url :: string
  res_status_code :: int
  res_body :: string
  res_headers :: "(string, string) dict"
  res_elapsed_ms :: int

section \<open>Concrete values for the witnesses\<close>

definition sample_time :: datetime where
  "sample_time = DateTime 0 (Some 0)"

definition sample_program :: "string \<Rightarrow> string \<Rightarrow> tv_program" where
  "sample_program k s =
     \<lparr>prog_id = None, title = ''News'', description = None,
      channel = \<lparr>channel_id = ''c1'', channel_name = ''One'', logo_url = None, country = None,
                 language = None\<rparr>,
      slot = \<lparr>slot_start = sample_time, slot_end = sample_time, slot_timezone = ''UTC''\<rparr>,
      tags = [], source_ids = [s], identity_key = k,
      created_at = sample_time, updated_at = sample_time, version = 1\<rparr>"

lemma sample_program_simps [simp]:
  "identity_key (sample_program k s) = k" "source_ids (sample_program k s) = [s]"
  "title (sample_program k s) = ''News''" "prog_id (sample_program k s) = None"
  "description (sample_program k s) = None" "tags (sample_program k s) = []"
  "version (sample_program k s) = 1"
  by (simp_all add: sample_program_def)

definition sample_source :: "string \<Rightarrow> tv_source" where
  "sample_source i =
     \<lparr>src_id = i, src_name = ''demo'', src_type = HTTP_JSON, src_url = Some ''http://x'',
      src_config = [], src_headers = [], src_cron = ''* * * * *'', src_priority = 5,
      src_status = ACTIVE, src_parser = ''auto'', src_created_at = sample_time,
      src_updated_at = sample_time\<rparr>"

lemma sample_source_simps [simp]:
  "src_id (sample_source i) = i" "src_url (sample_source i) = Some ''http://x''"
  "src_status (sample_source i) = ACTIVE" "src_priority (sample_source i) = 5"
  "src_name (sample_source i) = ''demo''" "src_type (sample_source i) = HTTP_JSON"
  by (simp_all add: sample_source_def)

end
