(* ===== verification/CircuitBreaker.thy ===== *)
theory CircuitBreaker
  imports Complex_Main Effects
begin

text \<open>
  \<open>infrastructure/resilience/circuit_breaker.py\<close>: \<open>AsyncCircuitBreaker\<close>.  The lock
  is released while the guarded function runs, so the operations are the three locked
  sections: \<open>before_call\<close> (admission), \<open>on_success\<close> and \<open>on_failure\<close>.
  \<open>breaker_call\<close> composes them for one call that nothing interleaves with;
  \<open>brk_step\<close> is the step relation of any number of overlapping calls.
  \<open>time.monotonic()\<close> is an argument or is read from the state.
\<close>

section \<open>The breaker\<close>

datatype circuit_state = CLOSED | OPEN | HALF_OPEN

record breaker =
  brk_state :: circuit_state
  fail_count :: nat
  opened_at :: "real option"
  fail_max :: nat
  reset_timeout :: real
  brk_name :: string

definition AsyncCircuitBreaker :: "string \<Rightarrow> nat \<Rightarrow> real \<Rightarrow> breaker" where
  "AsyncCircuitBreaker name fmax timeout =
     \<lparr>brk_state = CLOSED, fail_count = 0, opened_at = None, fail_max = fmax,
      reset_timeout = timeout, brk_name = name\<rparr>"

definition circuit_open_error :: "breaker \<Rightarrow> exn" where
  "circuit_open_error b = Exn TransientError (''circuit '' @ CHR 0x27 # brk_name b @ CHR 0x27 # '' is open'')"

text \<open>The first locked section of \<open>call\<close>; the \<open>assert\<close> is the \<open>None\<close> case.\<close>

definition before_call :: "real \<Rightarrow> breaker \<Rightarrow> (exn + unit) \<times> breaker" where
  "before_call now b =
     (if brk_state b = OPEN
      then (case opened_at b of
              None \<Rightarrow> (Inl (Exn AssertionError []), b)
            | Some t \<Rightarrow> if now - t \<ge> reset_timeout b
                        then (Inr (), b\<lparr>brk_state := HALF_OPEN\<rparr>)
                        else (Inl (circuit_open_error b), b))
      else (Inr (), b))"

definition on_success :: "breaker \<Rightarrow> breaker" where
  "on_success b =
     (if brk_state b = HALF_OPEN then b\<lparr>brk_state := CLOSED\<rparr> else b)
       \<lparr>fail_count := 0, opened_at := None\<rparr>"

definition on_failure :: "real \<Rightarrow> breaker \<Rightarrow> breaker" where
  "on_failure now b =
     (let b = b\<lparr>fail_count := fail_count b + 1\<rparr>
      in if brk_state b = HALF_OPEN \<or> fail_max b \<le> fail_count b
         then b\<lparr>brk_state := OPEN, opened_at := Some now\<rparr> else b)"

text \<open>
  \<open>call\<close> without interleaving: the guarded function runs on the rest of the state, whose
  clock is \<open>clock\<close>.
\<close>

definition breaker_call :: "('w \<Rightarrow> real) \<Rightarrow> ('w, 'a) eff \<Rightarrow> (breaker \<times> 'w, 'a) eff" where
  "breaker_call clock func s =
     (case before_call (clock (snd s)) (fst s) of
        (Inl e, b) \<Rightarrow> (Inl e, (b, snd s))
      | (Inr _, b) \<Rightarrow>
          (case func (snd s) of
             (Inl e, w) \<Rightarrow> (Inl e, (on_failure (clock w) b, w))
           | (Inr x, w) \<Rightarrow> (Inr x, (on_success b, w))))"

section \<open>Calls one after another\<close>

text \<open>What holds of the breaker whenever no call is in progress, if calls never overlap.\<close>

definition breaker_ok :: "breaker \<Rightarrow> bool" where
  "breaker_ok b \<longleftrightarrow> 0 < fail_max b \<and>
     (case brk_state b of
        CLOSED \<Rightarrow> opened_at b = None \<and> fail_count b < fail_max b
      | OPEN \<Rightarrow> opened_at b \<noteq> None
      | HALF_OPEN \<Rightarrow> opened_at b \<noteq> None)"

lemma AsyncCircuitBreaker_ok: "0 < n \<Longrightarrow> breaker_ok (AsyncCircuitBreaker name n t)"
  by (simp add: breaker_ok_def AsyncCircuitBreaker_def)

lemma before_call_ok:
  "breaker_ok b \<Longrightarrow> before_call now b = (r, b') \<Longrightarrow>
     breaker_ok b' \<and> (r = Inr () \<longrightarrow> brk_state b' \<noteq> OPEN) \<and>
     (\<forall>e. r = Inl e \<longrightarrow> e = circuit_open_error b \<and> b' = b)"
  by (auto simp: before_call_def breaker_ok_def split: if_splits option.splits circuit_state.splits)

lemma on_success_ok:
  "breaker_ok b \<Longrightarrow> brk_state b \<noteq> OPEN \<Longrightarrow> breaker_ok (on_success b) \<and> brk_state (on_success b) = CLOSED"
  by (cases "brk_state b") (auto simp: on_success_def breaker_ok_def)

lemma on_failure_ok: "breaker_ok b \<Longrightarrow> breaker_ok (on_failure now b)"
  by (auto simp: on_failure_def breaker_ok_def Let_def split: circuit_state.splits)

lemma breaker_call_ok:
  assumes "breaker_ok b" and "breaker_call clock func (b, w) = (r, (b', w'))"
  shows "breaker_ok b'"
  using assms before_call_ok [OF assms(1)]
  by (auto simp: breaker_call_def on_success_ok on_failure_ok split: prod.splits sum.splits)

text \<open>A run of calls whose outcomes are given: \<open>None\<close> is a success, \<open>Some e\<close> a raise.\<close>

fun call_outcomes :: "breaker \<Rightarrow> (real \<times> bool) list \<Rightarrow> breaker" where
  "call_outcomes b [] = b"
| "call_outcomes b ((now, failed) # cs) =
     (case before_call now b of
        (Inl _, b') \<Rightarrow> call_outcomes b' cs
      | (Inr _, b') \<Rightarrow> call_outcomes (if failed then on_failure now b' else on_success b') cs)"

lemma call_outcomes_failures:
  assumes "brk_state b = CLOSED" and "fail_count b + length ts \<le> fail_max b" and "ts \<noteq> []"
  shows "call_outcomes b (map (\<lambda>t. (t, True)) ts) =
    (if fail_count b + length ts = fail_max b
     then b\<lparr>brk_state := OPEN, fail_count := fail_max b, opened_at := Some (last ts)\<rparr>
     else b\<lparr>fail_count := fail_count b + length ts\<rparr>)"
  using assms
proof (induction ts arbitrary: b)
  case (Cons t ts)
  have adm: "before_call t b = (Inr (), b)"
    using Cons.prems by (simp add: before_call_def)
  show ?case
  proof (cases "ts = []")
    case True
    with Cons.prems adm show ?thesis by (simp add: on_failure_def Let_def)
  next
    case False
    let ?b = "b\<lparr>fail_count := Suc (fail_count b)\<rparr>"
    have "on_failure t b = ?b"
      using Cons.prems False by (cases ts) (simp_all add: on_failure_def Let_def)
    with adm Cons.IH [of ?b] Cons.prems False show ?thesis by simp
  qed
qed simp

section \<open>Overlapping calls\<close>

text \<open>
  The system: the breaker, how many admitted calls have not finished, and the clock, which
  never goes back.
\<close>

record brk_sys =
  sys_breaker :: breaker
  in_flight :: nat
  sys_now :: real

definition brk_init :: "breaker \<Rightarrow> real \<Rightarrow> brk_sys" where
  "brk_init b now = \<lparr>sys_breaker = b, in_flight = 0, sys_now = now\<rparr>"

inductive brk_step :: "brk_sys \<Rightarrow> brk_sys \<Rightarrow> bool" where
  admit: "before_call (sys_now s) (sys_breaker s) = (Inr (), b) \<Longrightarrow>
    brk_step s (s\<lparr>sys_breaker := b, in_flight := Suc (in_flight s)\<rparr>)"
| reject: "before_call (sys_now s) (sys_breaker s) = (Inl e, b) \<Longrightarrow>
    brk_step s (s\<lparr>sys_breaker := b\<rparr>)"
| succeed: "in_flight s = Suc n \<Longrightarrow>
    brk_step s (s\<lparr>sys_breaker := on_success (sys_breaker s), in_flight := n\<rparr>)"
| failed: "in_flight s = Suc n \<Longrightarrow>
    brk_step s (s\<lparr>sys_breaker := on_failure (sys_now s) (sys_breaker s), in_flight := n\<rparr>)"
| pass: "sys_now s \<le> t \<Longrightarrow> brk_step s (s\<lparr>sys_now := t\<rparr>)"

inductive_cases brk_stepE: "brk_step s s'"

inductive brk_reach :: "brk_sys \<Rightarrow> brk_sys \<Rightarrow> bool" for s0 where
  start: "brk_reach s0 s0"
| step: "brk_reach s0 s \<Longrightarrow> brk_step s s' \<Longrightarrow> brk_reach s0 s'"

lemma brk_reach_trans: "brk_reach b c \<Longrightarrow> brk_reach a b \<Longrightarrow> brk_reach a c"
  by (induction rule: brk_reach.induct) (auto intro: brk_reach.intros)

text \<open>
  What survives interleaving.  The \<open>OPEN\<close> state without an opening time is possible, so
  only the other two states determine \<open>opened_at\<close>.
\<close>

definition sys_inv :: "brk_sys \<Rightarrow> bool" where
  "sys_inv s \<longleftrightarrow>
     (case brk_state (sys_breaker s) of
        CLOSED \<Rightarrow> opened_at (sys_breaker s) = None \<and>
                  fail_count (sys_breaker s) < fail_max (sys_breaker s)
      | OPEN \<Rightarrow> True
      | HALF_OPEN \<Rightarrow> opened_at (sys_breaker s) \<noteq> None) \<and>
     0 < fail_max (sys_breaker s) \<and>
     (\<forall>t. opened_at (sys_breaker s) = Some t \<longrightarrow> t \<le> sys_now s)"

lemma sys_inv_init: "0 < n \<Longrightarrow> sys_inv (brk_init (AsyncCircuitBreaker name n t) now)"
  by (simp add: sys_inv_def brk_init_def AsyncCircuitBreaker_def)

lemma sys_inv_step: "brk_step s s' \<Longrightarrow> sys_inv s \<Longrightarrow> sys_inv s'"
proof (induction rule: brk_step.induct)
  case (admit s b)
  then show ?case
    by (auto simp: sys_inv_def before_call_def split: if_splits option.splits circuit_state.splits)
next
  case (reject s e b)
  then show ?case
    by (auto simp: before_call_def split: if_splits option.splits)
next
  case (succeed s n)
  then show ?case
    by (cases "brk_state (sys_breaker s)") (auto simp: sys_inv_def on_success_def)
next
  case (failed s n)
  then show ?case
    by (auto simp: sys_inv_def on_failure_def Let_def split: circuit_state.splits)
next
  case (pass s t)
  then show ?case
    by (auto simp: sys_inv_def split: circuit_state.splits intro: order_trans)
qed

lemma sys_inv_reach: "brk_reach s s' \<Longrightarrow> sys_inv s \<Longrightarrow> sys_inv s'"
  by (induction rule: brk_reach.induct) (auto intro: sys_inv_step)

section \<open>Properties\<close>

text \<open>
  Calls that do not overlap keep the breaker well formed: an open or half-open breaker
  knows when it opened, a closed one has counted fewer than \<open>fail_max\<close> failures.  So
  \<open>call\<close> never fails its own assertion: an \<open>AssertionError\<close> comes from the guarded
  function.
\<close>

theorem breaker_call_invariant:
  assumes "breaker_ok b" and "breaker_call clock func (b, w) = (r, (b', w'))"
  shows "breaker_ok b' \<and>
         (\<forall>e. r = Inl e \<and> exc e = AssertionError \<longrightarrow> func w = (Inl e, w'))"
proof -
  obtain a b1 where a: "before_call (clock w) b = (a, b1)" by (metis surj_pair)
  from before_call_ok [OF assms(1) a] have t: "exc e = TransientError" if "a = Inl e" for e
    using that by (auto simp: circuit_open_error_def)
  have f: "func w = (Inl e, w')" if "a = Inr ()" "r = Inl e" for e
    using assms(2) a that by (simp add: breaker_call_def split: prod.splits sum.splits)
  have r: "r = Inl e" if "a = Inl e" for e
    using assms(2) a that by (simp add: breaker_call_def)
  have "func w = (Inl e, w')" if e: "r = Inl e" "exc e = AssertionError" for e
  proof (cases a)
    case (Inl e')
    from r [OF Inl] t [OF Inl] e have False by simp
    then show ?thesis ..
  next
    case (Inr u)
    then have "a = Inr ()" by simp
    from f [OF this e(1)] show ?thesis .
  qed
  with breaker_call_ok [OF assms] show ?thesis by blast
qed

theorem breaker_call_invariant_witness:
  "breaker_ok ((AsyncCircuitBreaker ''http'' 1 30)\<lparr>brk_state := OPEN, fail_count := 1, opened_at := Some 1\<rparr>)"
proof -
  let ?b = "AsyncCircuitBreaker ''http'' 1 30"
  have "breaker_call id (\<lambda>w. (Inl (Exn TransportError []) :: exn + unit, w + 1)) (?b, 0 :: real) =
      (Inl (Exn TransportError []), (?b\<lparr>brk_state := OPEN, fail_count := 1, opened_at := Some 1\<rparr>, 1))"
    by (simp add: breaker_call_def before_call_def on_failure_def AsyncCircuitBreaker_def)
  from breaker_call_invariant [OF AsyncCircuitBreaker_ok this] show ?thesis by simp
qed

text \<open>
  C5: a closed breaker opens at exactly the \<open>fail_max\<close>-th consecutive failure, at the
  time of that failure, and any success in between starts the count again.
\<close>

theorem breaker_trips_at_fail_max:
  assumes "brk_state b = CLOSED" and "0 < fail_max b" and "times1 \<noteq> []" and "length times1 \<le> fail_max b"
  shows "brk_state (call_outcomes (on_success b) (map (\<lambda>t. (t, True)) times1)) =
           (if length times1 = fail_max b then OPEN else CLOSED) \<and>
         opened_at (call_outcomes (on_success b) (map (\<lambda>t. (t, True)) times1)) =
           (if length times1 = fail_max b then Some (last times1) else None)"
proof -
  have "brk_state (on_success b) = CLOSED" "fail_count (on_success b) = 0"
    "fail_max (on_success b) = fail_max b" "opened_at (on_success b) = None"
    using assms(1) by (simp_all add: on_success_def)
  with call_outcomes_failures [of "on_success b" times1] assms show ?thesis by simp
qed

theorem breaker_trips_at_fail_max_witness:
  "opened_at (call_outcomes (on_success (AsyncCircuitBreaker ''http'' 3 30)) [(1, True), (2, True), (4, True)])
     = Some 4"
  using breaker_trips_at_fail_max [of "AsyncCircuitBreaker ''http'' 3 30" "[1, 2, 4]"]
  by (simp add: AsyncCircuitBreaker_def)

lemma breaker_call_refused:
  "brk_state b = OPEN \<Longrightarrow> opened_at b = Some t \<Longrightarrow> clock w - t < reset_timeout b \<Longrightarrow>
     breaker_call clock func (b, w) = (Inl (circuit_open_error b), (b, w))"
  by (simp add: breaker_call_def before_call_def)

text \<open>
  C4: an open breaker protects the source.  Until \<open>reset_timeout\<close> seconds after it
  opened, a call raises \<open>TransientError\<close>, leaves the breaker as it is and does not run
  the guarded function; from then on the call probes: the function runs once, a success
  closes the breaker with the count at zero, a failure opens it again at the time of the
  failure and is re-raised.
\<close>

theorem breaker_open_call:
  assumes "brk_state b = OPEN" and "opened_at b = Some t"
  shows "(clock w - t < reset_timeout b \<longrightarrow>
            breaker_call clock func (b, w) = (Inl (circuit_open_error b), (b, w))) \<and>
         (reset_timeout b \<le> clock w - t \<longrightarrow>
            breaker_call clock func (b, w) =
              (case func w of
                 (Inr x, w') \<Rightarrow> (Inr x, (b\<lparr>brk_state := CLOSED, fail_count := 0, opened_at := None\<rparr>, w'))
               | (Inl e, w') \<Rightarrow> (Inl e, (b\<lparr>brk_state := OPEN, fail_count := fail_count b + 1,
                                           opened_at := Some (clock w')\<rparr>, w'))))"
  using assms
  by (auto simp: breaker_call_def before_call_def on_success_def on_failure_def Let_def
      split: prod.splits sum.splits)

theorem breaker_open_call_witness:
  "breaker_call id (\<lambda>w. (Inr ''body'', w + 1))
     ((AsyncCircuitBreaker ''http'' 5 30)\<lparr>brk_state := OPEN, opened_at := Some 100\<rparr>, 129 :: real)
   = (Inl (Exn TransientError (''circuit '' @ CHR 0x27 # ''http'' @ CHR 0x27 # '' is open'')),
      ((AsyncCircuitBreaker ''http'' 5 30)\<lparr>brk_state := OPEN, opened_at := Some 100\<rparr>, 129))"
  using breaker_open_call [of "(AsyncCircuitBreaker ''http'' 5 30)\<lparr>brk_state := OPEN, opened_at := Some 100\<rparr>" 100
      id "129 :: real" "\<lambda>w. (Inr ''body'', w + 1)"]
  by (simp add: AsyncCircuitBreaker_def circuit_open_error_def)

text \<open>
  Whatever the interleaving of any number of overlapping calls, a closed breaker has
  counted fewer than \<open>fail_max\<close> failures and carries no opening time, a half-open one
  knows when it opened, and no opening time lies in the future.
\<close>

theorem breaker_interleaving_invariant:
  assumes "0 < n" and "brk_reach (brk_init (AsyncCircuitBreaker name n timeout) now) s"
  shows "(brk_state (sys_breaker s) = CLOSED \<longrightarrow>
            opened_at (sys_breaker s) = None \<and> fail_count (sys_breaker s) < fail_max (sys_breaker s)) \<and>
         (brk_state (sys_breaker s) = HALF_OPEN \<longrightarrow> opened_at (sys_breaker s) \<noteq> None) \<and>
         (\<forall>t. opened_at (sys_breaker s) = Some t \<longrightarrow> t \<le> sys_now s)"
  using sys_inv_reach [OF assms(2) sys_inv_init [OF assms(1)]]
  by (auto simp: sys_inv_def)

theorem breaker_interleaving_invariant_witness:
  "opened_at (sys_breaker (brk_init (AsyncCircuitBreaker ''http'' 5 30) 7)) = None"
  using breaker_interleaving_invariant [OF _ brk_reach.start, of 5 "''http''" 30 7]
  by (simp add: brk_init_def AsyncCircuitBreaker_def)

text \<open>
  The stuck states: \<open>OPEN\<close> with no opening time and no call in progress.
\<close>

definition wedged :: "brk_sys \<Rightarrow> bool" where
  "wedged s \<longleftrightarrow>
     brk_state (sys_breaker s) = OPEN \<and> opened_at (sys_breaker s) = None \<and> in_flight s = 0"

lemma wedged_step: "brk_step s s' \<Longrightarrow> wedged s \<Longrightarrow> wedged s'"
  by (induction rule: brk_step.induct) (auto simp: wedged_def before_call_def)

lemma wedged_reach: "brk_reach s s' \<Longrightarrow> wedged s \<Longrightarrow> wedged s'"
  by (induction rule: brk_reach.induct) (auto intro: wedged_step)

lemma admit_many:
  assumes "brk_state (sys_breaker s) \<noteq> OPEN"
  shows "brk_reach s (s\<lparr>in_flight := in_flight s + k\<rparr>)"
proof (induction k)
  case 0
  show ?case by (simp add: brk_reach.start)
next
  case (Suc k)
  let ?s = "s\<lparr>in_flight := in_flight s + k\<rparr>"
  have "brk_step ?s (?s\<lparr>sys_breaker := sys_breaker ?s, in_flight := Suc (in_flight ?s)\<rparr>)"
    by (rule brk_step.admit) (use assms in \<open>simp add: before_call_def\<close>)
  from brk_reach.step [OF Suc this] show ?case by simp
qed

lemma fail_many:
  assumes "brk_state (sys_breaker s) = CLOSED" and "fail_max (sys_breaker s) = fail_count (sys_breaker s) + Suc k"
    and "in_flight s = Suc k + j"
  shows "brk_reach s (s\<lparr>sys_breaker := (sys_breaker s)\<lparr>brk_state := OPEN,
      fail_count := fail_max (sys_breaker s), opened_at := Some (sys_now s)\<rparr>, in_flight := j\<rparr>)"
  using assms
proof (induction k arbitrary: s)
  case 0
  have f: "on_failure (sys_now s) (sys_breaker s) = (sys_breaker s)\<lparr>brk_state := OPEN,
      fail_count := fail_max (sys_breaker s), opened_at := Some (sys_now s)\<rparr>"
    using 0 by (cases "sys_breaker s") (simp add: on_failure_def Let_def)
  have "brk_step s (s\<lparr>sys_breaker := on_failure (sys_now s) (sys_breaker s), in_flight := j\<rparr>)"
    by (rule brk_step.failed) (simp add: 0)
  then show ?case
    unfolding f by (rule brk_reach.step [OF brk_reach.start])
next
  case (Suc k)
  let ?s = "s\<lparr>sys_breaker := on_failure (sys_now s) (sys_breaker s), in_flight := Suc k + j\<rparr>"
  have f: "on_failure (sys_now s) (sys_breaker s) =
      (sys_breaker s)\<lparr>fail_count := Suc (fail_count (sys_breaker s))\<rparr>"
    using Suc.prems by (simp add: on_failure_def Let_def)
  have "brk_step s ?s" by (rule brk_step.failed) (simp add: Suc.prems)
  then have "brk_reach s ?s" by (rule brk_reach.step [OF brk_reach.start])
  moreover note Suc.IH [of ?s]
  ultimately show ?case using Suc.prems by (auto simp: f intro: brk_reach_trans)
qed

text \<open>
  C6: a breaker can be locked open for good.  For every \<open>fail_max\<close> there is an
  interleaving of \<open>fail_max + 1\<close> overlapping calls, \<open>fail_max\<close> failing and then one
  succeeding, after which the breaker is open but has forgotten when it opened; from such a
  state every later call, at any time, ends in the \<open>AssertionError\<close> of \<open>call\<close>, and the
  breaker never changes again: the timeout no longer leads to a probe.
\<close>

theorem breaker_wedges:
  assumes "0 < n"
  shows "\<exists>s. brk_reach (brk_init (AsyncCircuitBreaker name n timeout) now) s \<and>
             (\<forall>s'. brk_reach s s' \<longrightarrow>
                brk_state (sys_breaker s') = OPEN \<and>
                (\<forall>t. before_call t (sys_breaker s') = (Inl (Exn AssertionError []), sys_breaker s')))"
proof -
  let ?b = "AsyncCircuitBreaker name n timeout"
  let ?s0 = "brk_init ?b now"
  let ?s1 = "?s0\<lparr>in_flight := n + 1\<rparr>"
  let ?b2 = "?b\<lparr>brk_state := OPEN, fail_count := n, opened_at := Some now\<rparr>"
  let ?s2 = "?s1\<lparr>sys_breaker := ?b2, in_flight := 1\<rparr>"
  let ?s3 = "?s2\<lparr>sys_breaker := on_success ?b2, in_flight := 0\<rparr>"
  obtain k where n: "n = Suc k" using assms gr0_implies_Suc by blast
  have "brk_reach ?s0 ?s1"
    using admit_many [of ?s0 "n + 1"] by (simp add: brk_init_def AsyncCircuitBreaker_def)
  moreover have "brk_reach ?s1 ?s2"
    using fail_many [of ?s1 k 1] n by (simp add: brk_init_def AsyncCircuitBreaker_def)
  moreover have "brk_step ?s2 ?s3"
    using brk_step.succeed [of ?s2 0] by (simp add: brk_init_def)
  ultimately have reach: "brk_reach ?s0 ?s3"
    by (meson brk_reach.step brk_reach_trans)
  have w: "wedged ?s3" by (simp add: wedged_def on_success_def)
  have "brk_state (sys_breaker s') = OPEN \<and>
      (\<forall>t. before_call t (sys_breaker s') = (Inl (Exn AssertionError []), sys_breaker s'))"
    if "brk_reach ?s3 s'" for s'
    using wedged_reach [OF that w] by (simp add: wedged_def before_call_def)
  with reach show ?thesis by blast
qed

theorem breaker_wedges_witness:
  "\<exists>s. brk_reach (brk_init (AsyncCircuitBreaker ''http-fetcher'' 5 30) 0) s \<and>
        brk_state (sys_breaker s) = OPEN"
  using breaker_wedges [of 5 "''http-fetcher''" 30 0] brk_reach.start by force

text \<open>
  A half-open breaker does not limit the probes.  Once it is half-open, any number of
  further calls is admitted before the first probe has finished.
\<close>

theorem half_open_admits_any_number:
  assumes "brk_state (sys_breaker s) = HALF_OPEN"
  shows "before_call t (sys_breaker s) = (Inr (), sys_breaker s) \<and>
         brk_reach s (s\<lparr>in_flight := in_flight s + k\<rparr>)"
  using assms admit_many [of s k] by (simp add: before_call_def)

theorem half_open_admits_any_number_witness:
  "before_call 0 ((AsyncCircuitBreaker ''http'' 5 30)\<lparr>brk_state := HALF_OPEN, opened_at := Some 0\<rparr>) =
     (Inr (), (AsyncCircuitBreaker ''http'' 5 30)\<lparr>brk_state := HALF_OPEN, opened_at := Some 0\<rparr>)"
  using half_open_admits_any_number
    [of "brk_init ((AsyncCircuitBreaker ''http'' 5 30)\<lparr>brk_state := HALF_OPEN, opened_at := Some 0\<rparr>) 40" 0 3]
  by (simp add: brk_init_def)

end
