(* ===== verification/RateLimiter.thy ===== *)
theory RateLimiter
  imports Complex_Main Effects
begin

text \<open>
  \<open>infrastructure/resilience/rate_limiter.py\<close>: \<open>TokenBucket\<close>.  Floating-point
  numbers are reals; \<open>time.monotonic()\<close> is an argument.  The lock is held while a caller
  sleeps, so acquisitions are serialised: \<open>acquire\<close> at time \<open>now\<close> returns the time
  it slept, and the next acquisition starts no earlier than \<open>now\<close> plus that time.
\<close>

section \<open>The bucket\<close>

record token_bucket =
  capacity :: real
  tokens :: real
  refill_rate :: real
  last_refill :: real

definition TokenBucket :: "nat \<Rightarrow> real \<Rightarrow> token_bucket" where
  "TokenBucket rate_per_min now =
     \<lparr>capacity = real rate_per_min, tokens = real rate_per_min,
      refill_rate = real rate_per_min / 60, last_refill = now\<rparr>"

definition refill :: "real \<Rightarrow> token_bucket \<Rightarrow> token_bucket" where
  "refill now b =
     b\<lparr>tokens := min (capacity b) (tokens b + (now - last_refill b) * refill_rate b),
       last_refill := now\<rparr>"

text \<open>The whole of \<open>acquire\<close>: the time slept, and the bucket afterwards.\<close>

definition acquire :: "real \<Rightarrow> token_bucket \<Rightarrow> (exn + real) \<times> token_bucket" where
  "acquire now b0 =
     (let b = refill now b0
      in if tokens b < 1
         then if refill_rate b = 0
              then (Inl (Exn ZeroDivisionError ''float division by zero''), b)
              else let sleep_for = (1 - tokens b) / refill_rate b
                   in (Inr sleep_for, b\<lparr>tokens := 0\<rparr>)
         else (Inr 0, b\<lparr>tokens := tokens b - 1\<rparr>))"

text \<open>
  A run of acquisitions.  The clock stands at the time the previous caller was let
  through; each entry of the list is the pause before the next caller arrives.
\<close>

fun acquire_run :: "token_bucket \<Rightarrow> real \<Rightarrow> real list \<Rightarrow> token_bucket \<times> real" where
  "acquire_run b clock [] = (b, clock)"
| "acquire_run b clock (pause # pauses) =
     (case acquire (clock + pause) b of
        (Inl e, b') \<Rightarrow> (b', clock + pause)
      | (Inr slept, b') \<Rightarrow> acquire_run b' (clock + pause + slept) pauses)"

section \<open>Invariant\<close>

definition bucket_ok :: "token_bucket \<Rightarrow> bool" where
  "bucket_ok b \<longleftrightarrow> 0 \<le> tokens b \<and> tokens b \<le> capacity b \<and> 1 \<le> capacity b \<and> 0 < refill_rate b"

lemma TokenBucket_ok [simp]: "0 < r \<Longrightarrow> bucket_ok (TokenBucket r now)"
  by (simp add: bucket_ok_def TokenBucket_def)

lemma refill_ok: "bucket_ok b \<Longrightarrow> last_refill b \<le> now \<Longrightarrow> bucket_ok (refill now b)"
  by (auto simp: bucket_ok_def refill_def)

lemma refill_simps [simp]:
  "capacity (refill now b) = capacity b" "refill_rate (refill now b) = refill_rate b"
  "last_refill (refill now b) = now"
  by (simp_all add: refill_def)

lemma acquire_cases:
  assumes "bucket_ok b" and "last_refill b \<le> now"
  obtains (slept) "tokens (refill now b) < 1"
      "acquire now b = (Inr ((1 - tokens (refill now b)) / refill_rate b), (refill now b)\<lparr>tokens := 0\<rparr>)"
  | (taken) "1 \<le> tokens (refill now b)"
      "acquire now b = (Inr 0, (refill now b)\<lparr>tokens := tokens (refill now b) - 1\<rparr>)"
proof (cases "tokens (refill now b) < 1")
  case True
  with assms slept show ?thesis by (simp add: acquire_def Let_def bucket_ok_def)
next
  case False
  with taken show ?thesis by (simp add: acquire_def Let_def)
qed

lemma acquire_ok:
  assumes "bucket_ok b" and "last_refill b \<le> now"
  obtains s b' where "acquire now b = (Inr s, b')" "0 \<le> s" "bucket_ok b'" "last_refill b' = now"
    "capacity b' = capacity b" "refill_rate b' = refill_rate b"
proof -
  note ok = refill_ok [OF assms]
  show ?thesis
    by (cases rule: acquire_cases [OF assms]) (use ok that in \<open>auto simp: bucket_ok_def\<close>)
qed

section \<open>How many callers get through\<close>

text \<open>The tokens the bucket would hold if it were refilled at \<open>clock\<close>, not yet capped.\<close>

definition credit :: "real \<Rightarrow> token_bucket \<Rightarrow> real" where
  "credit clock b = tokens b + (clock - last_refill b) * refill_rate b"

lemma credit_nonneg: "bucket_ok b \<Longrightarrow> last_refill b \<le> clock \<Longrightarrow> 0 \<le> credit clock b"
  by (auto simp: credit_def bucket_ok_def intro!: add_nonneg_nonneg mult_nonneg_nonneg)

text \<open>One caller costs at most one unit of credit plus twice the refill of the time that passed.\<close>

lemma acquire_credit:
  assumes "bucket_ok b" and "last_refill b \<le> clock" and "0 \<le> pause"
    and "acquire (clock + pause) b = (Inr slept, b')"
  shows "1 + credit (clock + pause + slept) b' \<le> credit clock b + 2 * refill_rate b * (pause + slept)"
proof -
  let ?now = "clock + pause"
  have now: "last_refill b \<le> ?now" using assms by simp
  have r: "0 < refill_rate b" and cap: "1 \<le> capacity b" using assms(1) by (auto simp: bucket_ok_def)
  have c: "credit ?now b = credit clock b + pause * refill_rate b"
    by (simp add: credit_def algebra_simps)
  have t: "tokens (refill ?now b) = min (capacity b) (credit ?now b)"
    by (simp add: refill_def credit_def)
  have p: "0 \<le> pause * refill_rate b" using assms(3) r by simp
  show ?thesis
  proof (rule acquire_cases [OF assms(1) now], goal_cases)
    case 1
    with 1 cap t have "tokens (refill ?now b) = credit ?now b" by (simp add: min_def split: if_splits)
    with 1 assms(4) have s: "slept = (1 - credit ?now b) / refill_rate b"
      and b': "b' = (refill ?now b)\<lparr>tokens := 0\<rparr>" by auto
    from s r have sr: "slept * refill_rate b = 1 - credit ?now b" by (simp add: field_simps)
    have "credit (?now + slept) b' = slept * refill_rate b" by (simp add: b' credit_def)
    then have "1 + credit (?now + slept) b' = 1 + slept * refill_rate b" by simp
    also have "\<dots> = credit ?now b + 2 * (slept * refill_rate b)" using sr by simp
    also have "\<dots> \<le> credit clock b + 2 * refill_rate b * (pause + slept)"
      using c p by (simp add: algebra_simps)
    finally show ?thesis .
  next
    case 2
    with assms(4) have s: "slept = 0"
      and b': "b' = (refill ?now b)\<lparr>tokens := tokens (refill ?now b) - 1\<rparr>" by auto
    have "credit (?now + slept) b' = tokens (refill ?now b) - 1" by (simp add: s b' credit_def)
    also have "\<dots> \<le> credit ?now b - 1" using t by simp
    finally show ?thesis using c p s by (simp add: algebra_simps)
  qed
qed

lemma acquire_run_credit:
  assumes "bucket_ok b" and "last_refill b \<le> clock" and "\<forall>p\<in>set pauses. 0 \<le> p"
    and "acquire_run b clock pauses = (b', clock')"
  shows "real (length pauses) + credit clock' b' \<le> credit clock b + 2 * refill_rate b * (clock' - clock)
    \<and> bucket_ok b' \<and> last_refill b' \<le> clock' \<and> clock \<le> clock'"
  using assms
proof (induction pauses arbitrary: b clock)
  case (Cons p ps)
  have now: "last_refill b \<le> clock + p" and p: "0 \<le> p" using Cons.prems by auto
  obtain s b1 where a: "acquire (clock + p) b = (Inr s, b1)" "0 \<le> s" "bucket_ok b1"
      "last_refill b1 = clock + p" "refill_rate b1 = refill_rate b"
    using acquire_ok [OF Cons.prems(1) now] by metis
  from a Cons.prems(4) have run: "acquire_run b1 (clock + p + s) ps = (b', clock')" by simp
  note IH = Cons.IH [OF a(3) _ _ run]
  have "1 + credit (clock + p + s) b1 \<le> credit clock b + 2 * refill_rate b * (p + s)"
    by (rule acquire_credit [OF Cons.prems(1,2) p a(1)])
  moreover have "real (length ps) + credit clock' b' \<le>
      credit (clock + p + s) b1 + 2 * refill_rate b * (clock' - (clock + p + s))"
    and "bucket_ok b'" "last_refill b' \<le> clock'" "clock + p + s \<le> clock'"
    using IH a Cons.prems(3) by auto
  ultimately show ?case using p a(2) by (simp add: algebra_simps)
qed simp

text \<open>
  The bucket never holds a negative number of tokens nor more than its capacity, each
  acquisition records the time it refilled at, sleeps a non-negative time, and never fails
  while the configured rate is positive.
\<close>

theorem acquire_invariant:
  assumes "bucket_ok b" and "last_refill b \<le> now"
  shows "\<exists>slept b'. acquire now b = (Inr slept, b') \<and> 0 \<le> slept \<and> bucket_ok b' \<and>
           last_refill b' = now \<and> capacity b' = capacity b \<and>
           (slept = 0 \<longleftrightarrow> 1 \<le> tokens (refill now b))"
proof (rule acquire_cases [OF assms], goal_cases)
  case 1
  with assms show ?case
    using refill_ok [OF assms] by (auto simp: bucket_ok_def)
next
  case 2
  with assms show ?case
    using refill_ok [OF assms] by (auto simp: bucket_ok_def)
qed

theorem acquire_invariant_witness:
  "bucket_ok (TokenBucket 60 0) \<and>
   (\<exists>slept b'. acquire 1 (TokenBucket 60 0) = (Inr slept, b') \<and> bucket_ok b')"
  using acquire_invariant [of "TokenBucket 60 0" 1] by (auto simp: TokenBucket_def bucket_ok_def)



lemma two_callers_per_period:
  assumes "1 \<le> capacity b" and "0 < refill_rate b" and "tokens b = 0" and "last_refill b = clock"
  shows "acquire_run b clock (replicate (2 * k) 0) =
    (b\<lparr>last_refill := clock + real k / refill_rate b\<rparr>, clock + real k / refill_rate b)"
  using assms
proof (induction k arbitrary: b clock)
  case 0
  then show ?case by (cases b) simp
next
  case (Suc k)
  let ?r = "refill_rate b"
  let ?c = "clock + 1 / ?r"
  have c: "?r \<noteq> 0" "(?c - clock) * ?r = 1" using Suc.prems by auto
  have first: "acquire clock b = (Inr (1 / ?r), b)"
    using Suc.prems by (cases b) (simp add: acquire_def refill_def Let_def)
  have second: "acquire ?c b = (Inr 0, b\<lparr>last_refill := ?c\<rparr>)"
    using Suc.prems c by (cases b) (simp add: acquire_def refill_def Let_def)
  have "acquire_run b clock (replicate (2 * Suc k) 0) =
      acquire_run (b\<lparr>last_refill := ?c\<rparr>) ?c (replicate (2 * k) 0)"
    using first second by simp
  also have "\<dots> = (b\<lparr>last_refill := ?c + real k / ?r\<rparr>, ?c + real k / ?r)"
    using Suc.IH [of "b\<lparr>last_refill := ?c\<rparr>" ?c] Suc.prems by simp
  also have "?c + real k / ?r = clock + real (Suc k) / ?r"
    by (simp add: add_divide_distrib)
  finally show ?case .
qed

lemma acquire_run_append:
  "acquire_run b clock ps = (b', clock') \<Longrightarrow> bucket_ok b \<Longrightarrow> last_refill b \<le> clock \<Longrightarrow>
     \<forall>p\<in>set ps. 0 \<le> p \<Longrightarrow>
     acquire_run b clock (ps @ qs) = acquire_run b' clock' qs"
proof (induction ps arbitrary: b clock)
  case (Cons p ps)
  then have now: "last_refill b \<le> clock + p" by simp
  obtain s b1 where "acquire (clock + p) b = (Inr s, b1)" "0 \<le> s" "bucket_ok b1" "last_refill b1 = clock + p"
    using acquire_ok [OF Cons.prems(2) now] by metis
  with Cons show ?case by simp
qed simp

lemma burst:
  assumes "real k \<le> tokens b" and "tokens b \<le> capacity b" and "last_refill b = clock"
  shows "acquire_run b clock (replicate k 0) = (b\<lparr>tokens := tokens b - real k\<rparr>, clock)"
  using assms
proof (induction k arbitrary: b)
  case (Suc k)
  have "acquire clock b = (Inr 0, b\<lparr>tokens := tokens b - 1\<rparr>)"
    using Suc.prems by (cases b) (simp add: acquire_def refill_def Let_def)
  with Suc.IH [of "b\<lparr>tokens := tokens b - 1\<rparr>"] Suc.prems show ?case
    by (simp add: algebra_simps)
qed simp

text \<open>
  C12: the limit that holds is attained, so it is twice the configured one.  \<open>acquire\<close>
  sets \<open>last\<close> before it sleeps, so the time a caller slept is credited again to the next
  caller: a new bucket of \<open>N\<close> tokens a minute lets the initial burst of \<open>N\<close> and then
  another \<open>2 N\<close> back-to-back callers through within exactly one minute, where
  \<open>N + N\<close> are configured.
\<close>

theorem double_rate:
  assumes "0 < rate_per_min"
  shows "snd (acquire_run (TokenBucket rate_per_min start) start
           (replicate (3 * rate_per_min) 0)) = start + 60"
proof -
  let ?n = "rate_per_min"
  let ?b = "TokenBucket ?n start"
  let ?e = "?b\<lparr>tokens := tokens ?b - real ?n\<rparr>"
  have "replicate (3 * ?n) (0::real) = replicate ?n 0 @ replicate (2 * ?n) 0"
    by (simp flip: replicate_add)
  moreover have "acquire_run ?b start (replicate ?n 0) = (?e, start)"
    by (rule burst) (auto simp: TokenBucket_def)
  moreover have "bucket_ok ?b" "last_refill ?b \<le> start"
    using assms by (auto simp: bucket_ok_def TokenBucket_def)
  moreover have "acquire_run ?e start (replicate (2 * ?n) 0) =
      (?e\<lparr>last_refill := start + real ?n / refill_rate ?e\<rparr>, start + real ?n / refill_rate ?e)"
    using assms by (intro two_callers_per_period) (auto simp: TokenBucket_def)
  ultimately have "snd (acquire_run ?b start (replicate (3 * ?n) 0)) = start + real ?n / refill_rate ?e"
    by (simp add: acquire_run_append del: acquire_run.simps)
  with assms show ?thesis by (simp add: TokenBucket_def)
qed

theorem double_rate_witness:
  "snd (acquire_run (TokenBucket 60 0) 0 (replicate (3 * 60) 0)) = 60"
  using double_rate [of 60 0] by simp

end
