(* ===== verification/HttpClient.thy ===== *)
theory HttpClient
  imports Domain CircuitBreaker RateLimiter
begin

text \<open>
  \<open>infrastructure/http/client.py\<close>: \<open>ResilientHTTPFetcher\<close>.  The state is the
  fetcher's bucket and breaker and a world with a clock.  What is not the program's own is a
  parameter: \<open>http_env\<close> holds the clock, \<open>asyncio.sleep\<close> and the GET of the
  \<open>httpx\<close> client, and \<open>retrying\<close> is tenacity's \<open>retry\<close> decorator.  The
  interface \<open>tenacity\<close> states what the decorator is relied on to do: run the body, and
  when it raises an exception the predicate accepts while fewer attempts than the limit were
  made, wait and run it again; otherwise let the result or the exception through.
\<close>

section \<open>The retry decorator's interface\<close>

type_synonym ('s, 'a) retry_decorator =
  "(real \<Rightarrow> 's \<Rightarrow> 's) \<Rightarrow> nat \<Rightarrow> nat \<Rightarrow> (nat \<Rightarrow> real) \<Rightarrow> (exn \<Rightarrow> bool) \<Rightarrow>
   ('s, 'a) eff \<Rightarrow> ('s, 'a) eff"

locale tenacity =
  fixes retrying :: "('s, 'a) retry_decorator"
  assumes returned: "body s = (Inr x, s') \<Longrightarrow> retrying sl k n wait p body s = (Inr x, s')"
    and gave_up: "body s = (Inl e, s') \<Longrightarrow> \<not> p e \<or> n \<le> k \<Longrightarrow>
      retrying sl k n wait p body s = (Inl e, s')"
    and again: "body s = (Inl e, s') \<Longrightarrow> p e \<Longrightarrow> k < n \<Longrightarrow>
      retrying sl k n wait p body s = retrying sl (Suc k) n wait p body (sl (wait k) s')"
begin

lemma result_of_attempt:
  assumes body: "\<And>s r s'. I s \<Longrightarrow> body s = (r, s') \<Longrightarrow> I s'"
    and sleep: "\<And>d s. I s \<Longrightarrow> I (sl d s)"
  shows "I s \<Longrightarrow> retrying sl k n wait p body s = (r, s') \<Longrightarrow>
    I s' \<and> (\<exists>s1. I s1 \<and> body s1 = (r, s'))"
proof (induction "n - k" arbitrary: k s)
  case 0
  obtain r1 s1 where b: "body s = (r1, s1)" by (metis surj_pair)
  have "retrying sl k n wait p body s = (r1, s1)"
    using 0 b by (cases r1) (auto simp: returned gave_up)
  with 0 b body show ?case by auto
next
  case (Suc m)
  obtain r1 s1 where b: "body s = (r1, s1)" by (metis surj_pair)
  then have I1: "I s1" using Suc.prems(1) body by blast
  show ?case
  proof (cases "\<exists>e. r1 = Inl e \<and> p e")
    case True
    with b Suc.hyps(2) Suc.prems(2)
    have "retrying sl (Suc k) n wait p body (sl (wait k) s1) = (r, s')"
      by (auto simp: again)
    moreover have "m = n - Suc k" using Suc.hyps(2) by simp
    ultimately show ?thesis using Suc.hyps(1) sleep I1 by blast
  next
    case False
    with b have "retrying sl k n wait p body s = (r1, s1)"
      by (cases r1) (auto simp: returned gave_up)
    with Suc.prems b I1 show ?thesis by auto
  qed
qed

lemma attempts_bounded:
  fixes c :: "'s \<Rightarrow> nat"
  assumes body: "\<And>s r s'. body s = (r, s') \<Longrightarrow> c s' \<le> Suc (c s)"
    and sleep: "\<And>d s. c (sl d s) \<le> c s"
  shows "retrying sl k n wait p body s = (r, s') \<Longrightarrow> c s' \<le> c s + Suc (n - k)"
proof (induction "n - k" arbitrary: k s)
  case 0
  obtain r1 s1 where b: "body s = (r1, s1)" by (metis surj_pair)
  have "retrying sl k n wait p body s = (r1, s1)"
    using 0 b by (cases r1) (auto simp: returned gave_up)
  with 0 body [OF b] show ?case by auto
next
  case (Suc m)
  obtain r1 s1 where b: "body s = (r1, s1)" by (metis surj_pair)
  note c1 = body [OF b]
  show ?case
  proof (cases "\<exists>e. r1 = Inl e \<and> p e")
    case True
    with b Suc.hyps(2) Suc.prems
    have "retrying sl (Suc k) n wait p body (sl (wait k) s1) = (r, s')"
      by (auto simp: again)
    moreover have "m = n - Suc k" using Suc.hyps(2) by simp
    ultimately have "c s' \<le> c (sl (wait k) s1) + Suc (n - Suc k)"
      using Suc.hyps(1) by blast
    also have "\<dots> \<le> c s1 + Suc (n - Suc k)" by (simp add: sleep)
    finally show ?thesis using c1 Suc.hyps(2) by simp
  next
    case False
    with b have "retrying sl k n wait p body s = (r1, s1)"
      by (cases r1) (auto simp: returned gave_up)
    with Suc.prems c1 show ?thesis by auto
  qed
qed

end

text \<open>A decorator with this behaviour, for the witnesses.\<close>

function retry_loop :: "('s, 'a) retry_decorator" where
  "retry_loop sl k n wait p body s =
     (case body s of
        (Inr x, s') \<Rightarrow> (Inr x, s')
      | (Inl e, s') \<Rightarrow>
          if p e \<and> k < n then retry_loop sl (Suc k) n wait p body (sl (wait k) s')
          else (Inl e, s'))"
  by pat_completeness auto
termination
  by (relation "measure (\<lambda>(sl, k, n, wait, p, body, s). n - k)") auto

declare retry_loop.simps [simp del]

interpretation retry_loop: tenacity retry_loop
  by unfold_locales (subst retry_loop.simps, auto)+

section \<open>The environment\<close>

record response =
  status_code :: int
  resp_content :: string
  resp_headers :: "(string, string) dict"

record 'w http_env =
  env_now :: "'w \<Rightarrow> real"
  env_sleep :: "real \<Rightarrow> 'w \<Rightarrow> 'w"
  env_get :: "string \<Rightarrow> (string, string) dict option \<Rightarrow> real \<Rightarrow> ('w, response) eff"

record 'w fetcher =
  bucket :: token_bucket
  http_breaker :: breaker
  world :: 'w

text \<open>\<open>ResilientHTTPFetcher.__init__\<close>: the bucket and the breaker of a new fetcher.\<close>

definition new_fetcher :: "nat \<Rightarrow> real \<Rightarrow> 'w \<Rightarrow> 'w fetcher" where
  "new_fetcher rate_per_minute now w =
     \<lparr>bucket = TokenBucket rate_per_minute now,
      http_breaker = AsyncCircuitBreaker ''http-fetcher'' 5 30, world = w\<rparr>"

section \<open>fetch\<close>

text \<open>\<open>int(x)\<close> of a float.\<close>

definition py_int :: "real \<Rightarrow> int" where
  "py_int x = (if 0 \<le> x then \<lfloor>x\<rfloor> else \<lceil>x\<rceil>)"

text \<open>The chain of status tests: the error to raise, if any.\<close>

definition status_error :: "string \<Rightarrow> int \<Rightarrow> exn option" where
  "status_error url code =
     (if code = 429 then Some (Exn RateLimitError (''rate limited: '' @ url))
      else if code \<in> {401, 403} then Some (Exn SourceAuthError (''http '' @ show_int code @ '' '' @ url))
      else if code \<ge> 500 then Some (Exn SourceUnavailableError (''5xx '' @ show_int code @ '' '' @ url))
      else if code \<ge> 400 then Some (Exn PermanentError (''http '' @ show_int code @ '' '' @ url))
      else None)"

text \<open>\<open>self._bucket.acquire()\<close> as an effect: the bucket is charged and the caller sleeps.\<close>

definition acquire_token :: "'w http_env \<Rightarrow> ('w fetcher, unit) eff" where
  "acquire_token env f =
     (case acquire (env_now env (world f)) (bucket f) of
        (Inl e, b) \<Rightarrow> (Inl e, f\<lparr>bucket := b\<rparr>)
      | (Inr slept, b) \<Rightarrow>
          (Inr (), f\<lparr>bucket := b, world := (if slept > 0 then env_sleep env slept (world f) else world f)\<rparr>))"

text \<open>\<open>self._breaker.call(self._client.get, ...)\<close> with the \<open>except httpx.TransportError\<close>.\<close>

definition guarded_get ::
  "'w http_env \<Rightarrow> string \<Rightarrow> (string, string) dict option \<Rightarrow> real \<Rightarrow> ('w fetcher, response) eff" where
  "guarded_get env url headers timeout f =
     (case breaker_call (env_now env) (env_get env url headers timeout) (http_breaker f, world f) of
        (Inl e, (b, w)) \<Rightarrow>
          (Inl (if isinstance e TransportError then Exn SourceUnavailableError (exn_str e) else e),
           f\<lparr>http_breaker := b, world := w\<rparr>)
      | (Inr r, (b, w)) \<Rightarrow> (Inr r, f\<lparr>http_breaker := b, world := w\<rparr>))"

text \<open>The body of \<open>fetch\<close>: one attempt.\<close>

definition fetch_once ::
  "'w http_env \<Rightarrow> string \<Rightarrow> (string, string) dict option \<Rightarrow> real \<Rightarrow> ('w fetcher, fetch_result) eff" where
  "fetch_once env url headers timeout =
     bindE (acquire_token env) (\<lambda>_ f.
       let start = env_now env (world f)
       in bindE (guarded_get env url headers timeout) (\<lambda>resp f'.
            let elapsed = py_int ((env_now env (world f') - start) * 1000)
            in case status_error url (status_code resp) of
                 Some e \<Rightarrow> (Inl e, f')
               | None \<Rightarrow>
                   (Inr \<lparr>res_url = url, res_status_code = status_code resp,
                         res_body = resp_content resp, res_headers = resp_headers resp,
                         res_elapsed_ms = elapsed\<rparr>, f')) f)"

text \<open>The arguments of \<open>@retry\<close>.\<close>

definition fetch_attempts :: nat where
  "fetch_attempts = 4"

definition wait_exponential :: "nat \<Rightarrow> real" where
  "wait_exponential attempt = min 8 (1/2 * 2 ^ (attempt - 1))"

definition fetch_retryable :: "exn \<Rightarrow> bool" where
  "fetch_retryable e \<longleftrightarrow>
     isinstance e SourceUnavailableError \<or> isinstance e RateLimitError \<or> isinstance e TransportError"

abbreviation fetcher_sleep :: "'w http_env \<Rightarrow> real \<Rightarrow> 'w fetcher \<Rightarrow> 'w fetcher" where
  "fetcher_sleep env d f \<equiv> f\<lparr>world := env_sleep env d (world f)\<rparr>"

definition fetch ::
  "('w fetcher, fetch_result) retry_decorator \<Rightarrow> 'w http_env \<Rightarrow>
   string \<Rightarrow> (string, string) dict option \<Rightarrow> real \<Rightarrow> ('w fetcher, fetch_result) eff" where
  "fetch retrying env url headers timeout =
     retrying (fetcher_sleep env) 1 fetch_attempts wait_exponential
       fetch_retryable (fetch_once env url headers timeout)"

section \<open>One attempt\<close>

text \<open>
  What the environment is relied on to do: the clock never goes back, and the HTTP client
  raises transport errors only.
\<close>

definition http_env_ok :: "'w http_env \<Rightarrow> bool" where
  "http_env_ok env \<longleftrightarrow>
     (\<forall>d w. env_now env w \<le> env_now env (env_sleep env d w)) \<and>
     (\<forall>u h t w. env_now env w \<le> env_now env (snd (env_get env u h t w))) \<and>
     (\<forall>u h t w e. fst (env_get env u h t w) = Inl e \<longrightarrow> exc e = TransportError)"

definition fetcher_ok :: "'w http_env \<Rightarrow> 'w fetcher \<Rightarrow> bool" where
  "fetcher_ok env f \<longleftrightarrow>
     bucket_ok (bucket f) \<and> last_refill (bucket f) \<le> env_now env (world f) \<and> breaker_ok (http_breaker f)"

lemma fetcher_ok_new: "0 < rate \<Longrightarrow> now \<le> env_now env w \<Longrightarrow> fetcher_ok env (new_fetcher rate now w)"
  by (simp add: fetcher_ok_def new_fetcher_def AsyncCircuitBreaker_ok TokenBucket_def bucket_ok_def)

lemma fetcher_ok_sleep:
  "http_env_ok env \<Longrightarrow> fetcher_ok env f \<Longrightarrow> fetcher_ok env (f\<lparr>world := env_sleep env d (world f)\<rparr>)"
  by (auto simp: fetcher_ok_def http_env_ok_def intro: order_trans)

lemma acquire_token_ok:
  assumes "http_env_ok env" and "fetcher_ok env f"
  obtains f' where "acquire_token env f = (Inr (), f')" "fetcher_ok env f'"
    "http_breaker f' = http_breaker f"
    "world f' = world f \<or> (\<exists>d. world f' = env_sleep env d (world f))"
proof -
  let ?now = "env_now env (world f)"
  from assms(2) have b: "bucket_ok (bucket f)" "last_refill (bucket f) \<le> ?now"
    by (auto simp: fetcher_ok_def)
  obtain s b' where a: "acquire ?now (bucket f) = (Inr s, b')" "bucket_ok b'" "last_refill b' = ?now"
    using acquire_ok [OF b] by metis
  let ?w = "if s > 0 then env_sleep env s (world f) else world f"
  have "acquire_token env f = (Inr (), f\<lparr>bucket := b', world := ?w\<rparr>)"
    by (simp add: acquire_token_def a)
  moreover have "fetcher_ok env (f\<lparr>bucket := b', world := ?w\<rparr>)"
    using assms a by (simp add: fetcher_ok_def http_env_ok_def)
  ultimately show ?thesis by (rule that) auto
qed

lemma guarded_get_ok:
  assumes "http_env_ok env" and "fetcher_ok env f" and "guarded_get env url h t f = (r, f')"
  shows "fetcher_ok env f' \<and> (\<forall>e. r = Inl e \<longrightarrow> exc e \<in> {SourceUnavailableError, TransientError})"
proof -
  obtain a b w where c: "breaker_call (env_now env) (env_get env url h t) (http_breaker f, world f) = (a, (b, w))"
    by (metis surj_pair)
  note ok = assms(2) [unfolded fetcher_ok_def]
  obtain a0 b0 where adm: "before_call (env_now env (world f)) (http_breaker f) = (a0, b0)"
    by (metis surj_pair)
  have e0: "exc e = TransientError" if "a0 = Inl e" for e
    using before_call_ok [OF _ adm] ok that by (auto simp: circuit_open_error_def)
  obtain g wg where g: "env_get env url h t (world f) = (g, wg)" by (metis surj_pair)
  have mono: "env_now env (world f) \<le> env_now env wg"
    and transport: "\<And>e. g = Inl e \<Longrightarrow> exc e = TransportError"
    using assms(1) g by (metis http_env_ok_def snd_conv, metis http_env_ok_def fst_conv)
  have "breaker_ok b" using breaker_call_ok [OF _ c] ok by blast
  moreover have "w = world f \<or> w = wg"
    using c adm g by (auto simp: breaker_call_def split: sum.splits)
  ultimately have "fetcher_ok env (f\<lparr>http_breaker := b, world := w\<rparr>)"
    using ok mono by (auto simp: fetcher_ok_def)
  moreover have "exc e = TransientError \<or> exc e = TransportError" if "a = Inl e" for e
    using c adm g e0 transport that by (auto simp: breaker_call_def split: sum.splits)
  ultimately show ?thesis
    using assms(3) c by (auto simp: guarded_get_def is_subclass_None is_subclass_Some split: sum.splits)
qed

lemma status_error_None: "status_error url code = None \<longleftrightarrow> code < 400"
  by (auto simp: status_error_def)

lemma status_error_class:
  "status_error url code = Some e \<Longrightarrow>
     exc e \<in> {RateLimitError, SourceAuthError, SourceUnavailableError, PermanentError}"
  by (auto simp: status_error_def split: if_splits)

lemmas fetch_error_classes = is_subclass_None is_subclass_Some

lemma fetch_once_ok:
  assumes "http_env_ok env" and "fetcher_ok env f" and "fetch_once env url h t f = (r, f')"
  shows "fetcher_ok env f' \<and> (\<forall>e. r = Inl e \<longrightarrow> isinstance e TVListBaseError) \<and>
         (\<forall>x. r = Inr x \<longrightarrow> res_status_code x < 400 \<and> res_url x = url)"
proof -
  obtain f1 where a: "acquire_token env f = (Inr (), f1)" "fetcher_ok env f1"
    using acquire_token_ok [OF assms(1,2)] by metis
  obtain g f2 where g: "guarded_get env url h t f1 = (g, f2)" by (metis surj_pair)
  note gok = guarded_get_ok [OF assms(1) a(2) g]
  show ?thesis
  proof (cases g)
    case (Inl e)
    with assms(3) a g have "r = Inl e" "f' = f2"
      by (simp_all add: fetch_once_def bindE_def)
    with Inl gok show ?thesis by (auto simp: fetch_error_classes)
  next
    case (Inr resp)
    with assms(3) a g gok show ?thesis
      by (auto simp: fetch_once_def bindE_def Let_def status_error_None fetch_error_classes
          dest!: status_error_class split: option.splits)
  qed
qed

section \<open>Properties\<close>

text \<open>A scripted environment for the witnesses: a clock, a request counter, one answer.\<close>

definition scripted_env :: "(exn + response) \<Rightarrow> (real \<times> nat) http_env" where
  "scripted_env answer =
     \<lparr>env_now = fst, env_sleep = (\<lambda>d (t, n). (t + max 0 d, n)),
      env_get = (\<lambda>u h to (t, n). (answer, (t + 1, Suc n)))\<rparr>"

definition response_of :: "int \<Rightarrow> response" where
  "response_of code = \<lparr>status_code = code, resp_content = ''body'', resp_headers = []\<rparr>"

lemma scripted_env_ok: "(\<forall>e. answer = Inl e \<longrightarrow> exc e = TransportError) \<Longrightarrow> http_env_ok (scripted_env answer)"
  by (auto simp: http_env_ok_def scripted_env_def)





text \<open>
  An open breaker stops the traffic.  While the breaker is open and its timeout has not
  passed, \<open>fetch\<close> raises the breaker's \<open>TransientError\<close> at the first attempt, without
  a request, a sleep or a retry: the world is untouched.
\<close>

theorem fetch_open_breaker:
  assumes "tenacity retrying"
    and "1 \<le> tokens (refill (env_now env (world f)) (bucket f))"
    and "brk_state (http_breaker f) = OPEN" and "opened_at (http_breaker f) = Some t"
    and "env_now env (world f) - t < reset_timeout (http_breaker f)"
  shows "fst (fetch retrying env url headers timeout f) = Inl (circuit_open_error (http_breaker f)) \<and>
         world (snd (fetch retrying env url headers timeout f)) = world f \<and>
         http_breaker (snd (fetch retrying env url headers timeout f)) = http_breaker f"
proof -
  let ?e = "circuit_open_error (http_breaker f)"
  let ?b = "snd (acquire (env_now env (world f)) (bucket f))"
  have "acquire_token env f = (Inr (), f\<lparr>bucket := ?b\<rparr>)"
    using assms(2) by (simp add: acquire_token_def acquire_def Let_def)
  moreover have "breaker_call (env_now env) (env_get env url headers timeout) (http_breaker f, world f) =
      (Inl ?e, (http_breaker f, world f))"
    by (rule breaker_call_refused [where clock = "env_now env" and w = "world f", OF assms(3) assms(4) assms(5)])
  then have "guarded_get env url headers timeout (f\<lparr>bucket := ?b\<rparr>) = (Inl ?e, f\<lparr>bucket := ?b\<rparr>)"
    by (simp add: guarded_get_def circuit_open_error_def fetch_error_classes)
  ultimately have "fetch_once env url headers timeout f = (Inl ?e, f\<lparr>bucket := ?b\<rparr>)"
    by (simp add: fetch_once_def bindE_def)
  moreover have "\<not> fetch_retryable ?e"
    by (simp add: fetch_retryable_def circuit_open_error_def fetch_error_classes)
  ultimately have "fetch retrying env url headers timeout f = (Inl ?e, f\<lparr>bucket := ?b\<rparr>)"
    unfolding fetch_def by (intro tenacity.gave_up [OF assms(1)]) auto
  then show ?thesis by simp
qed

theorem fetch_open_breaker_witness:
  "fst (fetch retry_loop (scripted_env (Inr (response_of 200))) ''http://x'' None 10
     ((new_fetcher 60 0 (5, 0))\<lparr>http_breaker := (AsyncCircuitBreaker ''http-fetcher'' 5 30)
        \<lparr>brk_state := OPEN, opened_at := Some 0\<rparr>\<rparr>))
   = Inl (Exn TransientError (''circuit '' @ CHR 0x27 # ''http-fetcher'' @ CHR 0x27 # '' is open''))"
  using fetch_open_breaker [OF retry_loop.tenacity_axioms,
      of "scripted_env (Inr (response_of 200))"
         "(new_fetcher 60 0 (5, 0))\<lparr>http_breaker := (AsyncCircuitBreaker ''http-fetcher'' 5 30)
            \<lparr>brk_state := OPEN, opened_at := Some 0\<rparr>\<rparr>" 0 "''http://x''" None 10]
  by (simp add: scripted_env_def new_fetcher_def TokenBucket_def refill_def AsyncCircuitBreaker_def
      circuit_open_error_def)

text \<open>
  The breaker counts transport errors only.  A source that answers every request with a
  status of 500 or above makes \<open>fetch\<close> fail with \<open>SourceUnavailableError\<close>, retries
  included, and leaves the breaker closed with a failure count of zero: server errors never
  open it.
\<close>

theorem server_errors_never_trip:
  assumes "tenacity retrying" and "http_env_ok env" and "fetcher_ok env f"
    and "brk_state (http_breaker f) \<noteq> OPEN"
    and "\<And>w. \<exists>w'. env_get env url headers timeout w = (Inr resp, w')" and "500 \<le> status_code resp"
    and "fetch retrying env url headers timeout f = (r, f')"
  shows "(\<exists>e. r = Inl e \<and> exc e = SourceUnavailableError) \<and>
         brk_state (http_breaker f') = CLOSED \<and> fail_count (http_breaker f') = 0"
proof -
  define I where "I g \<longleftrightarrow> fetcher_ok env g \<and> brk_state (http_breaker g) \<noteq> OPEN" for g
  have once: "(\<exists>e. a = Inl e \<and> exc e = SourceUnavailableError) \<and>
      brk_state (http_breaker g') = CLOSED \<and> fail_count (http_breaker g') = 0 \<and> I g'"
    if g: "I g" "fetch_once env url headers timeout g = (a, g')" for g a g'
  proof -
    obtain g1 where g1: "acquire_token env g = (Inr (), g1)" "fetcher_ok env g1" "http_breaker g1 = http_breaker g"
      using acquire_token_ok [OF assms(2)] g(1) I_def by metis
    obtain w' where w': "env_get env url headers timeout (world g1) = (Inr resp, w')" using assms(5) by blast
    have adm: "before_call (env_now env (world g1)) (http_breaker g1) = (Inr (), http_breaker g1)"
      using g(1) g1(3) by (simp add: I_def before_call_def)
    let ?g2 = "g1\<lparr>http_breaker := on_success (http_breaker g1), world := w'\<rparr>"
    have get: "guarded_get env url headers timeout g1 = (Inr resp, ?g2)"
      by (simp add: guarded_get_def breaker_call_def adm w')
    obtain e where e: "status_error url (status_code resp) = Some e" "exc e = SourceUnavailableError"
      using assms(6) by (auto simp: status_error_def)
    have "(a, g') = (Inl e, ?g2)"
      using g(2) by (simp add: fetch_once_def bindE_def g1(1) get e(1))
    moreover have "breaker_ok (http_breaker g1)" using g1(2) by (simp add: fetcher_ok_def)
    then have "brk_state (on_success (http_breaker g1)) = CLOSED"
      using on_success_ok g(1) g1(3) by (simp add: I_def)
    moreover have "fetcher_ok env ?g2" using guarded_get_ok [OF assms(2) g1(2) get] by simp
    ultimately show ?thesis using e(2) by (simp add: I_def on_success_def)
  qed
  have "I f' \<and> (\<exists>f1. I f1 \<and> fetch_once env url headers timeout f1 = (r, f'))"
  proof (rule tenacity.result_of_attempt [where I = I and sl = "fetcher_sleep env"
        and body = "fetch_once env url headers timeout",
        OF assms(1) _ _ _ assms(7) [unfolded fetch_def]])
    show "I g'" if "I g" "fetch_once env url headers timeout g = (a, g')" for g a g'
      using once [OF that] by blast
    show "I (fetcher_sleep env d g)" if "I g" for d g
      using fetcher_ok_sleep [OF assms(2)] that by (simp add: I_def)
    show "I f" using assms(3,4) by (simp add: I_def)
  qed
  with once show ?thesis by blast
qed

theorem server_errors_never_trip_witness:
  "brk_state (http_breaker (snd (fetch retry_loop (scripted_env (Inr (response_of 500))) ''http://x'' None 10
     (new_fetcher 60 0 (0, 0))))) = CLOSED"
proof -
  let ?env = "scripted_env (Inr (response_of 500))"
  have env: "http_env_ok ?env" by (rule scripted_env_ok) simp
  have f: "fetcher_ok ?env (new_fetcher 60 0 (0, 0))"
    by (rule fetcher_ok_new) (simp_all add: scripted_env_def)
  have closed: "brk_state (http_breaker (new_fetcher 60 0 (0 :: real, 0 :: nat))) \<noteq> OPEN"
    by (simp add: new_fetcher_def AsyncCircuitBreaker_def)
  have get: "\<exists>w'. env_get ?env ''http://x'' None 10 w = (Inr (response_of 500), w')" for w
    by (cases w) (simp add: scripted_env_def)
  have code: "500 \<le> status_code (response_of 500)" by (simp add: response_of_def)
  show ?thesis
    using server_errors_never_trip [OF retry_loop.tenacity_axioms env f closed get code]
    by (metis surj_pair snd_conv)
qed

end
