(* ===== verification/Session.thy ===== *)
theory Session
  imports Domain
begin

text \<open>
  The SQLAlchemy session the repositories of \<open>infrastructure/persistence\<close> are written
  against.  It is third-party code, so it is a parameter: \<open>session_api\<close> holds the calls
  the repositories make on it and the locale \<open>sql_session\<close> states what they rely on.
  A session remembers pending changes, flushes them before a query, and raises
  \<open>IntegrityError\<close> when a flush would break a key.  \<open>view\<close> is what the session would
  see after a flush: the set of rows of the table, or \<open>None\<close> when the pending changes
  cannot be flushed.  \<open>store\<close> is what a column keeps of a value (SQLite's \<open>DateTime\<close>
  drops the UTC offset).  The in-memory session \<open>mem_session\<close> satisfies the interface and
  runs the witnesses.
\<close>

section \<open>Statements\<close>

text \<open>A \<open>select\<close> statement: its where clause, an ascending sort key and a limit.\<close>

record 'r query =
  where_clause :: "'r \<Rightarrow> bool"
  order_key :: "('r \<Rightarrow> int) option"
  row_limit :: "nat option"

definition select_all :: "'r query" where
  "select_all = \<lparr>where_clause = (\<lambda>_. True), order_key = None, row_limit = None\<rparr>"

definition q_where :: "('r \<Rightarrow> bool) \<Rightarrow> 'r query \<Rightarrow> 'r query" where
  "q_where P q = q\<lparr>where_clause := (\<lambda>r. where_clause q r \<and> P r)\<rparr>"

definition q_order_by :: "('r \<Rightarrow> int) \<Rightarrow> 'r query \<Rightarrow> 'r query" where
  "q_order_by k q = q\<lparr>order_key := Some k\<rparr>"

definition q_limit :: "nat \<Rightarrow> 'r query \<Rightarrow> 'r query" where
  "q_limit n q = q\<lparr>row_limit := Some n\<rparr>"

lemma query_simps [simp]:
  "where_clause select_all r" "order_key select_all = None" "row_limit select_all = None"
  "where_clause (q_where P q) r \<longleftrightarrow> where_clause q r \<and> P r"
  "order_key (q_where P q) = order_key q" "row_limit (q_where P q) = row_limit q"
  "where_clause (q_order_by k q) = where_clause q" "order_key (q_order_by k q) = Some k"
  "row_limit (q_order_by k q) = row_limit q"
  "where_clause (q_limit n q) = where_clause q" "order_key (q_limit n q) = order_key q"
  "row_limit (q_limit n q) = Some n"
  by (simp_all add: select_all_def q_where_def q_order_by_def q_limit_def)

text \<open>\<open>xs\<close> is an answer to \<open>q\<close> on the table \<open>S\<close>; the order of ties is the database's.\<close>

definition answers :: "'r query \<Rightarrow> 'r set \<Rightarrow> 'r list \<Rightarrow> bool" where
  "answers q S xs \<longleftrightarrow>
     (\<exists>ys. distinct ys \<and> set ys = {r \<in> S. where_clause q r} \<and>
        (case order_key q of None \<Rightarrow> True | Some k \<Rightarrow> sorted (map k ys)) \<and>
        xs = (case row_limit q of None \<Rightarrow> ys | Some n \<Rightarrow> take n ys))"

lemma answers_unlimited:
  "row_limit q = None \<Longrightarrow> answers q S xs \<Longrightarrow> set xs = {r \<in> S. where_clause q r} \<and> distinct xs"
  by (auto simp: answers_def)

section \<open>The calls on a session\<close>

record ('s, 'r) session_api =
  exec_select :: "'r query \<Rightarrow> ('s, 'r list) eff"
  get_row :: "string \<Rightarrow> ('s, 'r option) eff"
  add_row :: "'r \<Rightarrow> 's \<Rightarrow> 's"
  set_row :: "'r \<Rightarrow> 's \<Rightarrow> 's"
  delete_row :: "string \<Rightarrow> 's \<Rightarrow> 's"
  flush :: "('s, unit) eff"

text \<open>\<open>Result.scalar_one_or_none()\<close>.\<close>

fun scalar_one_or_none :: "'r list \<Rightarrow> exn + 'r option" where
  "scalar_one_or_none [] = Inr None"
| "scalar_one_or_none [r] = Inr (Some r)"
| "scalar_one_or_none _ = Inl (Exn MultipleResultsFound ''multiple rows were found'')"

text \<open>
  A table: \<open>pk\<close> is its primary key, \<open>clash\<close> says that two rows cannot both be in it
  (equal primary keys or equal unique columns).
\<close>

locale sql_table =
  fixes pk :: "'r \<Rightarrow> string" and clash :: "'r \<Rightarrow> 'r \<Rightarrow> bool" and store :: "'r \<Rightarrow> 'r"
  assumes pk_clash: "pk r = pk r' \<Longrightarrow> clash r r'"
    and clash_sym: "clash r r' \<Longrightarrow> clash r' r"
    and store_clash [simp]: "clash (store r) r' \<longleftrightarrow> clash r r'"
    and store_pk [simp]: "pk (store r) = pk r"
    and store_store [simp]: "store (store r) = store r"
begin

definition table_ok :: "'r set \<Rightarrow> bool" where
  "table_ok S \<longleftrightarrow> (\<forall>r \<in> S. store r = r) \<and> (\<forall>r \<in> S. \<forall>r' \<in> S. clash r r' \<longrightarrow> r = r')"

lemma store_clash2 [simp]: "clash r (store r') \<longleftrightarrow> clash r r'"
  by (meson clash_sym store_clash)

lemma table_ok_pk: "table_ok S \<Longrightarrow> r \<in> S \<Longrightarrow> r' \<in> S \<Longrightarrow> pk r = pk r' \<Longrightarrow> r = r'"
  by (simp add: table_ok_def pk_clash)

lemma table_ok_insert:
  assumes "table_ok S" "\<And>r'. r' \<in> S \<Longrightarrow> \<not> clash r r'"
  shows "table_ok (insert (store r) S)"
proof -
  have "\<not> clash r' r" if "r' \<in> S" for r' using assms(2) [OF that] clash_sym by blast
  with assms show ?thesis by (auto simp: table_ok_def)
qed

lemma table_ok_subset: "table_ok S \<Longrightarrow> T \<subseteq> S \<Longrightarrow> table_ok T"
  by (auto simp: table_ok_def)

end

locale sql_session = sql_table pk clash store
  for pk :: "'r \<Rightarrow> string" and clash :: "'r \<Rightarrow> 'r \<Rightarrow> bool" and store :: "'r \<Rightarrow> 'r" +
  fixes api :: "('s, 'r) session_api" and view :: "'s \<Rightarrow> 'r set option"
  assumes view_ok: "view s = Some S \<Longrightarrow> finite S \<and> table_ok S"
    and select: "view s = Some S \<Longrightarrow>
      \<exists>xs s'. exec_select api q s = (Inr xs, s') \<and> view s' = Some S \<and> answers q S (map store xs)"
    and get: "view s = Some S \<Longrightarrow>
      \<exists>x s'. get_row api k s = (Inr x, s') \<and> view s' = Some S \<and>
        (case x of None \<Rightarrow> \<forall>r \<in> S. pk r \<noteq> k | Some r \<Rightarrow> store r \<in> S \<and> pk r = k)"
    and add: "view s = Some S \<Longrightarrow>
      view (add_row api r s) = (if \<exists>r' \<in> S. clash r r' then None else Some (insert (store r) S))"
    and assign: "view s = Some S \<Longrightarrow> r0 \<in> S \<Longrightarrow> pk r = pk r0 \<Longrightarrow> (\<And>r'. clash r r' = clash r0 r') \<Longrightarrow>
      view (set_row api r s) = Some (insert (store r) (S - {r0}))"
    and remove: "view s = Some S \<Longrightarrow> view (delete_row api k s) = Some {r \<in> S. pk r \<noteq> k}"
    and flush_ok: "view s = Some S \<Longrightarrow> \<exists>s'. flush api s = (Inr (), s') \<and> view s' = Some S"
    and conflict: "view s = Some S \<Longrightarrow> r' \<in> S \<Longrightarrow> clash r r' \<Longrightarrow>
      \<exists>e s'. flush api (add_row api r s) = (Inl e, s') \<and> exc e = IntegrityError \<and> view s' = None"
begin

lemma select_where:
  assumes "view s = Some S" "row_limit q = None"
  obtains xs s' where "exec_select api q s = (Inr xs, s')" "view s' = Some S"
    "store ` set xs = {r \<in> S. where_clause q r}" "distinct (map store xs)"
  using select [OF assms(1), of q] answers_unlimited [OF assms(2)] by fastforce

lemma delete:
  assumes "view s = Some S"
  shows "\<exists>s'. flush api (delete_row api k s) = (Inr (), s') \<and> view s' = Some {r \<in> S. pk r \<noteq> k}"
  by (rule flush_ok) (rule remove [OF assms])

text \<open>A query on a unique column finds at most one row.\<close>

lemma select_one:
  assumes "view s = Some S" "row_limit q = None"
    and "\<And>r r'. r \<in> S \<Longrightarrow> r' \<in> S \<Longrightarrow> where_clause q r \<Longrightarrow> where_clause q r' \<Longrightarrow> r = r'"
  obtains x xs s' where "exec_select api q s = (Inr xs, s')" "view s' = Some S"
    "scalar_one_or_none xs = Inr x"
    "case x of None \<Rightarrow> \<forall>r \<in> S. \<not> where_clause q r | Some r \<Rightarrow> store r \<in> S \<and> where_clause q (store r)"
proof -
  obtain xs s' where xs: "exec_select api q s = (Inr xs, s')" "view s' = Some S"
      "store ` set xs = {r \<in> S. where_clause q r}" "distinct (map store xs)"
    using select_where [OF assms(1,2)] by blast
  show thesis
  proof (cases xs)
    case Nil
    with xs that [of xs s' None] show thesis by auto
  next
    case (Cons r rs)
    have "rs = []"
    proof (cases rs)
      case (Cons r' rs')
      have "store r \<in> S" "where_clause q (store r)" "store r' \<in> S" "where_clause q (store r')"
        using xs(3) Cons \<open>xs = r # rs\<close> by auto
      then have "store r = store r'" using assms(3) by blast
      with xs(4) Cons \<open>xs = r # rs\<close> show ?thesis by simp
    qed simp
    with xs Cons that [of xs s' "Some r"] show thesis by auto
  qed
qed

end

section \<open>A table as a map\<close>

text \<open>The rows of a table by a key that identifies them.\<close>

definition keyed :: "('r \<Rightarrow> 'k) \<Rightarrow> ('r \<Rightarrow> 'v) \<Rightarrow> 'r set \<Rightarrow> 'k \<rightharpoonup> 'v" where
  "keyed key f S k =
     (let R = {r \<in> S. key r = k} in if R = {} then None else Some (f (the_elem R)))"

lemma keyed_None: "keyed key f S k = None \<longleftrightarrow> (\<forall>r \<in> S. key r \<noteq> k)"
  by (auto simp: keyed_def Let_def)

lemma keyed_empty [simp]: "keyed key f {} = Map.empty"
  by (simp add: keyed_def fun_eq_iff)

lemma keyed_at: "inj_on key S \<Longrightarrow> r \<in> S \<Longrightarrow> keyed key f S (key r) = Some (f r)"
proof -
  assume a: "inj_on key S" "r \<in> S"
  then have "{r' \<in> S. key r' = key r} = {r}" by (auto dest: inj_onD)
  then show ?thesis by (simp add: keyed_def)
qed

lemma keyed_SomeE:
  assumes "keyed key f S k = Some v" "inj_on key S"
  obtains r where "r \<in> S" "key r = k" "f r = v"
proof -
  from assms(1) obtain r where "r \<in> S" "key r = k" by (metis keyed_None option.distinct(1))
  with keyed_at [OF assms(2), of r f] assms(1) that [of r] show thesis by simp
qed

lemma keyed_insert:
  assumes "inj_on key S" "\<forall>r' \<in> S. key r' \<noteq> key r"
  shows "keyed key f (insert r S) = (keyed key f S)(key r \<mapsto> f r)"
proof
  fix k
  show "keyed key f (insert r S) k = ((keyed key f S)(key r \<mapsto> f r)) k"
  proof (cases "k = key r")
    case True
    with assms(2) have "{r' \<in> insert r S. key r' = k} = {r}" by auto
    with True show ?thesis by (simp add: keyed_def)
  next
    case False
    then have "{r' \<in> insert r S. key r' = k} = {r' \<in> S. key r' = k}" by auto
    with False show ?thesis by (simp add: keyed_def)
  qed
qed

lemma keyed_replace:
  assumes "inj_on key S" "r0 \<in> S" "key r = key r0"
  shows "keyed key f (insert r (S - {r0})) = (keyed key f S)(key r0 \<mapsto> f r)"
proof -
  have "keyed key f S = (keyed key f (S - {r0}))(key r0 \<mapsto> f r0)"
    using keyed_insert [of key "S - {r0}" r0 f] assms by (auto simp: insert_absorb inj_on_def)
  moreover have "keyed key f (insert r (S - {r0})) = (keyed key f (S - {r0}))(key r \<mapsto> f r)"
    by (rule keyed_insert) (use assms in \<open>auto simp: inj_on_def\<close>)
  ultimately show ?thesis using assms(3) by simp
qed

lemma ran_keyed:
  assumes "inj_on key S"
  shows "ran (keyed key f S) = f ` S"
proof -
  have "v \<in> f ` S" if "keyed key f S k = Some v" for k v
    using keyed_SomeE [OF that assms] by auto
  moreover have "f r \<in> ran (keyed key f S)" if "r \<in> S" for r
    using keyed_at [OF assms that] by (rule ranI)
  ultimately show ?thesis by (auto simp: ran_def)
qed

section \<open>An in-memory session\<close>

text \<open>
  The session is the list of its rows, \<open>None\<close> once a change has been added that cannot be
  flushed.
\<close>

definition mem_ok :: "('r \<Rightarrow> 'r \<Rightarrow> bool) \<Rightarrow> ('r \<Rightarrow> 'r) \<Rightarrow> 'r list \<Rightarrow> bool" where
  "mem_ok clash store rs \<longleftrightarrow> distinct rs \<and> list_all (\<lambda>r. store r = r) rs \<and>
     list_all (\<lambda>r. list_all (\<lambda>r'. clash r r' \<longrightarrow> r = r') rs) rs"

definition mem_rows :: "('r \<Rightarrow> 'r \<Rightarrow> bool) \<Rightarrow> ('r \<Rightarrow> 'r) \<Rightarrow> 'r list option \<Rightarrow> 'r list option" where
  "mem_rows clash store s =
     (case s of None \<Rightarrow> None | Some rs \<Rightarrow> if mem_ok clash store rs then Some rs else None)"

definition mem_view :: "('r \<Rightarrow> 'r \<Rightarrow> bool) \<Rightarrow> ('r \<Rightarrow> 'r) \<Rightarrow> 'r list option \<Rightarrow> 'r set option" where
  "mem_view clash store s = map_option set (mem_rows clash store s)"

definition run_query :: "'r query \<Rightarrow> 'r list \<Rightarrow> 'r list" where
  "run_query q rs =
     (let ys = filter (where_clause q) rs;
          zs = (case order_key q of None \<Rightarrow> ys | Some k \<Rightarrow> sort_key k ys)
      in case row_limit q of None \<Rightarrow> zs | Some n \<Rightarrow> take n zs)"

definition mem_flush :: "('r \<Rightarrow> 'r \<Rightarrow> bool) \<Rightarrow> ('r \<Rightarrow> 'r) \<Rightarrow> ('r list option, 'r list) eff" where
  "mem_flush clash store s =
     (case mem_rows clash store s of
        None \<Rightarrow> (Inl (Exn IntegrityError ''UNIQUE constraint failed''), s)
      | Some rs \<Rightarrow> (Inr rs, s))"

definition mem_session ::
  "('r \<Rightarrow> string) \<Rightarrow> ('r \<Rightarrow> 'r \<Rightarrow> bool) \<Rightarrow> ('r \<Rightarrow> 'r) \<Rightarrow> ('r list option, 'r) session_api" where
  "mem_session pk clash store =
     \<lparr>exec_select = (\<lambda>q. bindE (mem_flush clash store) (\<lambda>rs. ret (run_query q rs))),
      get_row = (\<lambda>k. bindE (mem_flush clash store) (\<lambda>rs. ret (find (\<lambda>r. pk r = k) rs))),
      add_row = (\<lambda>r s. case mem_rows clash store s of None \<Rightarrow> None
        | Some rs \<Rightarrow> if list_ex (clash r) rs then None else Some (rs @ [store r])),
      set_row = (\<lambda>r. map_option (map (\<lambda>r'. if pk r' = pk r then store r else r'))),
      delete_row = (\<lambda>k. map_option (filter (\<lambda>r. pk r \<noteq> k))),
      flush = bindE (mem_flush clash store) (\<lambda>_. ret ())\<rparr>"

lemma answers_run_query: "distinct rs \<Longrightarrow> answers q (set rs) (run_query q rs)"
  unfolding answers_def
  by (rule exI [of _ "case order_key q of None \<Rightarrow> filter (where_clause q) rs
        | Some k \<Rightarrow> sort_key k (filter (where_clause q) rs)"])
    (auto simp: run_query_def Let_def split: option.splits)

lemma mem_view_eq_Some:
  "mem_view clash store s = Some S \<longleftrightarrow>
     (\<exists>rs. s = Some rs \<and> mem_ok clash store rs \<and> set rs = S)"
  by (auto simp: mem_view_def mem_rows_def split: option.splits)

lemma mem_flush_Some:
  "mem_ok clash store rs \<Longrightarrow> mem_flush clash store (Some rs) = (Inr rs, Some rs)"
  by (simp add: mem_flush_def mem_rows_def)

context sql_table
begin

lemma mem_ok_iff: "mem_ok clash store rs \<longleftrightarrow> distinct rs \<and> table_ok (set rs)"
  by (auto simp: mem_ok_def table_ok_def list_all_iff)

lemma store_all: "table_ok (set rs) \<Longrightarrow> map store rs = rs"
  by (auto simp: table_ok_def intro: map_idI)

lemma mem_set_row:
  assumes "distinct rs" "table_ok (set rs)" "r0 \<in> set rs" "pk r = pk r0"
    and "\<And>r'. clash r r' = clash r0 r'"
  defines "rs' \<equiv> map (\<lambda>r'. if pk r' = pk r then store r else r') rs"
  shows "set rs' = insert (store r) (set rs - {r0})" "distinct rs'" "table_ok (set rs')"
proof -
  have one: "r' = r0" if "r' \<in> set rs" "pk r' = pk r" for r'
    using table_ok_pk [OF assms(2) that(1) assms(3)] that(2) assms(4) by simp
  show s: "set rs' = insert (store r) (set rs - {r0})"
    using one assms(3,4) unfolding rs'_def set_map by (auto simp: image_iff)
  obtain ys zs where rs: "rs = ys @ r0 # zs" using assms(3) split_list by metis
  have other: "pk r' \<noteq> pk r" if "r' \<in> set ys \<union> set zs" for r'
  proof
    assume "pk r' = pk r"
    then have "r' = r0" using one that rs by auto
    with that assms(1) rs show False by auto
  qed
  then have "map (\<lambda>r'. if pk r' = pk r then store r else r') ys = ys"
    "map (\<lambda>r'. if pk r' = pk r then store r else r') zs = zs"
    by (auto intro!: map_idI)
  then have "rs' = ys @ store r # zs" using rs assms(4) by (simp add: rs'_def)
  moreover have "store r \<notin> set ys \<union> set zs"
  proof
    assume "store r \<in> set ys \<union> set zs"
    then have "store r \<in> set rs" using rs by auto
    then have "store r = r0" using one [of "store r"] by simp
    with \<open>store r \<in> set ys \<union> set zs\<close> assms(1) rs show False by auto
  qed
  ultimately show "distinct rs'" using assms(1) rs by auto
  have "\<not> clash r r'" if "r' \<in> set rs - {r0}" for r'
    using that assms(2,3,5) unfolding table_ok_def by blast
  then show "table_ok (set rs')"
    unfolding s using table_ok_insert [OF table_ok_subset [OF assms(2)], of "set rs - {r0}" r] by blast
qed

end

sublocale sql_table \<subseteq> mem: sql_session pk clash store "mem_session pk clash store" "mem_view clash store"
proof unfold_locales
  fix s S and q :: "'r query" and k and r r0
  assume v: "mem_view clash store s = Some S"
  then obtain rs where rs: "s = Some rs" "mem_ok clash store rs" "set rs = S"
    by (auto simp: mem_view_eq_Some)
  note fl = mem_flush_Some [OF rs(2)]
  have tok: "distinct rs" "table_ok (set rs)" using rs(2) by (auto simp: mem_ok_iff)
  show "finite S \<and> table_ok S" using tok rs(3) by auto
  have "answers q S (map store (run_query q rs))"
  proof -
    have "map store (run_query q rs) = run_query q rs"
    proof (rule map_idI)
      fix x assume "x \<in> set (run_query q rs)"
      then have "x \<in> set rs"
        by (auto simp: run_query_def Let_def split: option.splits dest: in_set_takeD)
      then show "store x = x" using tok(2) by (auto simp: table_ok_def)
    qed
    then show ?thesis using answers_run_query [OF tok(1)] rs(3) by simp
  qed
  then show "\<exists>xs s'. exec_select (mem_session pk clash store) q s = (Inr xs, s') \<and>
      mem_view clash store s' = Some S \<and> answers q S (map store xs)"
    using v by (simp add: mem_session_def bindE_def rs(1) fl)
  show "\<exists>x s'. get_row (mem_session pk clash store) k s = (Inr x, s') \<and>
      mem_view clash store s' = Some S \<and>
      (case x of None \<Rightarrow> \<forall>r\<in>S. pk r \<noteq> k | Some r \<Rightarrow> store r \<in> S \<and> pk r = k)"
    using v tok(2) rs(3)
    by (auto simp: mem_session_def bindE_def rs(1) fl table_ok_def find_None_iff
        dest: find_SomeD split: option.splits)
  show "mem_view clash store (add_row (mem_session pk clash store) r s) =
      (if \<exists>r'\<in>S. clash r r' then None else Some (insert (store r) S))"
  proof (cases "\<exists>r'\<in>S. clash r r'")
    case False
    then have "table_ok (insert (store r) (set rs))" using table_ok_insert tok(2) rs(3) by blast
    moreover have "store r \<notin> set rs"
    proof
      assume "store r \<in> set rs"
      moreover have "clash r (store r)" by (rule pk_clash) simp
      ultimately show False using False rs(3) by blast
    qed
    ultimately have "mem_ok clash store (rs @ [store r])" using tok(1) by (simp add: mem_ok_iff)
    with False rs show ?thesis
      by (auto simp: mem_session_def mem_rows_def list_ex_iff mem_view_eq_Some)
  qed (use rs in \<open>auto simp: mem_session_def mem_rows_def list_ex_iff mem_view_def\<close>)
  show "mem_view clash store (set_row (mem_session pk clash store) r s) =
      Some (insert (store r) (S - {r0}))"
    if "r0 \<in> S" "pk r = pk r0" "\<And>r'. clash r r' = clash r0 r'"
    using mem_set_row [OF tok _ that(2,3)] that(1) rs
    by (auto simp: mem_session_def mem_view_eq_Some mem_ok_iff)
  have "mem_ok clash store (filter (\<lambda>r. pk r \<noteq> k) rs)"
    using tok table_ok_subset [OF tok(2)] by (auto simp: mem_ok_iff)
  then show "mem_view clash store (delete_row (mem_session pk clash store) k s) = Some {r \<in> S. pk r \<noteq> k}"
    using rs by (auto simp: mem_session_def mem_view_eq_Some)
  show "\<exists>s'. flush (mem_session pk clash store) s = (Inr (), s') \<and> mem_view clash store s' = Some S"
    using v by (simp add: mem_session_def bindE_def rs(1) fl)
  show "\<exists>e s'. flush (mem_session pk clash store) (add_row (mem_session pk clash store) r s) = (Inl e, s') \<and>
      exc e = IntegrityError \<and> mem_view clash store s' = None" if "r' \<in> S" "clash r r'" for r'
    using that rs
    by (auto simp: mem_session_def bindE_def mem_flush_def mem_rows_def mem_view_def list_ex_iff)
qed

section \<open>Two tables in one session\<close>

text \<open>
  The calls on one table leave what \<open>v\<close> reads alone, whatever they do.  This is the case of
  what lies outside the session, such as the committed database.
\<close>

definition session_frame :: "('s, 'r) session_api \<Rightarrow> ('s \<Rightarrow> 'v) \<Rightarrow> bool" where
  "session_frame api v \<longleftrightarrow>
     (\<forall>q s. v (snd (exec_select api q s)) = v s) \<and> (\<forall>k s. v (snd (get_row api k s)) = v s) \<and>
     (\<forall>r s. v (add_row api r s) = v s) \<and> (\<forall>r s. v (set_row api r s) = v s) \<and>
     (\<forall>k s. v (delete_row api k s) = v s) \<and> (\<forall>s. v (snd (flush api s)) = v s)"

lemma session_frame_simps:
  assumes "session_frame api v"
  shows "v (snd (exec_select api q s)) = v s" "v (snd (get_row api k s)) = v s"
    "v (add_row api r s) = v s" "v (set_row api r s) = v s" "v (delete_row api k s) = v s"
    "v (snd (flush api s)) = v s"
  using assms by (simp_all add: session_frame_def)

text \<open>
  Another table of the same session gets less.  As long as the pending changes can be flushed,
  a call that succeeds leaves it alone; nothing is said of a call that raises, nor of one that
  leaves changes no flush accepts, because a failed flush ends the transaction of all tables.
\<close>

definition shares_session ::
  "('s, 'r) session_api \<Rightarrow> ('s \<Rightarrow> 'r set option) \<Rightarrow> ('s \<Rightarrow> 'v) \<Rightarrow> bool" where
  "shares_session api view v \<longleftrightarrow>
     (\<forall>s. view s \<noteq> None \<longrightarrow>
        (\<forall>q x s'. exec_select api q s = (Inr x, s') \<longrightarrow> v s' = v s) \<and>
        (\<forall>k x s'. get_row api k s = (Inr x, s') \<longrightarrow> v s' = v s) \<and>
        (\<forall>r. view (add_row api r s) \<noteq> None \<longrightarrow> v (add_row api r s) = v s) \<and>
        (\<forall>r. view (set_row api r s) \<noteq> None \<longrightarrow> v (set_row api r s) = v s) \<and>
        (\<forall>s'. flush api s = (Inr (), s') \<longrightarrow> v s' = v s))"

lemma shares_sessionD:
  assumes "shares_session api view v" "view s = Some S"
  shows "exec_select api q s = (Inr x, s') \<Longrightarrow> v s' = v s"
    and "get_row api k s = (Inr y, s') \<Longrightarrow> v s' = v s"
    and "view (add_row api r s) = Some T \<Longrightarrow> v (add_row api r s) = v s"
    and "view (set_row api r s) = Some T \<Longrightarrow> v (set_row api r s) = v s"
    and "flush api s = (Inr (), s') \<Longrightarrow> v s' = v s"
  using assms by (auto simp: shares_session_def)

lemma session_frame_shares: "session_frame api v \<Longrightarrow> shares_session api view v"
  unfolding shares_session_def session_frame_def by (metis snd_conv)

lemma shares_session_comp: "shares_session api view v \<Longrightarrow> shares_session api view (\<lambda>s. f (v s))"
  unfolding shares_session_def by metis

definition on_fst :: "('a, 'r) session_api \<Rightarrow> ('a \<times> 'b, 'r) session_api" where
  "on_fst api =
     \<lparr>exec_select = (\<lambda>q (a, b). map_prod id (\<lambda>a'. (a', b)) (exec_select api q a)),
      get_row = (\<lambda>k (a, b). map_prod id (\<lambda>a'. (a', b)) (get_row api k a)),
      add_row = (\<lambda>r (a, b). (add_row api r a, b)), set_row = (\<lambda>r (a, b). (set_row api r a, b)),
      delete_row = (\<lambda>k (a, b). (delete_row api k a, b)),
      flush = (\<lambda>(a, b). map_prod id (\<lambda>a'. (a', b)) (flush api a))\<rparr>"

definition on_snd :: "('b, 'r) session_api \<Rightarrow> ('a \<times> 'b, 'r) session_api" where
  "on_snd api =
     \<lparr>exec_select = (\<lambda>q (a, b). map_prod id (Pair a) (exec_select api q b)),
      get_row = (\<lambda>k (a, b). map_prod id (Pair a) (get_row api k b)),
      add_row = (\<lambda>r (a, b). (a, add_row api r b)), set_row = (\<lambda>r (a, b). (a, set_row api r b)),
      delete_row = (\<lambda>k (a, b). (a, delete_row api k b)),
      flush = (\<lambda>(a, b). map_prod id (Pair a) (flush api b))\<rparr>"

lemma session_frame_on_fst: "session_frame (on_fst api) (\<lambda>s. v (snd s))"
  by (auto simp: session_frame_def on_fst_def)

lemma session_frame_on_snd: "session_frame (on_snd api) (\<lambda>s. v (fst s))"
  by (auto simp: session_frame_def on_snd_def)

lemma sql_session_on_fst:
  assumes "sql_session pk clash store api view"
  shows "sql_session pk clash store (on_fst api) (\<lambda>s. view (fst s))"
proof -
  note sess = assms
  have tab: "sql_table pk clash store" using sess by (simp add: sql_session_def)
  show ?thesis
  proof (intro sql_session.intro tab sql_session_axioms.intro)
    fix s :: "'b \<times> 'd" and S and q :: "'a query" and k and r r0
    obtain a b where s: "s = (a, b)" by (cases s)
    assume "view (fst s) = Some S"
    then have v: "view a = Some S" by (simp add: s)
    show "finite S \<and> sql_table.table_ok clash store S" by (rule sql_session.view_ok [OF sess v])
    show "\<exists>xs s'. exec_select (on_fst api) q s = (Inr xs, s') \<and> view (fst s') = Some S \<and>
        answers q S (map store xs)"
      using sql_session.select [OF sess v, of q] by (auto simp: on_fst_def s)
    show "\<exists>x s'. get_row (on_fst api) k s = (Inr x, s') \<and> view (fst s') = Some S \<and>
        (case x of None \<Rightarrow> \<forall>r \<in> S. pk r \<noteq> k | Some r \<Rightarrow> store r \<in> S \<and> pk r = k)"
      using sql_session.get [OF sess v, of k] by (force simp: on_fst_def s)
    show "view (fst (add_row (on_fst api) r s)) =
        (if \<exists>r' \<in> S. clash r r' then None else Some (insert (store r) S))"
      using sql_session.add [OF sess v, of r] by (simp add: on_fst_def s)
    show "view (fst (set_row (on_fst api) r s)) = Some (insert (store r) (S - {r0}))"
      if "r0 \<in> S" "pk r = pk r0" "\<And>r'. clash r r' = clash r0 r'"
      using sql_session.assign [OF sess v that] by (simp add: on_fst_def s)
    show "view (fst (delete_row (on_fst api) k s)) = Some {r \<in> S. pk r \<noteq> k}"
      using sql_session.remove [OF sess v, of k] by (simp add: on_fst_def s)
    show "\<exists>s'. flush (on_fst api) s = (Inr (), s') \<and> view (fst s') = Some S"
      using sql_session.flush_ok [OF sess v] by (auto simp: on_fst_def s)
    show "\<exists>e s'. flush (on_fst api) (add_row (on_fst api) r s) = (Inl e, s') \<and> exc e = IntegrityError \<and>
        view (fst s') = None" if "r' \<in> S" "clash r r'" for r'
      using sql_session.conflict [OF sess v that] by (auto simp: on_fst_def s)
  qed
qed

lemma sql_session_on_snd:
  assumes "sql_session pk clash store api view"
  shows "sql_session pk clash store (on_snd api) (\<lambda>s. view (snd s))"
proof -
  note sess = assms
  have tab: "sql_table pk clash store" using sess by (simp add: sql_session_def)
  show ?thesis
  proof (intro sql_session.intro tab sql_session_axioms.intro)
    fix s :: "'d \<times> 'b" and S and q :: "'a query" and k and r r0
    obtain b a where s: "s = (b, a)" by (cases s)
    assume "view (snd s) = Some S"
    then have v: "view a = Some S" by (simp add: s)
    show "finite S \<and> sql_table.table_ok clash store S" by (rule sql_session.view_ok [OF sess v])
    show "\<exists>xs s'. exec_select (on_snd api) q s = (Inr xs, s') \<and> view (snd s') = Some S \<and>
        answers q S (map store xs)"
      using sql_session.select [OF sess v, of q] by (auto simp: on_snd_def s)
    show "\<exists>x s'. get_row (on_snd api) k s = (Inr x, s') \<and> view (snd s') = Some S \<and>
        (case x of None \<Rightarrow> \<forall>r \<in> S. pk r \<noteq> k | Some r \<Rightarrow> store r \<in> S \<and> pk r = k)"
      using sql_session.get [OF sess v, of k] by (force simp: on_snd_def s)
    show "view (snd (add_row (on_snd api) r s)) =
        (if \<exists>r' \<in> S. clash r r' then None else Some (insert (store r) S))"
      using sql_session.add [OF sess v, of r] by (simp add: on_snd_def s)
    show "view (snd (set_row (on_snd api) r s)) = Some (insert (store r) (S - {r0}))"
      if "r0 \<in> S" "pk r = pk r0" "\<And>r'. clash r r' = clash r0 r'"
      using sql_session.assign [OF sess v that] by (simp add: on_snd_def s)
    show "view (snd (delete_row (on_snd api) k s)) = Some {r \<in> S. pk r \<noteq> k}"
      using sql_session.remove [OF sess v, of k] by (simp add: on_snd_def s)
    show "\<exists>s'. flush (on_snd api) s = (Inr (), s') \<and> view (snd s') = Some S"
      using sql_session.flush_ok [OF sess v] by (auto simp: on_snd_def s)
    show "\<exists>e s'. flush (on_snd api) (add_row (on_snd api) r s) = (Inl e, s') \<and> exc e = IntegrityError \<and>
        view (snd s') = None" if "r' \<in> S" "clash r r'" for r'
      using sql_session.conflict [OF sess v that] by (auto simp: on_snd_def s)
  qed
qed

end
