(* ===== verification/SourceRepository.thy ===== *)
theory SourceRepository
  imports Session
begin

text \<open>
  \<open>infrastructure/persistence/source_repository_impl.py\<close> over \<open>models.SourceRow\<close>, the
  port of \<open>domain/ports/source_repository.py\<close> as the record \<open>source_port\<close> with its laws in
  the locale \<open>source_repository\<close>, and \<open>domain/services/source_registry.py\<close>, the
  client of the port.
\<close>

section \<open>Rows\<close>

record source_row =
  srow_id :: string
  srow_name :: string
  srow_type :: string
  srow_url :: "string option"
  srow_config :: "(string, json) dict"
  srow_headers :: "(string, string) dict"
  srow_cron :: string
  srow_priority :: int
  srow_status :: string
  srow_parser :: string
  srow_created_at :: datetime
  srow_updated_at :: datetime

definition source_clash :: "source_row \<Rightarrow> source_row \<Rightarrow> bool" where
  "source_clash r r' \<longleftrightarrow> srow_id r = srow_id r'"

definition source_store :: "source_row \<Rightarrow> source_row" where
  "source_store r =
     r\<lparr>srow_created_at := naive (srow_created_at r), srow_updated_at := naive (srow_updated_at r)\<rparr>"

lemma source_store_simps [simp]:
  "srow_id (source_store r) = srow_id r" "srow_status (source_store r) = srow_status r"
  "srow_priority (source_store r) = srow_priority r" "srow_type (source_store r) = srow_type r"
  "srow_url (source_store r) = srow_url r" "srow_name (source_store r) = srow_name r"
  "srow_created_at (source_store r) = naive (srow_created_at r)"
  by (simp_all add: source_store_def)

interpretation source_table: sql_table srow_id source_clash source_store
  by unfold_locales (auto simp: source_clash_def source_store_def)

section \<open>The mapping between rows and sources\<close>

definition source_to_domain :: "source_row \<Rightarrow> exn + tv_source" where
  "source_to_domain r =
     (case source_type_of (srow_type r) of
        Inl e \<Rightarrow> Inl e
      | Inr ty \<Rightarrow>
     (case source_status_of (srow_status r) of
        Inl e \<Rightarrow> Inl e
      | Inr st \<Rightarrow>
          (let s = \<lparr>src_id = srow_id r, src_name = srow_name r, src_type = ty, src_url = srow_url r,
                    src_config = srow_config r, src_headers = srow_headers r,
                    src_cron = srow_cron r, src_priority = srow_priority r, src_status = st,
                    src_parser = srow_parser r, src_created_at = srow_created_at r,
                    src_updated_at = srow_updated_at r\<rparr>
           in validated (source_ok s) s)))"

definition source_from_domain :: "tv_source \<Rightarrow> source_row" where
  "source_from_domain s =
     \<lparr>srow_id = src_id s, srow_name = src_name s, srow_type = source_type_value (src_type s),
      srow_url = str_or_none (src_url s), srow_config = src_config s,
      srow_headers = src_headers s, srow_cron = src_cron s, srow_priority = src_priority s,
      srow_status = source_status_value (src_status s), srow_parser = src_parser s,
      srow_created_at = src_created_at s, srow_updated_at = src_updated_at s\<rparr>"

definition source_assign :: "datetime \<Rightarrow> tv_source \<Rightarrow> source_row \<Rightarrow> source_row" where
  "source_assign now s r =
     r\<lparr>srow_name := src_name s, srow_type := source_type_value (src_type s),
       srow_url := str_or_none (src_url s), srow_config := src_config s,
       srow_headers := src_headers s, srow_cron := src_cron s, srow_priority := src_priority s,
       srow_status := source_status_value (src_status s), srow_parser := src_parser s,
       srow_updated_at := now\<rparr>"

section \<open>The port and its SQLAlchemy implementation\<close>

record 's source_port =
  sp_get :: "string \<Rightarrow> ('s, tv_source option) eff"
  sp_list :: "string option \<Rightarrow> ('s, tv_source list) eff"
  sp_add :: "tv_source \<Rightarrow> ('s, unit) eff"
  sp_update :: "tv_source \<Rightarrow> ('s, unit) eff"
  sp_delete :: "string \<Rightarrow> ('s, unit) eff"

definition source_get ::
  "('s, source_row) session_api \<Rightarrow> string \<Rightarrow> ('s, tv_source option) eff" where
  "source_get api sid =
     bindE (get_row api sid) (\<lambda>row.
       case row of
         None \<Rightarrow> ret None
       | Some r \<Rightarrow> bindE (pure_eff (source_to_domain r)) (\<lambda>s. ret (Some s)))"

definition source_query :: "string option \<Rightarrow> source_row query" where
  "source_query status =
     (case status of
        None \<Rightarrow> select_all
      | Some st \<Rightarrow> if st = [] then select_all else q_where (\<lambda>r. srow_status r = st) select_all)"

definition source_list ::
  "('s, source_row) session_api \<Rightarrow> string option \<Rightarrow>
   ('s, tv_source list) eff" where
  "source_list api status =
     bindE (exec_select api (source_query status)) (\<lambda>rows.
       pure_eff (traverse (source_to_domain) rows))"

definition source_add :: "('s, source_row) session_api \<Rightarrow> tv_source \<Rightarrow> ('s, unit) eff" where
  "source_add api src s = (Inr (), add_row api (source_from_domain src) s)"

definition source_update ::
  "('s, source_row) session_api \<Rightarrow> ('s \<Rightarrow> datetime) \<Rightarrow> tv_source \<Rightarrow> ('s, unit) eff" where
  "source_update api now src =
     bindE (get_row api (src_id src)) (\<lambda>row.
       case row of
         None \<Rightarrow> ret ()
       | Some r \<Rightarrow> (\<lambda>s. (Inr (), set_row api (source_assign (now s) src r) s)))"

definition source_delete :: "('s, source_row) session_api \<Rightarrow> string \<Rightarrow> ('s, unit) eff" where
  "source_delete api sid =
     bindE (get_row api sid) (\<lambda>row.
       case row of
         None \<Rightarrow> ret ()
       | Some r \<Rightarrow> (\<lambda>s. (Inr (), delete_row api (srow_id r) s)))"

definition SQLAlchemySourceRepository ::
  "('s, source_row) session_api \<Rightarrow> ('s \<Rightarrow> datetime) \<Rightarrow> 's source_port" where
  "SQLAlchemySourceRepository api now =
     \<lparr>sp_get = source_get api, sp_list = source_list api,
      sp_add = source_add api, sp_update = source_update api now,
      sp_delete = source_delete api\<rparr>"

text \<open>What the session's calls leave alone, the repository's leave alone.\<close>

lemma source_frames:
  assumes "session_frame api v"
  shows "v (snd (source_get api k s)) = v s" "v (snd (source_list api st s)) = v s"
    "v (snd (source_update api now x s)) = v s"
  unfolding source_get_def source_list_def source_update_def
  by (rule snd_bindE; auto simp: session_frame_simps [OF assms] split: option.splits)+

section \<open>The source registry\<close>

definition registry_active :: "'s source_port \<Rightarrow> ('s, tv_source list) eff" where
  "registry_active repo = sp_list repo (Some (source_status_value ACTIVE))"

definition registry_all :: "'s source_port \<Rightarrow> ('s, tv_source list) eff" where
  "registry_all repo = sp_list repo None"

definition set_status :: "source_status \<Rightarrow> 's source_port \<Rightarrow> string \<Rightarrow> ('s, unit) eff" where
  "set_status st repo sid =
     bindE (sp_get repo sid) (\<lambda>x.
       case x of
         None \<Rightarrow> ret ()
       | Some s \<Rightarrow> sp_update repo (s\<lparr>src_status := st\<rparr>))"

definition registry_enable :: "'s source_port \<Rightarrow> string \<Rightarrow> ('s, unit) eff" where
  "registry_enable = set_status ACTIVE"

definition registry_disable :: "'s source_port \<Rightarrow> string \<Rightarrow> ('s, unit) eff" where
  "registry_disable = set_status DISABLED"

definition registry_pause :: "'s source_port \<Rightarrow> string \<Rightarrow> ('s, unit) eff" where
  "registry_pause = set_status PAUSED"

section \<open>The laws of the port\<close>

definition naive_source :: "tv_source \<Rightarrow> tv_source" where
  "naive_source s =
     s\<lparr>src_created_at := naive (src_created_at s), src_updated_at := naive (src_updated_at s)\<rparr>"

lemma naive_source_simps [simp]:
  "src_id (naive_source s) = src_id s" "src_status (naive_source s) = src_status s"
  "src_url (naive_source s) = src_url s" "src_priority (naive_source s) = src_priority s"
  "naive_source (naive_source s) = naive_source s"
  by (simp_all add: naive_source_def)

text \<open>The fields of a source an update keeps apart from its own assignments.\<close>

definition touched :: "datetime \<Rightarrow> datetime \<Rightarrow> tv_source \<Rightarrow> tv_source" where
  "touched created updated s = s\<lparr>src_created_at := created, src_updated_at := updated\<rparr>"

lemma touched_simps [simp]:
  "src_id (touched c u s) = src_id s" "src_status (touched c u s) = src_status s"
  "src_url (touched c u s) = src_url s" "src_name (touched c u s) = src_name s"
  "src_priority (touched c u s) = src_priority s"
  by (simp_all add: touched_def)

locale source_repository =
  fixes repo :: "'s source_port"
    and sources :: "'s \<Rightarrow> (string \<rightharpoonup> tv_source) option"
    and valid :: "tv_source \<Rightarrow> bool"
  assumes get: "sources s = Some m \<Longrightarrow>
      \<exists>x s'. sp_get repo k s = (Inr x, s') \<and> sources s' = Some m \<and> map_option naive_source x = m k"
    and list: "sources s = Some m \<Longrightarrow>
      \<exists>xs s'. sp_list repo st s = (Inr xs, s') \<and> sources s' = Some m \<and>
        naive_source ` set xs =
          {x \<in> ran m. st = None \<or> st = Some [] \<or> st = Some (source_status_value (src_status x))} \<and>
        distinct (map src_id xs)"
    and update: "sources s = Some m \<Longrightarrow> m (src_id x) = Some old \<Longrightarrow> valid x \<Longrightarrow>
      \<exists>s' t. sp_update repo x s = (Inr (), s') \<and>
        sources s' = Some (m(src_id x \<mapsto> touched (src_created_at old) t x))"
    and stored: "sources s = Some m \<Longrightarrow> m k = Some x \<Longrightarrow> src_id x = k \<and> naive_source x = x"
    and stored_valid: "sources s = Some m \<Longrightarrow> m k = Some x \<Longrightarrow> naive_source y = x \<Longrightarrow> valid y"
    and valid_status: "valid x \<Longrightarrow> valid (x\<lparr>src_status := status\<rparr>)"
begin

lemma set_status_known:
  assumes "sources s = Some m" and "m k = Some x"
  shows "\<exists>s' t. set_status st repo k s = (Inr (), s') \<and>
    sources s' = Some (m(k \<mapsto> touched (src_created_at x) t (x\<lparr>src_status := st\<rparr>)))"
proof -
  obtain y s1 where y: "sp_get repo k s = (Inr (Some y), s1)" "sources s1 = Some m" "naive_source y = x"
    using get [OF assms(1), of k] assms(2) by auto
  let ?y = "y\<lparr>src_status := st\<rparr>"
  have id: "src_id ?y = k" using stored [OF assms] y(3) by auto
  have "valid ?y" using stored_valid [OF assms y(3)] valid_status by blast
  with update [OF y(2), of ?y x] assms(2) id obtain s' t where u: "sp_update repo ?y s1 = (Inr (), s')"
      "sources s' = Some (m(k \<mapsto> touched (src_created_at x) t ?y))" by auto
  have "touched (src_created_at x) t ?y = touched (src_created_at x) t (x\<lparr>src_status := st\<rparr>)"
    unfolding y(3) [symmetric] by (cases y) (simp add: touched_def naive_source_def)
  with u y(1) show ?thesis by (auto simp: set_status_def bindE_def)
qed

lemma set_status_unknown:
  assumes "sources s = Some m" and "m k = None"
  shows "\<exists>s'. set_status st repo k s = (Inr (), s') \<and> sources s' = Some m"
  using get [OF assms(1), of k] assms(2) by (auto simp: set_status_def bindE_def)

lemma active_sources:
  assumes "sources s = Some m"
  shows "\<exists>xs s'. registry_active repo s = (Inr xs, s') \<and> sources s' = Some m \<and>
    distinct (map src_id xs) \<and> naive_source ` set xs = {x \<in> ran m. src_status x = ACTIVE}"
  using list [OF assms, of "Some (source_status_value ACTIVE)"]
  unfolding registry_active_def
  by (auto simp del: source_status_value.simps) (auto simp: registry_active_def)

end

section \<open>The SQLAlchemy repository implements the port\<close>

text \<open>
  \<open>source_map\<close> is the map from ids to sources a session stands for, defined while every row
  can be read back.  \<open>assignable\<close> is what an assignment must satisfy to be readable again.
\<close>

definition readable :: "source_row \<Rightarrow> bool" where
  "readable r \<longleftrightarrow> \<not> isl (source_to_domain r) \<and> srow_url r \<noteq> Some []"

definition row_source :: "source_row \<Rightarrow> tv_source" where
  "row_source r = projr (source_to_domain r)"

definition assignable :: "tv_source \<Rightarrow> bool" where
  "assignable s \<longleftrightarrow> source_ok s \<and> src_url s \<noteq> Some []"

definition source_map :: "('s \<Rightarrow> source_row set option) \<Rightarrow> 's \<Rightarrow> (string \<rightharpoonup> tv_source) option" where
  "source_map view s =
     (case view s of
        None \<Rightarrow> None
      | Some S \<Rightarrow> if \<forall>r \<in> S. readable r then Some (keyed srow_id row_source S) else None)"

lemma source_map_Some:
  "source_map view s = Some m \<longleftrightarrow>
     (\<exists>S. view s = Some S \<and> (\<forall>r \<in> S. readable r) \<and> m = keyed srow_id row_source S)"
  by (auto simp: source_map_def split: option.splits)

lemma source_to_domain_Inr:
  "source_to_domain r = Inr x \<Longrightarrow>
     source_ok x \<and> src_id x = srow_id r \<and> src_url x = srow_url r \<and>
     source_status_value (src_status x) = srow_status r"
  by (auto simp: source_to_domain_def source_status_of_def Let_def split: sum.splits
      dest: enum_of_Inr)

lemma source_to_domain_store:
  "source_to_domain (source_store r) = map_sum id naive_source (source_to_domain r)"
  by (auto simp: source_to_domain_def source_store_def Let_def validated_def naive_source_def
      source_ok_def split: sum.splits)

lemma source_to_domain_from_domain:
  "assignable s \<Longrightarrow> source_to_domain (source_from_domain s) = Inr s"
  by (cases s) (auto simp: source_to_domain_def source_from_domain_def assignable_def
      str_or_none_def Let_def)

lemma source_to_domain_assign:
  "assignable s \<Longrightarrow> src_id s = srow_id r \<Longrightarrow>
     source_to_domain (source_assign now s r) = Inr (touched (srow_created_at r) now s)"
  by (cases s) (auto simp: source_to_domain_def source_assign_def assignable_def touched_def
      str_or_none_def source_ok_def Let_def)

lemma source_to_domain_created:
  "source_to_domain r = Inr x \<Longrightarrow> src_created_at x = srow_created_at r"
  by (auto simp: source_to_domain_def Let_def split: sum.splits)

lemma row_source_created: "readable r \<Longrightarrow> src_created_at (row_source r) = srow_created_at r"
  by (cases "source_to_domain r") (auto simp: readable_def row_source_def source_to_domain_created)

lemma readableE:
  assumes "readable (source_store r)"
  obtains x where "source_to_domain r = Inr x" "row_source (source_store r) = naive_source x"
    "src_id x = srow_id r" "assignable x" "srow_status r = source_status_value (src_status x)"
proof -
  from assms obtain x where x: "source_to_domain r = Inr x"
    by (cases "source_to_domain r") (auto simp: readable_def source_to_domain_store)
  have "row_source (source_store r) = naive_source x"
    by (simp add: row_source_def source_to_domain_store x)
  with x source_to_domain_Inr [OF x] assms show thesis
    by (intro that) (auto simp: assignable_def readable_def)
qed

locale source_session =
  sql_session srow_id source_clash source_store api view
  for api :: "('s, source_row) session_api" and view :: "'s \<Rightarrow> source_row set option" +
  fixes now :: "'s \<Rightarrow> datetime"
begin

lemma inj_id: "view s = Some S \<Longrightarrow> inj_on srow_id S"
  using view_ok by (blast intro: inj_onI table_ok_pk)

lemma stored_row: "view s = Some S \<Longrightarrow> r \<in> S \<Longrightarrow> source_store r = r"
  using view_ok by (auto simp: table_ok_def)

lemma source_mapE:
  assumes "source_map view s = Some m"
  obtains S where "view s = Some S" "\<forall>r \<in> S. readable r" "m = keyed srow_id row_source S"
  using assms by (auto simp: source_map_Some)

lemma update_row:
  assumes "view s = Some S" "r0 \<in> S" "srow_id r0 = src_id x"
  shows "\<exists>r s1 s'. source_store r = r0 \<and> source_update api now x s = (Inr (), s') \<and>
    view s' = Some (insert (source_store (source_assign (now s1) x r)) (S - {r0}))"
proof -
  obtain y s1 where y: "get_row api (src_id x) s = (Inr y, s1)" "view s1 = Some S"
      "case y of None \<Rightarrow> \<forall>r \<in> S. srow_id r \<noteq> src_id x
       | Some r \<Rightarrow> source_store r \<in> S \<and> srow_id r = src_id x"
    using get [OF assms(1)] by blast
  with assms(2,3) obtain r where r: "y = Some r" "source_store r \<in> S" "srow_id r = src_id x"
    by (cases y) auto
  have "source_store r = r0"
    by (rule inj_onD [OF inj_id [OF assms(1)]]) (use r(2,3) assms(2,3) in simp_all)
  moreover have "view (set_row api (source_assign (now s1) x r) s1) =
      Some (insert (source_store (source_assign (now s1) x r)) (S - {r0}))"
    by (rule assign [OF y(2) assms(2)])
      (use r(3) assms(3) in \<open>auto simp: source_assign_def source_clash_def\<close>)
  ultimately show ?thesis using y(1) r(1) by (auto simp: source_update_def bindE_def)
qed

text \<open>A call that succeeds leaves the other tables of its session alone.\<close>

lemma source_list_shares:
  assumes "shares_session api view v" "view s = Some S" "source_list api st s = (Inr xs, s')"
  shows "v s' = v s"
proof (cases rule: eff_cases [of "exec_select api (source_query st) s"])
  case (raised e s1)
  with assms(3) show ?thesis by (simp add: source_list_def bindE_def)
next
  case (returned rows s1)
  with assms(3) have "s' = s1" by (auto simp: source_list_def bindE_def pure_eff_def)
  with shares_sessionD(1) [OF assms(1,2) returned] show ?thesis by simp
qed

lemma source_update_shares:
  assumes v: "shares_session api view v" and s: "view s = Some S"
    and up: "source_update api now x s = (Inr (), s')"
  shows "v s' = v s"
proof -
  obtain y s1 where y: "get_row api (src_id x) s = (Inr y, s1)" "view s1 = Some S"
      "case y of None \<Rightarrow> \<forall>r \<in> S. srow_id r \<noteq> src_id x
       | Some r \<Rightarrow> source_store r \<in> S \<and> srow_id r = src_id x"
    using get [OF s] by blast
  note v1 = shares_sessionD(2) [OF v s y(1)]
  show ?thesis
  proof (cases y)
    case None
    with up y(1) v1 show ?thesis by (simp add: source_update_def bindE_def)
  next
    case (Some r)
    let ?r' = "source_assign (now s1) x r"
    have r: "source_store r \<in> S" "srow_id r = src_id x" using y(3) Some by auto
    have "view (set_row api ?r' s1) = Some (insert (source_store ?r') (S - {source_store r}))"
      by (rule assign [OF y(2) r(1)]) (use r(2) in \<open>auto simp: source_assign_def source_clash_def\<close>)
    from shares_sessionD(4) [OF v y(2) this] v1 show ?thesis
      using up y(1) Some by (auto simp: source_update_def bindE_def)
  qed
qed

end

sublocale source_session \<subseteq> repo: source_repository
  "SQLAlchemySourceRepository api now" "source_map view" assignable
proof unfold_locales
  fix s m k assume a: "source_map view s = Some m"
  obtain S where S: "view s = Some S" "\<forall>r \<in> S. readable r" "m = keyed srow_id row_source S"
    by (rule source_mapE [OF a])
  obtain y s1 where y: "get_row api k s = (Inr y, s1)" "view s1 = Some S"
      "case y of None \<Rightarrow> \<forall>r \<in> S. srow_id r \<noteq> k | Some r \<Rightarrow> source_store r \<in> S \<and> srow_id r = k"
    using get [OF S(1)] by blast
  have m1: "source_map view s1 = Some m" using S y(2) by (auto simp: source_map_Some)
  show "\<exists>x s'. sp_get (SQLAlchemySourceRepository api now) k s = (Inr x, s') \<and>
      source_map view s' = Some m \<and> map_option naive_source x = m k"
  proof (cases y)
    case None
    with y(3) have "m k = None" by (simp add: S(3) keyed_None)
    with None y(1) m1 show ?thesis
      by (simp add: SQLAlchemySourceRepository_def source_get_def bindE_def)
  next
    case (Some r)
    with y(3) have r: "source_store r \<in> S" "srow_id r = k" by auto
    obtain x where x: "source_to_domain r = Inr x" "row_source (source_store r) = naive_source x"
      using readableE bspec [OF S(2) r(1)] by metis
    have "m k = Some (naive_source x)"
      using keyed_at [OF inj_id [OF S(1)] r(1), of row_source] r(2) x(2) by (simp add: S(3))
    with Some y(1) m1 x(1) show ?thesis
      by (simp add: SQLAlchemySourceRepository_def source_get_def bindE_def)
  qed
next
  fix s m st assume a: "source_map view s = Some m"
  obtain S where S: "view s = Some S" "\<forall>r \<in> S. readable r" "m = keyed srow_id row_source S"
    by (rule source_mapE [OF a])
  have "row_limit (source_query st) = None" by (simp add: source_query_def split: option.splits)
  from select_where [OF S(1) this] obtain rows s1 where
    rows: "exec_select api (source_query st) s = (Inr rows, s1)" "view s1 = Some S"
      "source_store ` set rows = {r \<in> S. where_clause (source_query st) r}"
      "distinct (map source_store rows)" .
  have m1: "source_map view s1 = Some m" using S rows(2) by (auto simp: source_map_Some)
  have good: "readable (source_store r)" if "r \<in> set rows" for r using S(2) rows(3) that by blast
  have dom: "source_to_domain r = Inr (row_source r)" "naive_source (row_source r) = row_source (source_store r)"
      "src_id (row_source r) = srow_id r" if r: "r \<in> set rows" for r
    using good [OF r] by (auto elim!: readableE simp: row_source_def)
  have list: "source_list api st s = (Inr (map row_source rows), s1)"
    using dom(1) by (simp add: source_list_def bindE_def rows(1) traverse_Inr)
  have "map src_id (map row_source rows) = map srow_id (map source_store rows)"
    using dom(3) by simp
  moreover have "inj_on srow_id (set (map source_store rows))"
    using inj_id [OF S(1)] rows(3) by (auto intro: inj_on_subset)
  ultimately have "distinct (map src_id (map row_source rows))"
    using rows(4) by (simp only: distinct_map)
  moreover have "naive_source ` set (map row_source rows) = row_source ` source_store ` set rows"
    using dom(2) by (force simp: image_image)
  moreover have "where_clause (source_query st) r \<longleftrightarrow>
      st = None \<or> st = Some [] \<or> st = Some (source_status_value (src_status (row_source r)))"
    if rS: "r \<in> S" for r
  proof -
    obtain x where "source_to_domain r = Inr x" "srow_status r = source_status_value (src_status x)"
      using readableE bspec [OF S(2) rS] stored_row [OF S(1) rS] by metis
    then show ?thesis by (auto simp: source_query_def row_source_def split: option.splits)
  qed
  then have "row_source ` {r \<in> S. where_clause (source_query st) r} =
      {x \<in> ran m. st = None \<or> st = Some [] \<or> st = Some (source_status_value (src_status x))}"
    by (auto simp: S(3) ran_keyed [OF inj_id [OF S(1)]])
  ultimately show "\<exists>xs s'. sp_list (SQLAlchemySourceRepository api now) st s = (Inr xs, s') \<and>
      source_map view s' = Some m \<and>
      naive_source ` set xs =
        {x \<in> ran m. st = None \<or> st = Some [] \<or> st = Some (source_status_value (src_status x))} \<and>
      distinct (map src_id xs)"
    using list m1 by (auto simp: SQLAlchemySourceRepository_def rows(3))
next
  fix s m x old assume a: "source_map view s = Some m" "m (src_id x) = Some old" "assignable x"
  obtain S where S: "view s = Some S" "\<forall>r \<in> S. readable r" "m = keyed srow_id row_source S"
    by (rule source_mapE [OF a(1)])
  obtain r0 where r0: "r0 \<in> S" "srow_id r0 = src_id x" "row_source r0 = old"
    using keyed_SomeE [OF a(2) [unfolded S(3)] inj_id [OF S(1)]] .
  obtain r s1 s' where u: "source_store r = r0" "source_update api now x s = (Inr (), s')"
      "view s' = Some (insert (source_store (source_assign (now s1) x r)) (S - {r0}))"
    using update_row [OF S(1) r0(1,2)] by blast
  let ?r' = "source_store (source_assign (now s1) x r)"
  have "src_id x = srow_id r" using r0(2) u(1) by auto
  from source_to_domain_assign [OF a(3) this, of "now s1"]
  have r': "source_to_domain ?r' = Inr (touched (srow_created_at r0) (naive (now s1)) x)"
    using u(1) by (auto simp: source_to_domain_store naive_source_def touched_def)
  moreover have "srow_url ?r' \<noteq> Some []" by (simp add: source_assign_def str_or_none_def)
  ultimately have ok: "readable ?r'" "row_source ?r' = touched (srow_created_at r0) (naive (now s1)) x"
    by (simp_all add: readable_def row_source_def)
  have "srow_created_at r0 = src_created_at old"
    using row_source_created [OF bspec [OF S(2) r0(1)]] r0(3) by simp
  moreover have "source_map view s' = Some (m(srow_id r0 \<mapsto> row_source ?r'))"
    using u(3) S(2) ok(1) keyed_replace [OF inj_id [OF S(1)] r0(1), of ?r' row_source] r0(2) \<open>src_id x = srow_id r\<close>
    by (auto simp: source_map_Some S(3) source_assign_def)
  ultimately show "\<exists>s' t. sp_update (SQLAlchemySourceRepository api now) x s = (Inr (), s') \<and>
      source_map view s' = Some (m(src_id x \<mapsto> touched (src_created_at old) t x))"
    using u(2) ok(2) r0(2) by (auto simp: SQLAlchemySourceRepository_def)
next
  fix s m k x assume a: "source_map view s = Some m" "m k = Some x"
  obtain S where S: "view s = Some S" "\<forall>r \<in> S. readable r" "m = keyed srow_id row_source S"
    by (rule source_mapE [OF a(1)])
  obtain r where r: "r \<in> S" "srow_id r = k" "row_source r = x"
    using keyed_SomeE [OF a(2) [unfolded S(3)] inj_id [OF S(1)]] .
  have st: "source_store r = r" by (rule stored_row [OF S(1) r(1)])
  with bspec [OF S(2) r(1)] obtain y where "source_to_domain r = Inr y" "row_source r = naive_source y"
      "src_id y = srow_id r" using readableE by metis
  with r show "src_id x = k \<and> naive_source x = x" by auto
  fix y assume "naive_source y = x"
  moreover obtain z where "source_to_domain r = Inr z" "assignable z" "row_source r = naive_source z"
    using readableE bspec [OF S(2) r(1)] st by metis
  ultimately have "naive_source y = naive_source z" using r(3) by simp
  with \<open>assignable z\<close> show "assignable y"
    by (cases y; cases z) (auto simp: assignable_def source_ok_def naive_source_def)
next
  fix x status assume "assignable x"
  then show "assignable (x\<lparr>src_status := status\<rparr>)" by (simp add: assignable_def source_ok_def)
qed

context source_session
begin

lemma port: "source_repository (SQLAlchemySourceRepository api now) (source_map view) assignable"
  by unfold_locales

end

section \<open>Properties\<close>

abbreviation mem_sources :: "(source_row list option, source_row) session_api" where
  "mem_sources \<equiv> mem_session srow_id source_clash source_store"

abbreviation mem_sources_view :: "source_row list option \<Rightarrow> source_row set option" where
  "mem_sources_view \<equiv> mem_view source_clash source_store"

abbreviation mem_source_port :: "source_row list option source_port" where
  "mem_source_port \<equiv> SQLAlchemySourceRepository mem_sources (\<lambda>_. sample_time)"

abbreviation source_row_of :: "tv_source \<Rightarrow> source_row" where
  "source_row_of s \<equiv> source_store (source_from_domain s)"

interpretation mem_sources: source_session mem_sources mem_sources_view "\<lambda>_. sample_time"
  by unfold_locales

lemma sample_source_assignable [simp]: "assignable (sample_source i)"
  by (simp add: assignable_def source_ok_def str_between_def)

lemma mem_source_map:
  assumes "distinct (map src_id xs)" "list_all assignable xs"
  shows "\<exists>m. source_map mem_sources_view (Some (map source_row_of xs)) = Some m \<and>
    (\<forall>x \<in> set xs. m (src_id x) = Some (naive_source x))"
proof -
  let ?rs = "map source_row_of xs"
  have "srow_id \<circ> source_row_of = src_id" by (simp add: fun_eq_iff source_from_domain_def)
  then have ids: "map srow_id ?rs = map src_id xs" by simp
  with assms(1) have d: "distinct (map srow_id ?rs)" by (simp only: ids)
  then have inj: "inj_on srow_id (set ?rs)" and dist: "distinct ?rs"
    by (simp_all only: distinct_map)
  have "mem_ok source_clash source_store ?rs"
    unfolding mem_ok_def list_all_iff source_clash_def
    using dist inj_onD [OF inj] by fastforce
  then have v: "mem_sources_view (Some ?rs) = Some (set ?rs)" by (simp add: mem_view_eq_Some)
  have r: "readable (source_row_of x) \<and> row_source (source_row_of x) = naive_source x"
    if "x \<in> set xs" for x
    using that assms(2) source_to_domain_from_domain [of x]
    by (auto simp: readable_def row_source_def source_to_domain_store list_all_iff
        source_from_domain_def str_or_none_def)
  then have "source_map mem_sources_view (Some ?rs) = Some (keyed srow_id row_source (set ?rs))"
    using v by (auto simp: source_map_Some)
  moreover have "keyed srow_id row_source (set ?rs) (src_id x) = Some (naive_source x)"
    if "x \<in> set xs" for x
    using keyed_at [OF inj, of "source_row_of x" row_source] r [OF that] that
    by (simp add: source_from_domain_def)
  ultimately show ?thesis by blast
qed

text \<open>
  C15: the registry's state machine.  On any session that obeys the SQL interface, \<open>enable\<close>,
  \<open>disable\<close> and \<open>pause\<close> of a known source succeed and set exactly its status (and
  \<open>updated_at\<close>); every other source and every other field stays as it was, and from then on
  \<open>active\<close> lists the source if and only if it was enabled.
\<close>

theorem registry_sets_status:
  assumes "source_session api view" and "source_map view s = Some m" and "m k = Some x"
  shows "\<exists>s' t. set_status st (SQLAlchemySourceRepository api now) k s = (Inr (), s') \<and>
    source_map view s' = Some (m(k \<mapsto> touched (src_created_at x) t (x\<lparr>src_status := st\<rparr>))) \<and>
    (\<exists>xs s''. registry_active (SQLAlchemySourceRepository api now) s' = (Inr xs, s'') \<and> (k \<in> src_id ` set xs \<longleftrightarrow> st = ACTIVE))"
proof -
  note port = source_session.port [OF assms(1), of now]
  obtain s' t where s': "set_status st (SQLAlchemySourceRepository api now) k s = (Inr (), s')"
      "source_map view s' = Some (m(k \<mapsto> touched (src_created_at x) t (x\<lparr>src_status := st\<rparr>)))"
    using source_repository.set_status_known [OF port assms(2,3)] by blast
  let ?x = "touched (src_created_at x) t (x\<lparr>src_status := st\<rparr>)" and ?m = "m(k \<mapsto> touched (src_created_at x) t (x\<lparr>src_status := st\<rparr>))"
  obtain xs s'' where xs: "registry_active (SQLAlchemySourceRepository api now) s' = (Inr xs, s'')"
      "naive_source ` set xs = {x \<in> ran ?m. src_status x = ACTIVE}"
    using source_repository.active_sources [OF port s'(2)] by blast
  have ids: "src_id y = k'" if "?m k' = Some y" for k' y
    using source_repository.stored [OF port s'(2) that] by blast
  have "k \<in> src_id ` set xs \<longleftrightarrow> k \<in> src_id ` naive_source ` set xs" by (simp add: image_image)
  also have "\<dots> \<longleftrightarrow> (\<exists>y. ?m k = Some y \<and> src_status y = ACTIVE)"
    unfolding xs(2) using ids by (force simp: ran_def simp del: fun_upd_apply)
  also have "\<dots> \<longleftrightarrow> st = ACTIVE" by simp
  finally show ?thesis using s' xs(1) by blast
qed

theorem registry_sets_status_witness:
  "\<exists>s' t. registry_pause mem_source_port ''a'' (Some [source_row_of (sample_source ''a'')]) = (Inr (), s') \<and>
    (\<exists>m. source_map mem_sources_view s' = Some m \<and>
       map_option src_status (m ''a'') = Some PAUSED)"
proof -
  obtain m where m: "source_map mem_sources_view (Some [source_row_of (sample_source ''a'')]) = Some m"
      "m ''a'' = Some (naive_source (sample_source ''a''))"
    using mem_source_map [of "[sample_source ''a'']"] by auto
  from registry_sets_status [OF mem_sources.source_session_axioms m, of PAUSED "\<lambda>_. sample_time"]
  show ?thesis unfolding registry_pause_def by fastforce
qed

text \<open>
  An unchecked assignment makes the whole table unreadable.  \<open>update\<close> writes a priority
  outside 0..10 without an error (the API's \<open>PUT /sources\<close> assigns request fields with
  \<open>setattr\<close>, which pydantic does not validate); from then on \<open>list\<close> raises for every
  caller, because \<open>_to_domain\<close> validates every row, and so does \<open>get\<close> of that source.
\<close>

theorem invalid_priority_breaks_list:
  assumes "source_session api view" and "view s = Some S" and "r0 \<in> S" and "srow_id r0 = src_id x"
    and "src_priority x < 0 \<or> 10 < src_priority x"
  shows "\<exists>s'. source_update api now x s = (Inr (), s') \<and>
    (\<exists>e s''. source_list api None s' = (Inl e, s'')) \<and>
    (\<exists>e s''. source_get api (src_id x) s' = (Inl e, s''))"
proof -
  obtain r s1 s' where u: "source_store r = r0" "source_update api now x s = (Inr (), s')"
      "view s' = Some (insert (source_store (source_assign (now s1) x r)) (S - {r0}))"
    using source_session.update_row [OF assms(1-4)] by blast
  let ?r' = "source_store (source_assign (now s1) x r)"
  have sess: "sql_session srow_id source_clash source_store api view"
    using assms(1) by (simp add: source_session_def)
  have bad: "\<exists>e. source_to_domain y = Inl e" if "source_store y = ?r'" for y
  proof -
    have "srow_priority y = src_priority x"
      using arg_cong [OF that, of srow_priority] by (simp add: source_assign_def)
    then show ?thesis
      using assms(5) by (auto simp: source_to_domain_def validated_def source_ok_def Let_def
          split: sum.splits)
  qed
  have id': "srow_id ?r' = src_id x" using u(1) assms(4) by (auto simp: source_assign_def)
  obtain rows s2 where rows: "exec_select api (source_query None) s' = (Inr rows, s2)"
      "source_store ` set rows = {y \<in> insert ?r' (S - {r0}). where_clause (source_query None) y}"
    by (rule sql_session.select_where [OF sess u(3), of "source_query None"])
      (auto simp: source_query_def)
  then have "?r' \<in> source_store ` set rows" by (simp add: source_query_def)
  then obtain y where y: "y \<in> set rows" "source_store y = ?r'" by (auto simp: image_iff eq_commute)
  with bad traverse_Inl [OF y(1)] have "\<exists>e s''. source_list api None s' = (Inl e, s'')"
    by (fastforce simp: source_list_def bindE_def rows(1))
  moreover obtain z s3 where z: "get_row api (src_id x) s' = (Inr z, s3)"
      "case z of None \<Rightarrow> \<forall>y \<in> insert ?r' (S - {r0}). srow_id y \<noteq> src_id x
       | Some y \<Rightarrow> source_store y \<in> insert ?r' (S - {r0}) \<and> srow_id y = src_id x"
    using sql_session.get [OF sess u(3)] by blast
  then obtain y where y': "z = Some y" "source_store y \<in> insert ?r' (S - {r0})" "srow_id y = src_id x"
    using id' by (cases z) auto
  have "source_store y = ?r'"
    by (rule inj_onD [OF source_session.inj_id [OF assms(1) u(3)] _ y'(2)]) (use id' y'(3) in simp_all)
  with bad z(1) y'(1) have "\<exists>e s''. source_get api (src_id x) s' = (Inl e, s'')"
    by (fastforce simp: source_get_def bindE_def)
  ultimately show ?thesis using u(2) by blast
qed

theorem invalid_priority_breaks_list_witness:
  "\<exists>s'. source_update mem_sources (\<lambda>_. sample_time) ((sample_source ''a'')\<lparr>src_priority := 99\<rparr>)
      (Some [source_row_of (sample_source ''a'')]) = (Inr (), s') \<and>
    (\<exists>e s''. source_list mem_sources None s' = (Inl e, s''))"
proof -
  have v: "mem_sources_view (Some [source_row_of (sample_source ''a'')]) =
      Some {source_row_of (sample_source ''a'')}"
    by (simp add: mem_view_eq_Some mem_ok_def)
  show ?thesis
    using invalid_priority_breaks_list [OF mem_sources.source_session_axioms v,
        of _ "(sample_source ''a'')\<lparr>src_priority := 99\<rparr>"]
    by (fastforce simp: source_from_domain_def)
qed
end
