(* ===== verification/HealthRepository.thy ===== *)
theory HealthRepository
  imports Session
begin

text \<open>
  \<open>infrastructure/persistence/source_health_repository.py\<close> over \<open>models.SourceHealthRow\<close>:
  the failure streaks that survive between the runs of the health check.  The interface
  \<open>health_repository\<close> speaks of one number per source, zero when there is no row.
\<close>

section \<open>Rows and operations\<close>

record health_row =
  hrow_source_id :: string
  fail_streak :: int
  last_check_at :: "datetime option"
  last_message :: "string option"

definition health_clash :: "health_row \<Rightarrow> health_row \<Rightarrow> bool" where
  "health_clash r r' \<longleftrightarrow> hrow_source_id r = hrow_source_id r'"

definition health_store :: "health_row \<Rightarrow> health_row" where
  "health_store r = r\<lparr>last_check_at := map_option naive (last_check_at r)\<rparr>"

lemma health_store_simps [simp]:
  "hrow_source_id (health_store r) = hrow_source_id r" "fail_streak (health_store r) = fail_streak r"
  by (simp_all add: health_store_def)

interpretation health_table: sql_table hrow_source_id health_clash health_store
  by unfold_locales
    (auto simp: health_clash_def health_store_def option.map_comp comp_def)

record 's health_port =
  hp_get_streak :: "string \<Rightarrow> ('s, int) eff"
  hp_increment :: "string \<Rightarrow> string option \<Rightarrow> ('s, int) eff"
  hp_reset :: "string \<Rightarrow> ('s, unit) eff"
  hp_list_streaks :: "('s, (string, int) dict) eff"

definition get_streak :: "('s, health_row) session_api \<Rightarrow> string \<Rightarrow> ('s, int) eff" where
  "get_streak api sid =
     bindE (get_row api sid) (\<lambda>row. ret (case row of None \<Rightarrow> 0 | Some r \<Rightarrow> fail_streak r))"

definition increment ::
  "('s, health_row) session_api \<Rightarrow> ('s \<Rightarrow> datetime) \<Rightarrow> string \<Rightarrow> string option \<Rightarrow> ('s, int) eff" where
  "increment api now sid message =
     bindE (get_row api sid) (\<lambda>row s.
       case row of
         None \<Rightarrow>
           (let r = \<lparr>hrow_source_id = sid, fail_streak = 1, last_check_at = Some (now s),
                     last_message = message\<rparr>
            in bindE (flush api) (\<lambda>_. ret (fail_streak r)) (add_row api r s))
       | Some r0 \<Rightarrow>
           (let r = r0\<lparr>fail_streak := fail_streak r0 + 1, last_check_at := Some (now s),
                       last_message := message\<rparr>
            in bindE (flush api) (\<lambda>_. ret (fail_streak r)) (set_row api r s)))"

definition reset :: "('s, health_row) session_api \<Rightarrow> ('s \<Rightarrow> datetime) \<Rightarrow> string \<Rightarrow> ('s, unit) eff" where
  "reset api now sid =
     bindE (get_row api sid) (\<lambda>row s.
       case row of
         None \<Rightarrow> (Inr (), s)
       | Some r0 \<Rightarrow>
           flush api (set_row api (r0\<lparr>fail_streak := 0, last_check_at := Some (now s),
                                      last_message := Some ''ok''\<rparr>) s))"

definition list_streaks :: "('s, health_row) session_api \<Rightarrow> ('s, (string, int) dict) eff" where
  "list_streaks api =
     bindE (exec_select api select_all) (\<lambda>rows.
       ret (fold (\<lambda>r. dict_set (hrow_source_id r) (fail_streak r)) rows []))"

definition SQLAlchemySourceHealthRepository ::
  "('s, health_row) session_api \<Rightarrow> ('s \<Rightarrow> datetime) \<Rightarrow> 's health_port" where
  "SQLAlchemySourceHealthRepository api now =
     \<lparr>hp_get_streak = get_streak api, hp_increment = increment api now,
      hp_reset = reset api now, hp_list_streaks = list_streaks api\<rparr>"

lemma health_port_simps [simp]:
  "hp_get_streak (SQLAlchemySourceHealthRepository api now) = get_streak api"
  "hp_increment (SQLAlchemySourceHealthRepository api now) = increment api now"
  "hp_reset (SQLAlchemySourceHealthRepository api now) = reset api now"
  "hp_list_streaks (SQLAlchemySourceHealthRepository api now) = list_streaks api"
  by (simp_all add: SQLAlchemySourceHealthRepository_def)

text \<open>What the session's calls leave alone, the repository's leave alone.\<close>

lemma health_frames:
  assumes "session_frame api v"
  shows "v (snd (increment api now k msg s)) = v s" "v (snd (reset api now k s)) = v s"
proof -
  have fl: "v (snd (bindE (flush api) (\<lambda>_. ret n) s1)) = v s1" for n :: int and s1
    by (rule snd_bindE) (simp_all add: session_frame_simps [OF assms])
  show "v (snd (increment api now k msg s)) = v s" "v (snd (reset api now k s)) = v s"
    unfolding increment_def reset_def
    by (rule snd_bindE; simp add: Let_def fl session_frame_simps [OF assms] split: option.splits)+
qed

section \<open>The laws of the repository\<close>

locale health_repository =
  fixes hrepo :: "'s health_port" and streaks :: "'s \<Rightarrow> (string \<Rightarrow> int) option"
  assumes streak_get: "streaks s = Some f \<Longrightarrow>
      \<exists>s'. hp_get_streak hrepo k s = (Inr (f k), s') \<and> streaks s' = Some f"
    and streak_increment: "streaks s = Some f \<Longrightarrow>
      \<exists>s'. hp_increment hrepo k msg s = (Inr (f k + 1), s') \<and> streaks s' = Some (f(k := f k + 1))"
    and streak_reset: "streaks s = Some f \<Longrightarrow>
      \<exists>s'. hp_reset hrepo k s = (Inr (), s') \<and> streaks s' = Some (f(k := 0))"
    and streak_list: "streaks s = Some f \<Longrightarrow>
      \<exists>d s'. hp_list_streaks hrepo s = (Inr d, s') \<and> streaks s' = Some f \<and> distinct (dict_keys d) \<and>
        (\<forall>k. (case map_of d k of None \<Rightarrow> 0 | Some n \<Rightarrow> n) = f k)"
begin

lemma increments:
  assumes "streaks s = Some f"
  shows "streaks (((\<lambda>s. snd (hp_increment hrepo k msg s)) ^^ n) s) = Some (f(k := f k + int n))"
proof (induction n)
  case (Suc n)
  from streak_increment [OF Suc, of k msg] show ?case by (auto simp: fun_eq_iff)
qed (simp add: assms)

end

definition streak_map :: "('s \<Rightarrow> health_row set option) \<Rightarrow> 's \<Rightarrow> (string \<Rightarrow> int) option" where
  "streak_map view s =
     (case view s of
        None \<Rightarrow> None
      | Some S \<Rightarrow>
          Some (\<lambda>k. case keyed hrow_source_id fail_streak S k of None \<Rightarrow> 0 | Some n \<Rightarrow> n))"

lemma streak_map_Some:
  "streak_map view s = Some f \<longleftrightarrow>
     (\<exists>S. view s = Some S \<and>
        f = (\<lambda>k. case keyed hrow_source_id fail_streak S k of None \<Rightarrow> 0 | Some n \<Rightarrow> n))"
  by (auto simp: streak_map_def split: option.splits)

lemma streak_dict:
  assumes "inj_on hrow_source_id (health_store ` set rows)" and "distinct (map health_store rows)"
  shows "fold (\<lambda>r. dict_set (hrow_source_id r) (fail_streak r)) rows [] =
    map (\<lambda>r. (hrow_source_id r, fail_streak r)) rows"
proof -
  have "map hrow_source_id rows = map hrow_source_id (map health_store rows)" by simp
  then have d: "distinct (map hrow_source_id rows)"
    using assms by (simp only: distinct_map) simp
  have "distinct (map fst d @ map hrow_source_id rows) \<Longrightarrow>
      fold (\<lambda>r. dict_set (hrow_source_id r) (fail_streak r)) rows d =
        d @ map (\<lambda>r. (hrow_source_id r, fail_streak r)) rows" for d
  proof (induction rows arbitrary: d)
    case (Cons r rows)
    then have "hrow_source_id r \<notin> set (dict_keys d)" by auto
    then have "fold (\<lambda>r. dict_set (hrow_source_id r) (fail_streak r)) (r # rows) d =
        fold (\<lambda>r. dict_set (hrow_source_id r) (fail_streak r)) rows
          (d @ [(hrow_source_id r, fail_streak r)])" by (simp add: dict_set_new del: set_map)
    also have "\<dots> = (d @ [(hrow_source_id r, fail_streak r)]) @
        map (\<lambda>r. (hrow_source_id r, fail_streak r)) rows"
      by (rule Cons.IH) (use Cons.prems in auto)
    finally show ?case by simp
  qed simp
  from this [of "[]"] d show ?thesis by simp
qed

locale health_session =
  sql_session hrow_source_id health_clash health_store api view
  for api :: "('s, health_row) session_api" and view :: "'s \<Rightarrow> health_row set option" +
  fixes now :: "'s \<Rightarrow> datetime"
begin

lemma inj_source_id: "view s = Some S \<Longrightarrow> inj_on hrow_source_id S"
  using view_ok by (blast intro: inj_onI table_ok_pk)

lemma streak_cases:
  assumes "streak_map view s = Some f"
  obtains S x s1 where "view s = Some S" "get_row api k s = (Inr x, s1)" "view s1 = Some S"
    "streak_map view s1 = Some f"
    "case x of None \<Rightarrow> f k = 0 \<and> (\<forall>r \<in> S. hrow_source_id r \<noteq> k)
     | Some r \<Rightarrow> f k = fail_streak r \<and> hrow_source_id r = k \<and> health_store r \<in> S"
proof -
  from assms obtain S where S: "view s = Some S"
      "f = (\<lambda>k. case keyed hrow_source_id fail_streak S k of None \<Rightarrow> 0 | Some n \<Rightarrow> n)"
    by (auto simp: streak_map_Some)
  obtain x s1 where x: "get_row api k s = (Inr x, s1)" "view s1 = Some S"
      "case x of None \<Rightarrow> \<forall>r \<in> S. hrow_source_id r \<noteq> k
       | Some r \<Rightarrow> health_store r \<in> S \<and> hrow_source_id r = k"
    using get [OF S(1)] by blast
  have m1: "streak_map view s1 = Some f" using S x(2) by (auto simp: streak_map_Some)
  show thesis
  proof (cases x)
    case None
    with x(3) have "keyed hrow_source_id fail_streak S k = None" by (simp add: keyed_None)
    with None x S m1 show thesis by (intro that [OF S(1) x(1,2) m1]) simp
  next
    case (Some r)
    with x(3) have r: "health_store r \<in> S" "hrow_source_id r = k" by auto
    have "keyed hrow_source_id fail_streak S k = Some (fail_streak r)"
      using keyed_at [OF inj_source_id [OF S(1)] r(1), of fail_streak] r(2) by simp
    with Some r S show thesis by (intro that [OF S(1) x(1,2) m1]) simp
  qed
qed

text \<open>A call that succeeds leaves the other tables of its session alone.\<close>

lemma set_row_shares:
  assumes "shares_session api view v" "view s = Some S" "health_store r0 \<in> S"
    "hrow_source_id r = hrow_source_id r0" "flush api (set_row api r s) = (Inr (), s')"
  shows "v s' = v s"
proof -
  have t: "view (set_row api r s) = Some (insert (health_store r) (S - {health_store r0}))"
    by (rule assign [OF assms(2,3)]) (use assms(4) in \<open>auto simp: health_clash_def\<close>)
  show ?thesis using shares_sessionD(5) [OF assms(1) t assms(5)] shares_sessionD(4) [OF assms(1,2) t] by simp
qed

lemma add_row_shares:
  assumes "shares_session api view v" "view s = Some S" "\<forall>r' \<in> S. hrow_source_id r' \<noteq> hrow_source_id r"
    and "flush api (add_row api r s) = (Inr (), s')"
  shows "v s' = v s"
proof -
  have t: "view (add_row api r s) = Some (insert (health_store r) S)"
    using add [OF assms(2), of r] assms(3) by (auto simp: health_clash_def)
  show ?thesis using shares_sessionD(5) [OF assms(1) t assms(4)] shares_sessionD(3) [OF assms(1,2) t] by simp
qed

lemma health_shares:
  assumes v: "shares_session api view v" and s: "view s = Some S"
  shows "increment api now k msg s = (Inr n, s') \<Longrightarrow> v s' = v s"
    and "reset api now k s = (Inr (), s') \<Longrightarrow> v s' = v s"
proof -
  obtain x s1 where x: "get_row api k s = (Inr x, s1)" "view s1 = Some S"
      "case x of None \<Rightarrow> \<forall>r \<in> S. hrow_source_id r \<noteq> k
       | Some r \<Rightarrow> health_store r \<in> S \<and> hrow_source_id r = k"
    using get [OF s] by blast
  note v1 = shares_sessionD(2) [OF v s x(1)]
  have added: "v t = v s" if "x = None" "flush api (add_row api r s1) = (Inr (), t)" "hrow_source_id r = k" for r t
    using add_row_shares [OF v x(2) _ that(2)] that(1,3) x(3) v1 by simp
  have assigned: "v t = v s" if "x = Some r0" "flush api (set_row api r s1) = (Inr (), t)"
    "hrow_source_id r = hrow_source_id r0" for r r0 t
    using set_row_shares [OF v x(2) _ that(3,2)] that(1) x(3) v1 by simp
  show "v s' = v s" if "increment api now k msg s = (Inr n, s')"
    using that x(1) by (auto simp: increment_def bindE_def Let_def added assigned split: option.splits prod.splits sum.splits)
  show "v s' = v s" if "reset api now k s = (Inr (), s')"
    using that x(1) v1 by (auto simp: reset_def bindE_def assigned split: option.splits)
qed

lemma streak_set_row:
  assumes "streak_map view s = Some f" "view s = Some S" "health_store r0 \<in> S"
    and "hrow_source_id r = hrow_source_id r0"
  shows "\<exists>s'. flush api (set_row api r s) = (Inr (), s') \<and>
    streak_map view s' = Some (f(hrow_source_id r0 := fail_streak r))"
proof -
  have "view (set_row api r s) = Some (insert (health_store r) (S - {health_store r0}))"
    by (rule assign [OF assms(2,3)]) (use assms(4) in \<open>auto simp: health_clash_def\<close>)
  from flush_ok [OF this] obtain s' where s': "flush api (set_row api r s) = (Inr (), s')"
      "view s' = Some (insert (health_store r) (S - {health_store r0}))" by blast
  moreover have "streak_map view s' = Some (f(hrow_source_id r0 := fail_streak r))"
    using s'(2) assms keyed_replace [OF inj_source_id [OF assms(2)] assms(3), of "health_store r" fail_streak]
    by (auto simp: streak_map_Some fun_eq_iff)
  ultimately show ?thesis by blast
qed

lemma streak_add_row:
  assumes "streak_map view s = Some f" "view s = Some S" "\<forall>r' \<in> S. hrow_source_id r' \<noteq> hrow_source_id r"
  shows "\<exists>s'. flush api (add_row api r s) = (Inr (), s') \<and>
    streak_map view s' = Some (f(hrow_source_id r := fail_streak r))"
proof -
  have "view (add_row api r s) = Some (insert (health_store r) S)"
    using add [OF assms(2), of r] assms(3) by (auto simp: health_clash_def)
  from flush_ok [OF this] obtain s' where s': "flush api (add_row api r s) = (Inr (), s')"
      "view s' = Some (insert (health_store r) S)" by blast
  moreover have "streak_map view s' = Some (f(hrow_source_id r := fail_streak r))"
    using s'(2) assms keyed_insert [OF inj_source_id [OF assms(2)], of "health_store r" fail_streak]
    by (auto simp: streak_map_Some fun_eq_iff)
  ultimately show ?thesis by blast
qed

end

sublocale health_session \<subseteq> repo: health_repository
  "SQLAlchemySourceHealthRepository api now" "streak_map view"
proof unfold_locales
  fix s f k msg assume a: "streak_map view s = Some f"
  obtain S x s1 where x: "view s = Some S" "get_row api k s = (Inr x, s1)" "view s1 = Some S"
      "streak_map view s1 = Some f"
      "case x of None \<Rightarrow> f k = 0 \<and> (\<forall>r \<in> S. hrow_source_id r \<noteq> k)
       | Some r \<Rightarrow> f k = fail_streak r \<and> hrow_source_id r = k \<and> health_store r \<in> S"
    by (rule streak_cases [OF a])
  show "\<exists>s'. hp_get_streak (SQLAlchemySourceHealthRepository api now) k s = (Inr (f k), s') \<and>
      streak_map view s' = Some f"
    using x(2,4,5) by (auto simp: get_streak_def bindE_def split: option.splits)
  show "\<exists>s'. hp_increment (SQLAlchemySourceHealthRepository api now) k msg s = (Inr (f k + 1), s') \<and>
      streak_map view s' = Some (f(k := f k + 1))"
  proof (cases x)
    case None
    let ?r = "\<lparr>hrow_source_id = k, fail_streak = 1, last_check_at = Some (now s1), last_message = msg\<rparr>"
    have "\<exists>s'. flush api (add_row api ?r s1) = (Inr (), s') \<and> streak_map view s' = Some (f(k := 1))"
      using streak_add_row [OF x(4,3), of ?r] x(5) None by simp
    with None x(2,5) show ?thesis by (auto simp: increment_def bindE_def Let_def)
  next
    case (Some r)
    let ?r = "r\<lparr>fail_streak := fail_streak r + 1, last_check_at := Some (now s1), last_message := msg\<rparr>"
    have "\<exists>s'. flush api (set_row api ?r s1) = (Inr (), s') \<and>
        streak_map view s' = Some (f(k := fail_streak r + 1))"
      using streak_set_row [OF x(4,3), of r ?r] x(5) Some by simp
    with Some x(2,5) show ?thesis by (auto simp: increment_def bindE_def Let_def)
  qed
  show "\<exists>s'. hp_reset (SQLAlchemySourceHealthRepository api now) k s = (Inr (), s') \<and>
      streak_map view s' = Some (f(k := 0))"
  proof (cases x)
    case None
    with x(5) have "f(k := 0) = f" by auto
    with None x(2,4) show ?thesis by (auto simp: reset_def bindE_def)
  next
    case (Some r)
    let ?r = "r\<lparr>fail_streak := 0, last_check_at := Some (now s1), last_message := Some ''ok''\<rparr>"
    have "\<exists>s'. flush api (set_row api ?r s1) = (Inr (), s') \<and> streak_map view s' = Some (f(k := 0))"
      using streak_set_row [OF x(4,3), of r ?r] x(5) Some by simp
    with Some x(2) show ?thesis by (auto simp: reset_def bindE_def)
  qed
next
  fix s f assume a: "streak_map view s = Some f"
  then obtain S where S: "view s = Some S"
      "f = (\<lambda>k. case keyed hrow_source_id fail_streak S k of None \<Rightarrow> 0 | Some n \<Rightarrow> n)"
    by (auto simp: streak_map_Some)
  obtain rows s' where rows: "exec_select api select_all s = (Inr rows, s')" "view s' = Some S"
      "health_store ` set rows = {r \<in> S. where_clause select_all r}" "distinct (map health_store rows)"
    by (rule select_where [OF S(1)]) (rule query_simps)
  have S': "health_store ` set rows = S" using rows(3) by simp
  note inj = inj_source_id [OF S(1)]
  let ?d = "map (\<lambda>r. (hrow_source_id r, fail_streak r)) rows"
  have "dict_keys ?d = map hrow_source_id (map health_store rows)" by simp
  then have keys: "distinct (dict_keys ?d)" using inj rows(4) S' by (simp only: distinct_map) simp
  have "map_of ?d k = keyed hrow_source_id fail_streak S k" for k
  proof (cases "\<exists>r \<in> set rows. hrow_source_id r = k")
    case True
    then obtain r where r: "r \<in> set rows" "hrow_source_id r = k" by blast
    then have "health_store r \<in> S" using S' by blast
    with keyed_at [OF inj, of "health_store r" fail_streak] r
    have "keyed hrow_source_id fail_streak S k = Some (fail_streak r)" by simp
    moreover have "map_of ?d k = Some (fail_streak r)"
      using keys r by (auto intro!: map_of_is_SomeI)
    ultimately show ?thesis by simp
  next
    case False
    then have "map_of ?d k = None" by (auto simp: map_of_eq_None_iff)
    moreover have "keyed hrow_source_id fail_streak S k = None"
      using False by (auto simp: keyed_None S' [symmetric])
    ultimately show ?thesis by simp
  qed
  moreover have "list_streaks api s = (Inr ?d, s')"
    using streak_dict [of rows] inj rows(4) S' by (simp add: list_streaks_def bindE_def rows(1))
  moreover have "streak_map view s' = Some f" using rows(2) S by (auto simp: streak_map_Some)
  ultimately show "\<exists>d s'. hp_list_streaks (SQLAlchemySourceHealthRepository api now) s = (Inr d, s') \<and>
      streak_map view s' = Some f \<and> distinct (dict_keys d) \<and>
      (\<forall>k. (case map_of d k of None \<Rightarrow> 0 | Some n \<Rightarrow> n) = f k)"
    using keys by (auto simp: S(2))
qed

abbreviation mem_health :: "(health_row list option, health_row) session_api" where
  "mem_health \<equiv> mem_session hrow_source_id health_clash health_store"

abbreviation mem_health_view :: "health_row list option \<Rightarrow> health_row set option" where
  "mem_health_view \<equiv> mem_view health_clash health_store"

interpretation mem_health: health_session mem_health mem_health_view "\<lambda>_. sample_time"
  by unfold_locales

end
