(* ===== verification/HealthCheck.thy ===== *)
theory HealthCheck
  imports SourceRepository HealthRepository HttpClient
begin

text \<open>
  \<open>domain/services/health_check_service.py\<close> and
  \<open>interfaces/scheduler/jobs/health_check_job.py\<close>: probing a source, counting its failures
  in a row and pausing it at the threshold.  The service sees the fetcher port and the clocks
  through \<open>health_env\<close>; the loop sees the source and health repositories through their
  ports, so its lemmas are proved once in the locale \<open>health_monitoring\<close>.
\<close>

section \<open>The service\<close>

record 's health_env =
  he_fetch :: "string \<Rightarrow> (string, string) dict option \<Rightarrow> real \<Rightarrow> ('s, fetch_result) eff"
  he_monotonic :: "'s \<Rightarrow> real"
  he_now :: "'s \<Rightarrow> datetime"

definition dead :: "tv_source \<Rightarrow> datetime \<Rightarrow> string \<Rightarrow> source_health" where
  "dead src now msg =
     \<lparr>health_source_id = src_id src, is_alive = False, latency_ms = None, checked_at = now,
      health_message = Some msg\<rparr>"

definition check :: "'s health_env \<Rightarrow> tv_source \<Rightarrow> ('s, source_health) eff" where
  "check env src s =
     (if \<not> has_url src then (Inr (dead src (he_now env s) ''no url configured''), s)
      else
        let start = he_monotonic env s in
        case he_fetch env (the (src_url src)) (headers_or_none src) 10 s of
          (Inr _, s') \<Rightarrow>
            (Inr \<lparr>health_source_id = src_id src, is_alive = True,
                  latency_ms = Some (py_int ((he_monotonic env s' - start) * 1000)),
                  checked_at = he_now env s', health_message = None\<rparr>, s')
        | (Inl e, s') \<Rightarrow>
            if isinstance e SourceUnavailableError
            then (Inr (dead src (he_now env s') (take 500 (exn_str e))), s')
            else (Inr (dead src (he_now env s') (take 500 (''unexpected: '' @ exn_str e))), s'))"

text \<open>
  The probe is total.  Whatever the fetcher does, \<open>check\<close> returns a result for the
  source and never raises; the source counts as alive exactly when it has a URL and the fetch
  returned, a dead one carries a message of at most 500 characters and no latency, and
  without a URL nothing is fetched.
\<close>

theorem check_total:
  "\<exists>h s'. check env src s = (Inr h, s') \<and> health_source_id h = src_id src \<and>
    (is_alive h \<longleftrightarrow> has_url src \<and>
       \<not> isl (fst (he_fetch env (the (src_url src)) (headers_or_none src) 10 s))) \<and>
    (is_alive h \<longleftrightarrow> health_message h = None) \<and> (is_alive h \<longleftrightarrow> latency_ms h \<noteq> None) \<and>
    length (case health_message h of None \<Rightarrow> [] | Some msg \<Rightarrow> msg) \<le> 500 \<and>
    s' = (if has_url src then snd (he_fetch env (the (src_url src)) (headers_or_none src) 10 s) else s)"
proof (cases "has_url src")
  case True
  then show ?thesis
    by (cases rule: eff_cases [of "he_fetch env (the (src_url src)) (headers_or_none src) 10 s"])
      (simp_all add: check_def dead_def Let_def)
qed (simp add: check_def dead_def)

section \<open>The loop\<close>

definition probe ::
  "'s health_env \<Rightarrow> nat \<Rightarrow> 's source_port \<Rightarrow> 's health_port \<Rightarrow> tv_source \<Rightarrow> ('s, unit) eff" where
  "probe env threshold source_repo health_repo src =
     bindE (check env src) (\<lambda>h.
       if \<not> is_alive h then
         bindE (hp_increment health_repo (src_id src) (health_message h)) (\<lambda>streak.
           if streak \<ge> int threshold
           then sp_update source_repo (src\<lparr>src_status := PAUSED\<rparr>)
           else ret ())
       else hp_reset health_repo (src_id src))"

definition health_check_loop ::
  "'s health_env \<Rightarrow> nat \<Rightarrow> 's source_port \<Rightarrow> 's source_port \<Rightarrow> 's health_port \<Rightarrow> ('s, unit) eff" where
  "health_check_loop env threshold registry source_repo health_repo =
     bindE (registry_active registry) (\<lambda>sources.
       for_each (probe env threshold source_repo health_repo) sources)"

section \<open>What one run does\<close>

text \<open>
  \<open>up\<close> says which requests are answered; a source is alive when it has a URL that is.
\<close>

definition alive :: "(string \<Rightarrow> (string, string) dict option \<Rightarrow> bool) \<Rightarrow> tv_source \<Rightarrow> bool" where
  "alive up x \<longleftrightarrow> has_url x \<and> up (the (src_url x)) (headers_or_none x)"

definition next_streak :: "bool \<Rightarrow> int \<Rightarrow> int" where
  "next_streak ok n = (if ok then 0 else n + 1)"

definition pause_due :: "nat \<Rightarrow> bool \<Rightarrow> int \<Rightarrow> bool" where
  "pause_due threshold ok n \<longleftrightarrow> \<not> ok \<and> n + 1 \<ge> int threshold"

definition paused :: "tv_source \<Rightarrow> tv_source \<Rightarrow> bool" where
  "paused x y \<longleftrightarrow> (\<exists>t. y = touched (src_created_at x) t (x\<lparr>src_status := PAUSED\<rparr>))"

text \<open>One round of the check from the sources \<open>m\<close> and streaks \<open>f\<close> to \<open>m'\<close> and \<open>f'\<close>.\<close>

lemma health_round_explicit:
  assumes "\<forall>k. (case m k of
      None \<Rightarrow> m' k = None \<and> f' k = f k
    | Some x \<Rightarrow>
        if src_status x \<noteq> ACTIVE then m' k = Some x \<and> f' k = f k
        else f' k = next_streak (alive up x) (f k) \<and>
          (if pause_due threshold (alive up x) (f k)
           then \<exists>y. m' k = Some y \<and> paused x y else m' k = Some x))"
  shows "\<forall>k. case m k of
      None \<Rightarrow> m' k = None \<and> f' k = f k
    | Some x \<Rightarrow>
        if src_status x \<noteq> ACTIVE then m' k = Some x \<and> f' k = f k
        else f' k = (if alive up x then 0 else f k + 1) \<and>
          (if \<not> alive up x \<and> f k + 1 \<ge> int threshold
           then \<exists>t. m' k = Some (touched (src_created_at x) t (x\<lparr>src_status := PAUSED\<rparr>))
           else m' k = Some x)"
proof
  fix k
  show "case m k of
      None \<Rightarrow> m' k = None \<and> f' k = f k
    | Some x \<Rightarrow>
        if src_status x \<noteq> ACTIVE then m' k = Some x \<and> f' k = f k
        else f' k = (if alive up x then 0 else f k + 1) \<and>
          (if \<not> alive up x \<and> f k + 1 \<ge> int threshold
           then \<exists>t. m' k = Some (touched (src_created_at x) t (x\<lparr>src_status := PAUSED\<rparr>))
           else m' k = Some x)"
  proof (cases "m k")
    case (Some x)
    with spec [OF assms, of k] show ?thesis
      by (auto simp: next_streak_def pause_due_def paused_def split: if_splits)
  qed (use spec [OF assms, of k] in simp)
qed

lemma alive_naive [simp]: "alive up (naive_source x) = alive up x"
  by (simp add: alive_def has_url_def headers_or_none_def naive_source_def)

locale health_monitoring =
  source_repository repo sources valid + health_repository hrepo streaks
  for repo :: "'s source_port" and sources :: "'s \<Rightarrow> (string \<rightharpoonup> tv_source) option"
    and valid :: "tv_source \<Rightarrow> bool" and hrepo :: "'s health_port"
    and streaks :: "'s \<Rightarrow> (string \<Rightarrow> int) option" +
  fixes env :: "'s health_env" and up :: "string \<Rightarrow> (string, string) dict option \<Rightarrow> bool"
  assumes verdict: "fst (he_fetch env u h t s) = Inl e \<Longrightarrow> \<not> up u h"
      "fst (he_fetch env u h t s) = Inr r \<Longrightarrow> up u h"
    and fetch_frame: "sources (snd (he_fetch env u h t s)) = sources s"
      "streaks (snd (he_fetch env u h t s)) = streaks s"
    and health_frame: "streaks s = Some f \<Longrightarrow> hp_increment hrepo k msg s = (Inr n, s') \<Longrightarrow> sources s' = sources s"
      "streaks s = Some f \<Longrightarrow> hp_reset hrepo k s = (Inr (), s') \<Longrightarrow> sources s' = sources s"
    and source_frame: "sources s = Some m \<Longrightarrow> sp_list repo q s = (Inr xs, s') \<Longrightarrow> streaks s' = streaks s"
      "sources s = Some m \<Longrightarrow> sp_update repo x s = (Inr (), s') \<Longrightarrow> streaks s' = streaks s"
begin

lemma check_verdict:
  obtains h s' where "check env x s = (Inr h, s')" "is_alive h \<longleftrightarrow> alive up x"
    "sources s' = sources s" "streaks s' = streaks s"
proof (cases "has_url x")
  case True
  show thesis
  proof (cases rule: eff_cases [of "he_fetch env (the (src_url x)) (headers_or_none x) 10 s"])
    case (raised e s')
    then show thesis
      using True verdict(1) [of "the (src_url x)" "headers_or_none x" 10 s e]
        fetch_frame [of "the (src_url x)" "headers_or_none x" 10 s]
      by (cases "isinstance e SourceUnavailableError")
        (auto simp: check_def Let_def dead_def alive_def intro: that)
  next
    case (returned r s')
    then show thesis
      using True verdict(2) [of "the (src_url x)" "headers_or_none x" 10 s r]
        fetch_frame [of "the (src_url x)" "headers_or_none x" 10 s]
      by (auto simp: check_def Let_def alive_def intro: that)
  qed
qed (auto simp: check_def dead_def alive_def intro: that)

lemma probe_known:
  assumes "sources s = Some m" and "streaks s = Some f" and "m (src_id x) = Some (naive_source x)"
  shows "\<exists>s' y. probe env threshold repo hrepo x s = (Inr (), s') \<and>
    sources s' = Some (if pause_due threshold (alive up x) (f (src_id x)) then m(src_id x \<mapsto> y) else m) \<and>
    paused (naive_source x) y \<and>
    streaks s' = Some (f(src_id x := next_streak (alive up x) (f (src_id x))))"
proof -
  obtain h s1 where h: "check env x s = (Inr h, s1)" "is_alive h \<longleftrightarrow> alive up x"
      "sources s1 = Some m" "streaks s1 = Some f"
    using check_verdict [of x s] assms(1,2) by metis
  let ?k = "src_id x"
  have triv: "\<exists>y. paused (naive_source x) y" by (auto simp: paused_def)
  show ?thesis
  proof (cases "alive up x")
    case True
    obtain s2 where s2: "hp_reset hrepo ?k s1 = (Inr (), s2)" "streaks s2 = Some (f(?k := 0))"
      using streak_reset [OF h(4)] by blast
    moreover have "sources s2 = Some m" using health_frame(2) [OF h(4) s2(1)] h(3) by simp
    ultimately show ?thesis
      using True h(1,2) triv
      by (simp add: probe_def bindE_def pause_due_def next_streak_def)
  next
    case False
    obtain s2 where s2: "hp_increment hrepo ?k (health_message h) s1 = (Inr (f ?k + 1), s2)"
        "streaks s2 = Some (f(?k := f ?k + 1))"
      using streak_increment [OF h(4)] by blast
    have m2: "sources s2 = Some m"
      using health_frame(1) [OF h(4) s2(1)] h(3) by simp
    show ?thesis
    proof (cases "f ?k + 1 \<ge> int threshold")
      case True
      let ?x = "x\<lparr>src_status := PAUSED\<rparr>"
      have "valid ?x" using stored_valid [OF assms(1,3)] valid_status by blast
      then obtain s3 t where s3: "sp_update repo ?x s2 = (Inr (), s3)"
          "sources s3 = Some (m(?k \<mapsto> touched (src_created_at (naive_source x)) t ?x))"
        using update [OF m2, of ?x] assms(3) by auto
      moreover have "streaks s3 = Some (f(?k := f ?k + 1))"
        using source_frame(2) [OF m2 s3(1)] s2(2) by simp
      moreover have "paused (naive_source x) (touched (src_created_at (naive_source x)) t ?x)"
        by (cases x) (auto simp: paused_def touched_def naive_source_def)
      ultimately show ?thesis
        using True False h(1,2) s2(1)
        by (auto simp: probe_def bindE_def pause_due_def next_streak_def)
    next
      case small: False
      with False h(1,2) s2 m2 triv show ?thesis
        by (auto simp: probe_def bindE_def pause_due_def next_streak_def)
    qed
  qed
qed

lemma probes:
  assumes "sources s = Some m" and "streaks s = Some f" and "distinct (map src_id xs)"
    and "\<And>x. x \<in> set xs \<Longrightarrow> m (src_id x) = Some (naive_source x)"
  shows "\<exists>s' m' f'. for_each (probe env threshold repo hrepo) xs s = (Inr (), s') \<and>
    sources s' = Some m' \<and> streaks s' = Some f' \<and>
    (\<forall>k. k \<notin> src_id ` set xs \<longrightarrow> m' k = m k \<and> f' k = f k) \<and>
    (\<forall>x \<in> set xs. f' (src_id x) = next_streak (alive up x) (f (src_id x)) \<and>
       (if pause_due threshold (alive up x) (f (src_id x))
        then \<exists>y. m' (src_id x) = Some y \<and> paused (naive_source x) y
        else m' (src_id x) = m (src_id x)))"
  using assms
proof (induction xs arbitrary: s m f)
  case (Cons x xs)
  let ?k = "src_id x" and ?due = "pause_due threshold (alive up x) (f (src_id x))"
  obtain s1 y where s1: "probe env threshold repo hrepo x s = (Inr (), s1)"
      "sources s1 = Some (if ?due then m(?k \<mapsto> y) else m)" "paused (naive_source x) y"
      "streaks s1 = Some (f(?k := next_streak (alive up x) (f ?k)))"
    using probe_known [OF Cons.prems(1,2) Cons.prems(4) [OF list.set_intros(1)], of threshold] by blast
  let ?m = "if ?due then m(?k \<mapsto> y) else m" and ?f = "f(?k := next_streak (alive up x) (f ?k))"
  have other: "src_id z \<noteq> ?k" if "z \<in> set xs" for z
    using Cons.prems(3) imageI [OF that, of src_id] by auto
  have "?m (src_id z) = Some (naive_source z)" if "z \<in> set xs" for z
    using Cons.prems(4) [of z] other [OF that] that by simp
  from Cons.IH [OF s1(2) s1(4) _ this] Cons.prems(3) obtain s' m' f' where IH:
    "for_each (probe env threshold repo hrepo) xs s1 = (Inr (), s')"
    "sources s' = Some m'" "streaks s' = Some f'"
    "\<forall>k. k \<notin> src_id ` set xs \<longrightarrow> m' k = ?m k \<and> f' k = ?f k"
    "\<forall>z \<in> set xs. f' (src_id z) = next_streak (alive up z) (?f (src_id z)) \<and>
       (if pause_due threshold (alive up z) (?f (src_id z))
        then \<exists>y. m' (src_id z) = Some y \<and> paused (naive_source z) y
        else m' (src_id z) = ?m (src_id z))" by auto
  have rest: "f' (src_id z) = next_streak (alive up z) (f (src_id z)) \<and>
       (if pause_due threshold (alive up z) (f (src_id z))
        then \<exists>y. m' (src_id z) = Some y \<and> paused (naive_source z) y
        else m' (src_id z) = m (src_id z))" if "z \<in> set xs" for z
    using bspec [OF IH(5) that] other [OF that] by (simp split: if_splits)
  have "?k \<notin> src_id ` set xs" using Cons.prems(3) by simp
  with IH(4) have here: "m' ?k = ?m ?k" "f' ?k = ?f ?k" by auto
  then have first: "f' ?k = next_streak (alive up x) (f ?k) \<and>
       (if ?due then \<exists>y. m' ?k = Some y \<and> paused (naive_source x) y else m' ?k = m ?k)"
    using s1(3) by simp
  have frame: "m' k = m k \<and> f' k = f k" if "k \<notin> src_id ` set (x # xs)" for k
    using IH(4) that by auto
  show ?case
    using IH(1-3) s1(1) rest first frame by (intro exI [of _ s'] exI [of _ m'] exI [of _ f'])
      (auto simp: bindE_def)
qed auto

text \<open>One run: the active sources are probed, everything else is left alone.\<close>

lemma one_run:
  assumes "sources s = Some m" and "streaks s = Some f"
  shows "\<exists>s' m' f'. health_check_loop env threshold repo repo hrepo s = (Inr (), s') \<and>
    sources s' = Some m' \<and> streaks s' = Some f' \<and>
    (\<forall>k. (case m k of
        None \<Rightarrow> m' k = None \<and> f' k = f k
      | Some x \<Rightarrow>
          if src_status x \<noteq> ACTIVE then m' k = Some x \<and> f' k = f k
          else f' k = next_streak (alive up x) (f k) \<and>
            (if pause_due threshold (alive up x) (f k)
             then \<exists>y. m' k = Some y \<and> paused x y else m' k = Some x)))"
proof -
  obtain xs s1 where xs: "registry_active repo s = (Inr xs, s1)" "sources s1 = Some m"
      "distinct (map src_id xs)" "naive_source ` set xs = {x \<in> ran m. src_status x = ACTIVE}"
    using active_sources [OF assms(1)] by blast
  have f1: "streaks s1 = Some f"
    using source_frame(1) [OF assms(1) xs(1) [unfolded registry_active_def]] assms(2) by simp
  have known: "m (src_id x) = Some (naive_source x)" if "x \<in> set xs" for x
  proof -
    have "naive_source x \<in> ran m" using xs(4) that by blast
    then obtain k where k: "m k = Some (naive_source x)" by (auto simp: ran_def)
    with stored [OF assms(1) k] show ?thesis by simp
  qed
  obtain s' m' f' where r: "for_each (probe env threshold repo hrepo) xs s1 = (Inr (), s')"
    "sources s' = Some m'" "streaks s' = Some f'"
    "\<forall>k. k \<notin> src_id ` set xs \<longrightarrow> m' k = m k \<and> f' k = f k"
    "\<forall>x \<in> set xs. f' (src_id x) = next_streak (alive up x) (f (src_id x)) \<and>
       (if pause_due threshold (alive up x) (f (src_id x))
        then \<exists>y. m' (src_id x) = Some y \<and> paused (naive_source x) y
        else m' (src_id x) = m (src_id x))"
    using probes [OF xs(2) f1 xs(3) known] by blast
  have out: "k \<notin> src_id ` set xs" if "\<forall>x. m k = Some x \<longrightarrow> src_status x \<noteq> ACTIVE" for k
  proof
    assume "k \<in> src_id ` set xs"
    then obtain x where x: "x \<in> set xs" "k = src_id x" by blast
    then have "src_status (naive_source x) = ACTIVE" using xs(4) by blast
    with that known [OF x(1)] x(2) show False by simp
  qed
  have "in": "\<exists>z \<in> set xs. naive_source z = x \<and> src_id z = k" if "m k = Some x" "src_status x = ACTIVE" for k x
  proof -
    from that have "x \<in> naive_source ` set xs" using xs(4) by (auto intro: ranI)
    then obtain z where z: "z \<in> set xs" "naive_source z = x" by blast
    with stored [OF assms(1) that(1)] show ?thesis by auto
  qed
  have "case m k of
        None \<Rightarrow> m' k = None \<and> f' k = f k
      | Some x \<Rightarrow>
          if src_status x \<noteq> ACTIVE then m' k = Some x \<and> f' k = f k
          else f' k = next_streak (alive up x) (f k) \<and>
            (if pause_due threshold (alive up x) (f k)
             then \<exists>y. m' k = Some y \<and> paused x y else m' k = Some x)" for k
  proof (cases "m k")
    case None
    with out [of k] r(4) show ?thesis by simp
  next
    case (Some x)
    show ?thesis
    proof (cases "src_status x = ACTIVE")
      case True
      obtain z where z: "z \<in> set xs" "naive_source z = x" "src_id z = k"
        using "in" [OF Some True] by blast
      have "alive up z = alive up x" using z(2) alive_naive by metis
      from bspec [OF r(5) z(1), unfolded z(2,3) this] Some True show ?thesis by (simp split: if_splits)
    next
      case False
      with out [of k] r(4) Some show ?thesis by simp
    qed
  qed
  with r(1-3) xs(1) show ?thesis by (auto simp: health_check_loop_def bindE_def)
qed

end

section \<open>The loop on the SQLAlchemy repositories\<close>

locale health_tables =
  src: source_session sapi sview now + hlt: health_session hapi hview now
  for sapi :: "('s, source_row) session_api" and sview :: "'s \<Rightarrow> source_row set option"
    and hapi :: "('s, health_row) session_api" and hview :: "'s \<Rightarrow> health_row set option"
    and now :: "'s \<Rightarrow> datetime" +
  fixes env :: "'s health_env" and up :: "string \<Rightarrow> (string, string) dict option \<Rightarrow> bool"
  assumes fetch_verdict: "isl (fst (he_fetch env u h t s)) \<longleftrightarrow> \<not> up u h"
    and fetch_keeps: "sview (snd (he_fetch env u h t s)) = sview s"
      "hview (snd (he_fetch env u h t s)) = hview s"
    and separate: "shares_session sapi sview hview" "shares_session hapi hview sview"

sublocale health_tables \<subseteq> monitor: health_monitoring
  "SQLAlchemySourceRepository sapi now" "source_map sview" assignable
  "SQLAlchemySourceHealthRepository hapi now" "streak_map hview" env up
proof unfold_locales
  show "\<not> up u h" if "fst (he_fetch env u h t s) = Inl e" for u h t s e
    using fetch_verdict [of u h t s] that by simp
  show "up u h" if "fst (he_fetch env u h t s) = Inr r" for u h t s r
    using fetch_verdict [of u h t s] that by simp
  show "source_map sview (snd (he_fetch env u h t s)) = source_map sview s" for u h t s
    by (simp add: source_map_def fetch_keeps)
  show "streak_map hview (snd (he_fetch env u h t s)) = streak_map hview s" for u h t s
    by (simp add: streak_map_def fetch_keeps)
  show "source_map sview s' = source_map sview s" if "streak_map hview s = Some f"
    "hp_increment (SQLAlchemySourceHealthRepository hapi now) k msg s = (Inr n, s')" for s f k msg n s'
    using that hlt.health_shares(1) [OF separate(2)] by (auto simp: source_map_def streak_map_Some)
  show "source_map sview s' = source_map sview s" if "streak_map hview s = Some f"
    "hp_reset (SQLAlchemySourceHealthRepository hapi now) k s = (Inr (), s')" for s f k s'
    using that hlt.health_shares(2) [OF separate(2)] by (auto simp: source_map_def streak_map_Some)
  show "streak_map hview s' = streak_map hview s" if "source_map sview s = Some m"
    "sp_list (SQLAlchemySourceRepository sapi now) q s = (Inr xs, s')" for s m q xs s'
    using that src.source_list_shares [OF separate(1)]
    by (auto simp: source_map_Some streak_map_def SQLAlchemySourceRepository_def)
  show "streak_map hview s' = streak_map hview s" if "source_map sview s = Some m"
    "sp_update (SQLAlchemySourceRepository sapi now) x s = (Inr (), s')" for s m x s'
    using that src.source_update_shares [OF separate(1)]
    by (auto simp: source_map_Some streak_map_def SQLAlchemySourceRepository_def)
qed

context health_tables
begin

lemmas run = monitor.one_run

end

section \<open>Properties of a run\<close>

text \<open>
  One run of the health check, end to end.  On sessions that obey the SQL interface, with
  a fetcher that answers exactly the requests \<open>up\<close> accepts, the job finishes without raising
  and does for every source in one step what it promises: a source that is not active, or
  unknown, keeps its status and its streak; an active source that answers gets the streak zero
  and stays as it is; one that does not gets a streak one higher and is paused, with nothing
  else of it changed but \<open>updated_at\<close>, exactly when the new streak reaches the threshold.
\<close>

theorem health_run:
  assumes "health_tables sapi sview hapi hview env up"
    and "source_map sview s = Some m" and "streak_map hview s = Some f"
  shows "\<exists>s' m' f'.
    health_check_loop env threshold (SQLAlchemySourceRepository sapi now)
      (SQLAlchemySourceRepository sapi now) (SQLAlchemySourceHealthRepository hapi now) s = (Inr (), s') \<and>
    source_map sview s' = Some m' \<and> streak_map hview s' = Some f' \<and>
    (\<forall>k. case m k of
        None \<Rightarrow> m' k = None \<and> f' k = f k
      | Some x \<Rightarrow>
          if src_status x \<noteq> ACTIVE then m' k = Some x \<and> f' k = f k
          else f' k = (if alive up x then 0 else f k + 1) \<and>
            (if \<not> alive up x \<and> f k + 1 \<ge> int threshold
             then \<exists>t. m' k = Some (touched (src_created_at x) t (x\<lparr>src_status := PAUSED\<rparr>))
             else m' k = Some x))"
proof -
  obtain s' m' f' where r: "health_check_loop env threshold (SQLAlchemySourceRepository sapi now)
      (SQLAlchemySourceRepository sapi now) (SQLAlchemySourceHealthRepository hapi now) s = (Inr (), s')"
    "source_map sview s' = Some m'" "streak_map hview s' = Some f'"
    "\<forall>k. (case m k of
        None \<Rightarrow> m' k = None \<and> f' k = f k
      | Some x \<Rightarrow>
          if src_status x \<noteq> ACTIVE then m' k = Some x \<and> f' k = f k
          else f' k = next_streak (alive up x) (f k) \<and>
            (if pause_due threshold (alive up x) (f k)
             then \<exists>y. m' k = Some y \<and> paused x y else m' k = Some x))"
    using health_tables.run [OF assms, where threshold = threshold and now = now]
    by (elim exE conjE) (rule that)
  from health_round_explicit [OF r(4)] r(1-3) show ?thesis by blast
qed

text \<open>The in-memory tables side by side, with a fetcher that answers the URLs of a list.\<close>

type_synonym mem_tables = "source_row list option \<times> health_row list option"

definition demo_health_env :: "string list \<Rightarrow> mem_tables health_env" where
  "demo_health_env answered =
     \<lparr>he_fetch = (\<lambda>u h t s.
        (if u \<in> set answered
         then Inr \<lparr>res_url = u, res_status_code = 200, res_body = [], res_headers = [], res_elapsed_ms = 1\<rparr>
         else Inl (Exn SourceUnavailableError ''down''), s)),
      he_monotonic = (\<lambda>_. 0), he_now = (\<lambda>_. sample_time)\<rparr>"

abbreviation demo_source_port :: "mem_tables source_port" where
  "demo_source_port \<equiv> SQLAlchemySourceRepository (on_fst mem_sources) (\<lambda>_. sample_time)"

abbreviation demo_health_port :: "mem_tables health_port" where
  "demo_health_port \<equiv> SQLAlchemySourceHealthRepository (on_snd mem_health) (\<lambda>_. sample_time)"

interpretation mem_tables: health_tables
  "on_fst mem_sources" "\<lambda>s. mem_sources_view (fst s)" "on_snd mem_health" "\<lambda>s. mem_health_view (snd s)"
  "\<lambda>_. sample_time" "demo_health_env answered" "\<lambda>u h. u \<in> set answered" for answered
proof (intro health_tables.intro health_tables_axioms.intro)
  show "source_session (on_fst mem_sources) (\<lambda>s :: mem_tables. mem_sources_view (fst s))"
    unfolding source_session_def by (rule sql_session_on_fst) (rule source_table.mem.sql_session_axioms)
  show "health_session (on_snd mem_health) (\<lambda>s :: mem_tables. mem_health_view (snd s))"
    unfolding health_session_def by (rule sql_session_on_snd) (rule health_table.mem.sql_session_axioms)
  show "shares_session (on_fst mem_sources) (\<lambda>s :: mem_tables. mem_sources_view (fst s)) (\<lambda>s. mem_health_view (snd s))"
    by (rule session_frame_shares) (rule session_frame_on_fst)
  show "shares_session (on_snd mem_health) (\<lambda>s :: mem_tables. mem_health_view (snd s)) (\<lambda>s. mem_sources_view (fst s))"
    by (rule session_frame_shares) (rule session_frame_on_snd)
qed (simp_all add: demo_health_env_def)

theorem health_run_witness:
  "\<exists>s' m'. health_check_loop (demo_health_env []) 1 demo_source_port demo_source_port demo_health_port
      (Some [source_row_of (sample_source ''a'')], Some []) = (Inr (), s') \<and>
    source_map (\<lambda>s. mem_sources_view (fst s)) s' = Some m' \<and>
    map_option src_status (m' ''a'') = Some PAUSED"
proof -
  let ?s = "(Some [source_row_of (sample_source ''a'')], Some []) :: mem_tables"
  obtain m where "source_map mem_sources_view (Some [source_row_of (sample_source ''a'')]) = Some m"
      "m ''a'' = Some (naive_source (sample_source ''a''))"
    using mem_source_map [of "[sample_source ''a'']"] by auto
  then have m: "source_map (\<lambda>s :: mem_tables. mem_sources_view (fst s)) ?s = Some m"
      "m ''a'' = Some (naive_source (sample_source ''a''))" by (simp_all add: source_map_def)
  have f: "streak_map (\<lambda>s :: mem_tables. mem_health_view (snd s)) ?s = Some (\<lambda>_. 0)"
    by (simp add: streak_map_Some mem_view_eq_Some mem_ok_def)
  obtain s' m' and f' :: "string \<Rightarrow> int" where r:
    "health_check_loop (demo_health_env []) 1 demo_source_port demo_source_port demo_health_port ?s = (Inr (), s')"
    "source_map (\<lambda>s. mem_sources_view (fst s)) s' = Some m'"
    "\<forall>k. case m k of
        None \<Rightarrow> m' k = None \<and> f' k = 0
      | Some x \<Rightarrow>
          if src_status x \<noteq> ACTIVE then m' k = Some x \<and> f' k = 0
          else f' k = (if alive (\<lambda>u h. u \<in> set []) x then 0 else 0 + 1) \<and>
            (if \<not> alive (\<lambda>u h. u \<in> set []) x \<and> 0 + 1 \<ge> int 1
             then \<exists>t. m' k = Some (touched (src_created_at x) t (x\<lparr>src_status := PAUSED\<rparr>))
             else m' k = Some x)"
    using health_run [OF mem_tables.health_tables_axioms [of "[]"] m(1) f, where threshold = 1 and now = "\<lambda>_. sample_time"]
    by (elim exE conjE) (rule that)
  from spec [OF r(3), of "''a''"] m(2) have "map_option src_status (m' ''a'') = Some PAUSED"
    by (auto simp: alive_def)
  with r(1,2) show ?thesis by blast
qed

end
