(* ===== verification/ProgramRepository.thy ===== *)
theory ProgramRepository
  imports Session
begin

text \<open>
  \<open>infrastructure/persistence/program_repository_impl.py\<close> over the row of
  \<open>models.ProgramRow\<close>, and the interface \<open>program_repository\<close> of
  \<open>domain/ports/program_repository.py\<close> that the aggregation relies on.  The interface
  speaks of the catalogue, a map from identity keys to title, sources and version; its
  interpretation on the SQLAlchemy repository is the sublocale at the end.
\<close>

section \<open>Rows\<close>

record program_row =
  prow_id :: string
  prow_title :: string
  prow_description :: "string option"
  prow_channel_id :: string
  prow_channel_name :: string
  prow_channel_logo :: "string option"
  prow_channel_country :: "string option"
  prow_channel_language :: "string option"
  prow_start_at :: datetime
  prow_end_at :: datetime
  prow_timezone :: string
  prow_tags :: "json list"
  prow_source_ids :: "string list"
  prow_identity_key :: string
  prow_version :: int
  prow_created_at :: datetime
  prow_updated_at :: datetime

definition program_clash :: "program_row \<Rightarrow> program_row \<Rightarrow> bool" where
  "program_clash r r' \<longleftrightarrow> prow_id r = prow_id r' \<or> prow_identity_key r = prow_identity_key r'"

definition program_store :: "program_row \<Rightarrow> program_row" where
  "program_store r =
     r\<lparr>prow_start_at := naive (prow_start_at r), prow_end_at := naive (prow_end_at r),
       prow_created_at := naive (prow_created_at r), prow_updated_at := naive (prow_updated_at r)\<rparr>"

lemma program_store_simps [simp]:
  "prow_id (program_store r) = prow_id r" "prow_title (program_store r) = prow_title r"
  "prow_tags (program_store r) = prow_tags r"
  "prow_source_ids (program_store r) = prow_source_ids r"
  "prow_identity_key (program_store r) = prow_identity_key r"
  "prow_version (program_store r) = prow_version r"
  "prow_channel_id (program_store r) = prow_channel_id r"
  "prow_channel_name (program_store r) = prow_channel_name r"
  "prow_channel_logo (program_store r) = prow_channel_logo r"
  "prow_start_at (program_store r) = naive (prow_start_at r)"
  by (simp_all add: program_store_def)

interpretation program_table: sql_table prow_id program_clash program_store
  by unfold_locales (auto simp: program_clash_def program_store_def)

section \<open>The mapping between rows and programmes\<close>

definition tag_of_json :: "(json \<Rightarrow> string) \<Rightarrow> json \<Rightarrow> tag option" where
  "tag_of_json pyrepr t =
     (case t of
        JObj d \<Rightarrow>
          (case (map_of d ''label'', map_of d ''category'') of
             (Some l, Some c) \<Rightarrow> Some (Tag (py_str pyrepr l) (py_str pyrepr c))
           | _ \<Rightarrow> None)
      | _ \<Rightarrow> None)"

definition tag_dump :: "tag \<Rightarrow> json" where
  "tag_dump t = JObj [(''label'', JStr (label t)), (''category'', JStr (category t))]"

lemma tag_of_json_dump [simp]: "tag_of_json pyrepr (tag_dump t) = Some t"
  by (simp add: tag_of_json_def tag_dump_def)

lemma map_filter_tag_dump [simp]: "List.map_filter (tag_of_json pyrepr) (map tag_dump ts) = ts"
  by (induction ts) (simp_all add: List.map_filter_def)

record repo_env =
  http_url :: "string \<Rightarrow> string option"
  pyrepr :: "json \<Rightarrow> string"

definition program_to_domain :: "repo_env \<Rightarrow> program_row \<Rightarrow> exn + tv_program" where
  "program_to_domain env r =
     (let tag_models = List.map_filter (tag_of_json (pyrepr env)) (prow_tags r) in
      case optional_url (http_url env) (prow_channel_logo r) of
        Inl e \<Rightarrow> Inl e
      | Inr logo \<Rightarrow>
          (let c = \<lparr>channel_id = prow_channel_id r, channel_name = prow_channel_name r,
                    logo_url = logo, country = prow_channel_country r,
                    language = prow_channel_language r\<rparr>;
               p = \<lparr>prog_id = Some (prow_id r), title = prow_title r,
                    description = prow_description r, channel = c,
                    slot = \<lparr>slot_start = prow_start_at r, slot_end = prow_end_at r,
                            slot_timezone = prow_timezone r\<rparr>,
                    tags = tag_models, source_ids = prow_source_ids r,
                    identity_key = prow_identity_key r, created_at = prow_created_at r,
                    updated_at = prow_updated_at r, version = prow_version r\<rparr>
           in case validated (channel_ok c) c of
                Inl e \<Rightarrow> Inl e | Inr _ \<Rightarrow> validated (program_ok p) p))"

definition program_from_domain :: "tv_program \<Rightarrow> program_row" where
  "program_from_domain p =
     \<lparr>prow_id = (case prog_id p of None \<Rightarrow> [] | Some i \<Rightarrow> i), prow_title = title p,
      prow_description = description p,
      prow_channel_id = channel_id (channel p), prow_channel_name = channel_name (channel p),
      prow_channel_logo = str_or_none (logo_url (channel p)),
      prow_channel_country = country (channel p),
      prow_channel_language = language (channel p),
      prow_start_at = slot_start (slot p), prow_end_at = slot_end (slot p),
      prow_timezone = slot_timezone (slot p),
      prow_tags = map tag_dump (tags p), prow_source_ids = source_ids p,
      prow_identity_key = identity_key p, prow_version = version p,
      prow_created_at = created_at p, prow_updated_at = updated_at p\<rparr>"

section \<open>The repository's operations\<close>

definition updated_row :: "datetime \<Rightarrow> tv_program \<Rightarrow> program_row \<Rightarrow> program_row" where
  "updated_row now p r =
     r\<lparr>prow_title := title p, prow_description := description p,
       prow_start_at := slot_start (slot p), prow_end_at := slot_end (slot p),
       prow_tags := map tag_dump (tags p),
       prow_source_ids := sorted_set (prow_source_ids r @ source_ids p),
       prow_version := prow_version r + 1, prow_updated_at := now\<rparr>"

definition by_identity :: "string \<Rightarrow> program_row query" where
  "by_identity k = q_where (\<lambda>r. prow_identity_key r = k) select_all"

definition upsert ::
  "('s, program_row) session_api \<Rightarrow> repo_env \<Rightarrow> ('s \<Rightarrow> datetime) \<Rightarrow> tv_program \<Rightarrow>
   ('s, tv_program) eff" where
  "upsert api env now p =
     bindE (exec_select api (by_identity (identity_key p))) (\<lambda>rows.
     bindE (pure_eff (scalar_one_or_none rows)) (\<lambda>existing.
       case existing of
         Some r \<Rightarrow> (\<lambda>s.
           let r' = updated_row (now s) p r in
           bindE (flush api) (\<lambda>_. pure_eff (program_to_domain env r')) (set_row api r' s))
       | None \<Rightarrow> (\<lambda>s.
           let row = program_from_domain p in
           bindE (flush api) (\<lambda>_. pure_eff (program_to_domain env row)) (add_row api row s))))"

definition find_by_identity ::
  "('s, program_row) session_api \<Rightarrow> repo_env \<Rightarrow> string \<Rightarrow> ('s, tv_program option) eff" where
  "find_by_identity api env k =
     bindE (exec_select api (by_identity k)) (\<lambda>rows.
     bindE (pure_eff (scalar_one_or_none rows)) (\<lambda>row.
       case row of
         None \<Rightarrow> ret None
       | Some r \<Rightarrow> bindE (pure_eff (program_to_domain env r)) (\<lambda>p. ret (Some p))))"

text \<open>The columns are compared by wall clock; an empty \<open>channel_id\<close> counts as absent.\<close>

definition range_query :: "datetime \<Rightarrow> datetime \<Rightarrow> string option \<Rightarrow> program_row query" where
  "range_query start end' chan =
     (let stmt = q_where (\<lambda>r. dt_wall start \<le> dt_wall (prow_start_at r) \<and>
                             dt_wall (prow_start_at r) < dt_wall end') select_all
      in case chan of
           None \<Rightarrow> stmt
         | Some c \<Rightarrow> if c = [] then stmt else q_where (\<lambda>r. prow_channel_id r = c) stmt)"

definition list_by_range ::
  "('s, program_row) session_api \<Rightarrow> repo_env \<Rightarrow> datetime \<Rightarrow> datetime \<Rightarrow> string option \<Rightarrow>
   ('s, tv_program list) eff" where
  "list_by_range api env start end' chan =
     bindE (exec_select api (range_query start end' chan)) (\<lambda>rows.
       pure_eff (traverse (program_to_domain env) rows))"

definition count :: "('s, program_row) session_api \<Rightarrow> ('s, nat) eff" where
  "count api = bindE (exec_select api select_all) (\<lambda>rows. ret (length rows))"

text \<open>What the session's calls leave alone, the repository's leave alone.\<close>

lemma upsert_frame:
  assumes "session_frame api v"
  shows "v (snd (upsert api env now p s)) = v s"
proof -
  have fl: "v (snd (bindE (flush api) (\<lambda>_. pure_eff y) s)) = v s" for y :: "exn + tv_program" and s
    by (rule snd_bindE) (simp_all add: session_frame_simps [OF assms])
  show ?thesis
    unfolding upsert_def
    by (intro snd_bindE) (auto simp: Let_def fl session_frame_simps [OF assms] split: option.splits)
qed

section \<open>The repository port\<close>

text \<open>
  What a client of the port relies on.  \<open>stored\<close> is the catalogue a state stands for:
  title, sources and version by identity key.
\<close>

definition summary :: "tv_program \<Rightarrow> string \<times> string list \<times> int" where
  "summary p = (title p, source_ids p, version p)"

locale program_repository =
  fixes upsert :: "tv_program \<Rightarrow> ('s, tv_program) eff"
    and find :: "string \<Rightarrow> ('s, tv_program option) eff"
    and stored :: "'s \<Rightarrow> (string \<rightharpoonup> string \<times> string list \<times> int) option"
  assumes upsert_known: "stored s = Some m \<Longrightarrow> m (identity_key p) = Some (t, ids, v) \<Longrightarrow> program_ok p \<Longrightarrow>
      \<exists>q s'. upsert p s = (Inr q, s') \<and> summary q = (title p, sorted_set (ids @ source_ids p), v + 1) \<and>
        stored s' = Some (m(identity_key p \<mapsto> summary q))"
    and upsert_new: "stored s = Some m \<Longrightarrow> m (identity_key p) = None \<Longrightarrow> upsert p s = (Inr q, s') \<Longrightarrow>
      summary q = summary p \<and> stored s' = Some (m(identity_key p \<mapsto> summary p))"
    and find: "stored s = Some m \<Longrightarrow>
      \<exists>x s'. find k s = (Inr x, s') \<and> stored s' = Some m \<and> map_option summary x = m k"
begin

lemma find_after_upsert:
  assumes "stored s = Some m" and "upsert p s = (Inr q, s')" and "program_ok p"
  shows "\<exists>x s''. find (identity_key p) s' = (Inr (Some x), s'') \<and> summary x = summary q"
proof -
  have "stored s' = Some (m(identity_key p \<mapsto> summary q))"
  proof (cases "m (identity_key p)")
    case None
    with upsert_new [OF assms(1) None assms(2)] show ?thesis by simp
  next
    case (Some e)
    obtain t ids v where e: "e = (t, ids, v)" using prod_cases3 by metis
    from upsert_known [OF assms(1) Some [unfolded e] assms(3)] assms(2) show ?thesis by auto
  qed
  from find [OF this, of "identity_key p"] show ?thesis by auto
qed

text \<open>Saving a known programme again and again never fails and counts every time.\<close>

lemma repeated_upsert:
  assumes "stored s = Some m" and "m (identity_key p) = Some (t, ids, v)" and "program_ok p"
  shows "\<exists>s'. ((\<lambda>s. snd (upsert p s)) ^^ n) s = s' \<and>
    (\<exists>m'. stored s' = Some m' \<and> (\<exists>t' ids'. m' (identity_key p) = Some (t', ids', v + int n)))"
proof (induction n)
  case (Suc n)
  then obtain m' t' ids' where m': "stored (((\<lambda>s. snd (upsert p s)) ^^ n) s) = Some m'"
      "m' (identity_key p) = Some (t', ids', v + int n)" by auto
  from upsert_known [OF m' assms(3)] obtain q s1 where
      "upsert p (((\<lambda>s. snd (upsert p s)) ^^ n) s) = (Inr q, s1)"
      "summary q = (title p, sorted_set (ids' @ source_ids p), v + int n + 1)"
      "stored s1 = Some (m'(identity_key p \<mapsto> summary q))" by blast
  then show ?case by (simp add: add.assoc)
qed (use assms in auto)

end

section \<open>The SQLAlchemy repository implements the port\<close>

abbreviation row_valid :: "repo_env \<Rightarrow> program_row \<Rightarrow> bool" where
  "row_valid env r \<equiv> \<not> isl (program_to_domain env r)"

definition row_summary :: "program_row \<Rightarrow> string \<times> string list \<times> int" where
  "row_summary r = (prow_title r, prow_source_ids r, prow_version r)"

definition catalogue ::
  "repo_env \<Rightarrow> ('s \<Rightarrow> program_row set option) \<Rightarrow> 's \<Rightarrow> (string \<rightharpoonup> string \<times> string list \<times> int) option" where
  "catalogue env view s =
     (case view s of
        None \<Rightarrow> None
      | Some S \<Rightarrow>
          if \<forall>r \<in> S. row_valid env r
          then Some (keyed prow_identity_key row_summary S)
          else None)"

lemma program_to_domain_Inr:
  "program_to_domain env r = Inr p \<Longrightarrow>
     summary p = row_summary r \<and> identity_key p = prow_identity_key r \<and> program_ok p"
  by (auto simp: program_to_domain_def summary_def row_summary_def Let_def program_ok_def
      split: sum.splits)

lemma row_valid_iff:
  "row_valid env r \<longleftrightarrow>
     \<not> isl (optional_url (http_url env) (prow_channel_logo r)) \<and>
     str_between 1 64 (prow_channel_id r) \<and> str_between 1 255 (prow_channel_name r) \<and>
     str_between 1 512 (prow_title r)"
  by (auto simp: program_to_domain_def Let_def channel_ok_def program_ok_def validated_def
      split: sum.splits)

lemma row_validE:
  assumes "row_valid env r"
  obtains q where "program_to_domain env r = Inr q"
  using assms by (cases "program_to_domain env r") auto

lemma row_valid_store [simp]: "row_valid env (program_store r) \<longleftrightarrow> row_valid env r"
  by (simp add: row_valid_iff)

lemma row_valid_updated: "row_valid env r \<Longrightarrow> program_ok p \<Longrightarrow> row_valid env (updated_row now p r)"
  by (simp add: row_valid_iff updated_row_def program_ok_def)

lemma updated_row_simps [simp]:
  "prow_id (updated_row now p r) = prow_id r"
  "prow_identity_key (updated_row now p r) = prow_identity_key r"
  "row_summary (updated_row now p r) =
     (title p, sorted_set (prow_source_ids r @ source_ids p), prow_version r + 1)"
  by (simp_all add: updated_row_def row_summary_def)

lemma row_summary_store [simp]: "row_summary (program_store r) = row_summary r"
  by (simp add: row_summary_def)

lemma from_domain_simps [simp]:
  "prow_identity_key (program_from_domain p) = identity_key p"
  "prow_id (program_from_domain p) = (case prog_id p of None \<Rightarrow> [] | Some i \<Rightarrow> i)"
  "row_summary (program_from_domain p) = summary p"
  by (simp_all add: program_from_domain_def row_summary_def summary_def)

lemma where_by_identity [simp]:
  "where_clause (by_identity k) r \<longleftrightarrow> prow_identity_key r = k" "row_limit (by_identity k) = None"
  by (simp_all add: by_identity_def)

locale program_session =
  sql_session prow_id program_clash program_store api view
  for api :: "('s, program_row) session_api" and view :: "'s \<Rightarrow> program_row set option" +
  fixes env :: repo_env and now :: "'s \<Rightarrow> datetime"
begin

lemma identity_unique:
  "view s = Some S \<Longrightarrow> r \<in> S \<Longrightarrow> r' \<in> S \<Longrightarrow> prow_identity_key r = prow_identity_key r' \<Longrightarrow> r = r'"
  using view_ok by (force simp: table_ok_def program_clash_def)

lemma select_identity:
  assumes "view s = Some S"
  obtains x xs s' where "exec_select api (by_identity k) s = (Inr xs, s')" "view s' = Some S"
    "scalar_one_or_none xs = Inr x"
    "case x of None \<Rightarrow> \<forall>r \<in> S. prow_identity_key r \<noteq> k
     | Some r \<Rightarrow> program_store r \<in> S \<and> prow_identity_key r = k"
proof -
  have u: "\<And>r r'. r \<in> S \<Longrightarrow> r' \<in> S \<Longrightarrow> where_clause (by_identity k) r \<Longrightarrow>
      where_clause (by_identity k) r' \<Longrightarrow> r = r'"
    using identity_unique [OF assms] by simp
  show thesis
    by (rule select_one [OF assms where_by_identity(2) u]) (use that in \<open>auto split: option.splits\<close>)
qed

lemma upsert_existing:
  assumes "view s = Some S" "r0 \<in> S" "prow_identity_key r0 = identity_key p"
  shows "\<exists>r s1 s'. program_store r = r0 \<and>
    upsert api env now p s = (program_to_domain env (updated_row (now s1) p r), s') \<and>
    view s' = Some (insert (program_store (updated_row (now s1) p r)) (S - {r0}))"
proof -
  obtain x xs s1 where s1: "exec_select api (by_identity (identity_key p)) s = (Inr xs, s1)"
      "view s1 = Some S" "scalar_one_or_none xs = Inr x"
      "case x of None \<Rightarrow> \<forall>r \<in> S. prow_identity_key r \<noteq> identity_key p
       | Some r \<Rightarrow> program_store r \<in> S \<and> prow_identity_key r = identity_key p"
    using select_identity [OF assms(1)] by blast
  from s1(4) assms(2,3) obtain r where r: "x = Some r" "program_store r \<in> S"
      "prow_identity_key r = identity_key p" by (cases x) auto
  have eq: "program_store r = r0"
    using identity_unique [OF assms(1) r(2) assms(2)] r(3) assms(3) by simp
  let ?r' = "updated_row (now s1) p r"
  have "view (set_row api ?r' s1) = Some (insert (program_store ?r') (S - {r0}))"
    by (rule assign [OF s1(2) assms(2)]) (auto simp: program_clash_def eq [symmetric])
  from flush_ok [OF this] obtain s' where s': "flush api (set_row api ?r' s1) = (Inr (), s')"
      "view s' = Some (insert (program_store ?r') (S - {r0}))" by blast
  have "upsert api env now p s = (program_to_domain env ?r', s')"
    by (simp add: upsert_def bindE_def s1(1,3) r(1) s'(1) Let_def)
  with s'(2) eq show ?thesis by blast
qed

lemma upsert_missing:
  assumes "view s = Some S" "\<And>r. r \<in> S \<Longrightarrow> prow_identity_key r \<noteq> identity_key p"
  defines "row \<equiv> program_from_domain p"
  shows "if \<exists>r \<in> S. prow_id r = prow_id row
    then \<exists>e s'. upsert api env now p s = (Inl e, s') \<and> exc e = IntegrityError
    else \<exists>s'. upsert api env now p s = (program_to_domain env row, s') \<and>
           view s' = Some (insert (program_store row) S)"
proof -
  obtain x xs s1 where s1: "exec_select api (by_identity (identity_key p)) s = (Inr xs, s1)"
      "view s1 = Some S" "scalar_one_or_none xs = Inr x"
      "case x of None \<Rightarrow> \<forall>r \<in> S. prow_identity_key r \<noteq> identity_key p
       | Some r \<Rightarrow> program_store r \<in> S \<and> prow_identity_key r = identity_key p"
    using select_identity [OF assms(1)] by blast
  have x: "x = None"
  proof (cases x)
    case (Some r)
    with s1(4) assms(2) [of "program_store r"] show ?thesis by simp
  qed simp
  have go: "upsert api env now p s =
      bindE (flush api) (\<lambda>_. pure_eff (program_to_domain env row)) (add_row api row s1)"
    by (simp add: upsert_def bindE_def s1(1,3) x row_def Let_def)
  have clash: "(\<exists>r \<in> S. program_clash row r) \<longleftrightarrow> (\<exists>r \<in> S. prow_id r = prow_id row)"
    using assms(2) by (auto simp: program_clash_def row_def eq_commute)
  show ?thesis
  proof (cases "\<exists>r \<in> S. prow_id r = prow_id row")
    case True
    with clash obtain r' where "r' \<in> S" "program_clash row r'" by blast
    from conflict [OF s1(2) this] True show ?thesis by (auto simp: go bindE_def)
  next
    case False
    with clash have "view (add_row api row s1) = Some (insert (program_store row) S)"
      using add [OF s1(2), of row] by simp
    from flush_ok [OF this] False show ?thesis by (auto simp: go bindE_def)
  qed
qed

text \<open>An upsert that succeeds leaves the other tables of its session alone.\<close>

lemma upsert_shares:
  assumes v: "shares_session api view v" and s: "view s = Some S"
    and up: "upsert api env now p s = (Inr q, s')"
  shows "v s' = v s"
proof -
  obtain x xs s1 where s1: "exec_select api (by_identity (identity_key p)) s = (Inr xs, s1)"
      "view s1 = Some S" "scalar_one_or_none xs = Inr x"
      "case x of None \<Rightarrow> \<forall>r \<in> S. prow_identity_key r \<noteq> identity_key p
       | Some r \<Rightarrow> program_store r \<in> S \<and> prow_identity_key r = identity_key p"
    using select_identity [OF s] by blast
  note v1 = shares_sessionD(1) [OF v s s1(1)]
  have flushed: "v s' = v s" if t: "view t = Some T" "v t = v s"
    "upsert api env now p s = bindE (flush api) (\<lambda>_. pure_eff y) t" for t T y
  proof -
    obtain s2 where s2: "flush api t = (Inr (), s2)" using flush_ok [OF t(1)] by blast
    with up t(3) have "s' = s2" by (simp add: bindE_def)
    with shares_sessionD(5) [OF v t(1) s2] t(2) show ?thesis by simp
  qed
  show ?thesis
  proof (cases x)
    case None
    let ?row = "program_from_domain p"
    have go: "upsert api env now p s =
        bindE (flush api) (\<lambda>_. pure_eff (program_to_domain env ?row)) (add_row api ?row s1)"
      by (simp add: upsert_def bindE_def s1(1,3) None Let_def)
    have "\<not> (\<exists>r' \<in> S. program_clash ?row r')"
    proof
      assume "\<exists>r' \<in> S. program_clash ?row r'"
      then obtain e s2 where "flush api (add_row api ?row s1) = (Inl e, s2)" using conflict [OF s1(2)] by blast
      with up go show False by (simp add: bindE_def)
    qed
    then have t: "view (add_row api ?row s1) = Some (insert (program_store ?row) S)"
      using add [OF s1(2), of ?row] by simp
    show ?thesis using flushed [OF t _ go] shares_sessionD(3) [OF v s1(2) t] v1 by simp
  next
    case (Some r)
    let ?r' = "updated_row (now s1) p r"
    have r: "program_store r \<in> S" using s1(4) Some by simp
    have t: "view (set_row api ?r' s1) = Some (insert (program_store ?r') (S - {program_store r}))"
      by (rule assign [OF s1(2) r]) (auto simp: program_clash_def)
    have go: "upsert api env now p s =
        bindE (flush api) (\<lambda>_. pure_eff (program_to_domain env ?r')) (set_row api ?r' s1)"
      by (simp add: upsert_def bindE_def s1(1,3) Some Let_def)
    show ?thesis using flushed [OF t _ go] shares_sessionD(4) [OF v s1(2) t] v1 by simp
  qed
qed

end

lemma catalogue_Some:
  "catalogue env view s = Some m \<longleftrightarrow>
     (\<exists>S. view s = Some S \<and> (\<forall>r \<in> S. row_valid env r) \<and>
        m = keyed prow_identity_key row_summary S)"
  by (auto simp: catalogue_def split: option.splits)

context program_session
begin

lemma inj_identity: "view s = Some S \<Longrightarrow> inj_on prow_identity_key S"
  using identity_unique by (blast intro: inj_onI)

text \<open>A key outside the catalogue has no row; a key in it has exactly one.\<close>

lemma catalogue_row:
  assumes "catalogue env view s = Some m"
  obtains S where "view s = Some S" "\<forall>r \<in> S. row_valid env r"
    "m = keyed prow_identity_key row_summary S"
    "case m k of None \<Rightarrow> \<forall>r \<in> S. prow_identity_key r \<noteq> k
     | Some e \<Rightarrow> \<exists>r \<in> S. prow_identity_key r = k \<and> row_summary r = e"
proof -
  from assms obtain S where S: "view s = Some S" "\<forall>r \<in> S. row_valid env r"
      "m = keyed prow_identity_key row_summary S" by (auto simp: catalogue_Some)
  have "case m k of None \<Rightarrow> \<forall>r \<in> S. prow_identity_key r \<noteq> k
     | Some e \<Rightarrow> \<exists>r \<in> S. prow_identity_key r = k \<and> row_summary r = e"
    using keyed_SomeE [OF _ inj_identity [OF S(1)]]
    by (fastforce simp: S(3) keyed_None split: option.splits)
  with S that show thesis by blast
qed

lemma catalogue_replace:
  assumes "catalogue env view s = Some m" "view s = Some S" "r0 \<in> S" "row_valid env r"
    and "prow_identity_key r = prow_identity_key r0" "view s' = Some (insert r (S - {r0}))"
  shows "catalogue env view s' = Some (m(prow_identity_key r0 \<mapsto> row_summary r))"
  using assms keyed_replace [OF inj_identity [OF assms(2)] assms(3,5), of row_summary]
  by (auto simp: catalogue_Some)

lemma catalogue_insert:
  assumes "catalogue env view s = Some m" "m (prow_identity_key r) = None" "view s = Some S"
    and "row_valid env r" "view s' = Some (insert r S)"
  shows "catalogue env view s' = Some (m(prow_identity_key r \<mapsto> row_summary r))"
  using assms keyed_insert [OF inj_identity [OF assms(3)], of r row_summary]
  by (auto simp: catalogue_Some keyed_None)

end

sublocale program_session \<subseteq> repo: program_repository
  "upsert api env now" "find_by_identity api env" "catalogue env view"
proof unfold_locales
  fix s m and p :: tv_program and t ids v
  assume a: "catalogue env view s = Some m" "m (identity_key p) = Some (t, ids, v)" "program_ok p"
  obtain S where S: "view s = Some S" "\<forall>r \<in> S. row_valid env r"
      "m = keyed prow_identity_key row_summary S"
      "case m (identity_key p) of None \<Rightarrow> \<forall>r \<in> S. prow_identity_key r \<noteq> identity_key p
       | Some e \<Rightarrow> \<exists>r \<in> S. prow_identity_key r = identity_key p \<and> row_summary r = e"
    by (rule catalogue_row [OF a(1), of "identity_key p"])
  from S(4) a(2) obtain r0 where r0: "r0 \<in> S" "prow_identity_key r0 = identity_key p"
      "row_summary r0 = (t, ids, v)" by auto
  obtain r s1 s' where u: "program_store r = r0"
      "upsert api env now p s = (program_to_domain env (updated_row (now s1) p r), s')"
      "view s' = Some (insert (program_store (updated_row (now s1) p r)) (S - {r0}))"
    using upsert_existing [OF S(1) r0(1,2)] by blast
  let ?r' = "updated_row (now s1) p r"
  have val: "row_valid env ?r'"
    using row_valid_updated [OF _ a(3)] bspec [OF S(2) r0(1)] u(1) row_valid_store by metis
  then obtain q where q: "program_to_domain env ?r' = Inr q" by (rule row_validE)
  note sq = program_to_domain_Inr [OF q]
  have "catalogue env view s' = Some (m(prow_identity_key r0 \<mapsto> row_summary (program_store ?r')))"
    by (rule catalogue_replace [OF a(1) S(1) r0(1) _ _ u(3)]) (use val u(1) in auto)
  moreover have "row_summary r = (t, ids, v)" using r0(3) u(1) by (metis row_summary_store)
  then have "prow_source_ids r = ids" "prow_version r = v" by (simp_all add: row_summary_def)
  ultimately show "\<exists>q s'. upsert api env now p s = (Inr q, s') \<and>
      summary q = (title p, sorted_set (ids @ source_ids p), v + 1) \<and>
      catalogue env view s' = Some (m(identity_key p \<mapsto> summary q))"
    using u(2) q sq r0(2) by auto
next
  fix s m and p q :: tv_program and s'
  assume a: "catalogue env view s = Some m" "m (identity_key p) = None"
    "upsert api env now p s = (Inr q, s')"
  obtain S where S: "view s = Some S" "\<forall>r \<in> S. row_valid env r"
      "m = keyed prow_identity_key row_summary S"
      "case m (identity_key p) of None \<Rightarrow> \<forall>r \<in> S. prow_identity_key r \<noteq> identity_key p
       | Some e \<Rightarrow> \<exists>r \<in> S. prow_identity_key r = identity_key p \<and> row_summary r = e"
    by (rule catalogue_row [OF a(1), of "identity_key p"])
  let ?row = "program_from_domain p"
  have u: "program_to_domain env ?row = Inr q" "view s' = Some (insert (program_store ?row) S)"
    using upsert_missing [OF S(1), of p] S(4) a(2,3) by (auto split: if_splits)
  have "catalogue env view s' =
      Some (m(prow_identity_key (program_store ?row) \<mapsto> row_summary (program_store ?row)))"
    by (rule catalogue_insert [OF a(1) _ S(1) _ u(2)]) (use a(2) u(1) in auto)
  with program_to_domain_Inr [OF u(1)]
  show "summary q = summary p \<and> catalogue env view s' = Some (m(identity_key p \<mapsto> summary p))" by simp
next
  fix s m k assume a: "catalogue env view s = Some m"
  obtain S where S: "view s = Some S" "\<forall>r \<in> S. row_valid env r"
      "m = keyed prow_identity_key row_summary S"
      "case m k of None \<Rightarrow> \<forall>r \<in> S. prow_identity_key r \<noteq> k
       | Some e \<Rightarrow> \<exists>r \<in> S. prow_identity_key r = k \<and> row_summary r = e"
    by (rule catalogue_row [OF a, of k])
  obtain x xs s1 where s1: "exec_select api (by_identity k) s = (Inr xs, s1)" "view s1 = Some S"
      "scalar_one_or_none xs = Inr x"
      "case x of None \<Rightarrow> \<forall>r \<in> S. prow_identity_key r \<noteq> k
       | Some r \<Rightarrow> program_store r \<in> S \<and> prow_identity_key r = k"
    using select_identity [OF S(1)] by blast
  have c: "catalogue env view s1 = Some m" using a S(1) s1(2) by (simp add: catalogue_def)
  show "\<exists>x s'. find_by_identity api env k s = (Inr x, s') \<and> catalogue env view s' = Some m \<and>
      map_option summary x = m k"
  proof (cases x)
    case None
    with s1(4) S(4) have "m k = None" by (auto split: option.splits)
    with None c show ?thesis by (simp add: find_by_identity_def bindE_def s1(1,3))
  next
    case (Some r)
    with s1(4) have r: "program_store r \<in> S" "prow_identity_key r = k" by auto
    then have "row_valid env r" using bspec [OF S(2) r(1)] by simp
    then obtain q where q: "program_to_domain env r = Inr q" by (rule row_validE)
    have "m k = Some (row_summary (program_store r))"
      using keyed_at [OF inj_identity [OF S(1)] r(1), of row_summary] r(2) by (simp add: S(3))
    with program_to_domain_Inr [OF q] Some c q show ?thesis
      by (simp add: find_by_identity_def bindE_def s1(1,3))
  qed
qed

context program_session
begin

lemma port: "program_repository (upsert api env now) (find_by_identity api env) (catalogue env view)"
  by unfold_locales

end

section \<open>Properties\<close>

definition demo_env :: repo_env where
  "demo_env = \<lparr>http_url = Some, pyrepr = (\<lambda>_. ''...'')\<rparr>"

abbreviation mem_programs :: "(program_row list option, program_row) session_api" where
  "mem_programs \<equiv> mem_session prow_id program_clash program_store"

abbreviation mem_programs_view :: "program_row list option \<Rightarrow> program_row set option" where
  "mem_programs_view \<equiv> mem_view program_clash program_store"

interpretation mem_programs: program_session mem_programs mem_programs_view demo_env "\<lambda>_. sample_time"
  by unfold_locales

text \<open>
  C3: saving a programme the catalogue knows.  On a session that obeys the SQL interface and
  whose rows are valid, \<open>upsert\<close> of a programme with a valid title and a known identity
  key never fails: the stored entry takes the new title, the sorted union of the old and new
  sources and a version one higher, every other entry stays as it is, and a following
  \<open>find_by_identity\<close> returns exactly that entry.
\<close>

theorem upsert_known_program:
  assumes "program_session api view" and "catalogue env view s = Some m"
    and "m (identity_key p) = Some (t, ids, v)" and "program_ok p"
  shows "\<exists>q s'. upsert api env now p s = (Inr q, s') \<and>
    summary q = (title p, sorted_set (ids @ source_ids p), v + 1) \<and>
    catalogue env view s' = Some (m(identity_key p \<mapsto> summary q)) \<and>
    (\<exists>x s''. find_by_identity api env (identity_key p) s' = (Inr (Some x), s'') \<and> summary x = summary q)"
proof -
  note port = program_session.port [OF assms(1)]
  obtain q s' where u: "upsert api env now p s = (Inr q, s')"
      "summary q = (title p, sorted_set (ids @ source_ids p), v + 1)"
      "catalogue env view s' = Some (m(identity_key p \<mapsto> summary q))"
    using program_repository.upsert_known [OF port assms(2,3,4)] by blast
  from program_repository.find_after_upsert [OF port assms(2) u(1) assms(4)] u show ?thesis by blast
qed

abbreviation sample_row :: "string \<Rightarrow> string \<Rightarrow> program_row" where
  "sample_row k s \<equiv> program_store (program_from_domain (sample_program k s))"

lemma sample_program_ok [simp]:
  "program_ok (sample_program k s)" "channel_ok (channel (sample_program k s))"
  "logo_url (channel (sample_program k s)) = None"
  by (simp_all add: sample_program_def program_ok_def channel_ok_def str_between_def)

lemma sample_summary [simp]: "summary (sample_program k s) = (''News'', [s], 1)"
  by (simp add: summary_def)

lemma from_domain_valid:
  "program_ok p \<Longrightarrow> channel_ok (channel p) \<Longrightarrow> logo_url (channel p) = None \<Longrightarrow>
     row_valid env (program_from_domain p)"
  by (simp add: row_valid_iff program_from_domain_def str_or_none_def optional_url_def
      program_ok_def channel_ok_def)

lemma mem_catalogue_single:
  "row_valid demo_env r \<Longrightarrow> program_store r = r \<Longrightarrow>
     catalogue demo_env mem_programs_view (Some [r]) = Some [prow_identity_key r \<mapsto> row_summary r]"
  using keyed_insert [of prow_identity_key "{}" r row_summary]
  by (auto simp: catalogue_Some mem_view_eq_Some mem_ok_def keyed_None fun_eq_iff)

theorem upsert_known_program_witness:
  "\<exists>q s'. upsert mem_programs demo_env (\<lambda>_. sample_time) (sample_program ''k'' ''b'')
      (Some [sample_row ''k'' ''a'']) = (Inr q, s') \<and>
    summary q = (''News'', [''a'', ''b''], 2)"
proof -
  have c: "catalogue demo_env mem_programs_view (Some [sample_row ''k'' ''a'']) =
      Some [''k'' \<mapsto> (''News'', [''a''], 1)]"
    using mem_catalogue_single [of "sample_row ''k'' ''a''"]
    by (simp add: from_domain_valid)
  have "sorted_set [''a'', ''b''] = [''a'', ''b'']" by code_simp
  with upsert_known_program [OF mem_programs.program_session_axioms c,
      of "sample_program ''k'' ''b''" "''News''" "[''a'']" 1 "\<lambda>_. sample_time"]
  show ?thesis by auto
qed

lemma second_without_id:
  assumes "program_session api view" and "view s = Some S"
    and "\<forall>r \<in> S. prow_id r \<noteq> [] \<and> prow_identity_key r \<notin> {identity_key p, identity_key q}"
    and "prog_id p = None" and "prog_id q \<in> {None, Some []}" and "identity_key q \<noteq> identity_key p"
    and "program_ok p" and "channel_ok (channel p)" and "logo_url (channel p) = None"
  shows "\<exists>p' s1. upsert api env now p s = (Inr p', s1) \<and> prog_id p' = Some [] \<and>
    (\<exists>e s2. upsert api env now q s1 = (Inl e, s2) \<and> exc e = IntegrityError)"
proof -
  let ?row = "program_from_domain p"
  obtain s1 where s1: "upsert api env now p s = (program_to_domain env ?row, s1)"
      "view s1 = Some (insert (program_store ?row) S)"
    using program_session.upsert_missing [OF assms(1,2), of p env now] assms(3,4) by auto
  obtain p' where p': "program_to_domain env ?row = Inr p'"
    using row_validE [OF from_domain_valid [OF assms(7-9)]] .
  then have "prog_id p' = Some []"
    using assms(4) by (auto simp: program_to_domain_def Let_def split: sum.splits)
  moreover have "prow_identity_key r \<noteq> identity_key q" if "r \<in> insert (program_store ?row) S" for r
    using that assms(3,6) by auto
  from program_session.upsert_missing [OF assms(1) s1(2) this, of env now]
  have "\<exists>e s2. upsert api env now q s1 = (Inl e, s2) \<and> exc e = IntegrityError"
    using assms(4,5) by auto
  ultimately show ?thesis using s1(1) p' by simp
qed

text \<open>
  The identifier of a programme without one.  \<open>_from_domain\<close> stores \<open>p.id or ""\<close>, and
  the parsers never set an id, so the table can hold a single such programme: on any session
  whose table has none yet, \<open>upsert\<close> saves the first new programme without an id, and
  afterwards the \<open>upsert\<close> of every other new programme without an id raises
  \<open>IntegrityError\<close>, although the identity keys differ.
\<close>

theorem second_program_without_id:
  assumes "program_session api view" and "view s = Some S"
    and "\<forall>r \<in> S. prow_id r \<noteq> [] \<and> prow_identity_key r \<notin> {identity_key p, identity_key q}"
    and "prog_id p = None" and "prog_id q \<in> {None, Some []}" and "identity_key q \<noteq> identity_key p"
    and "program_ok p" and "channel_ok (channel p)" and "logo_url (channel p) = None"
  shows "\<exists>p' s1. upsert api env now p s = (Inr p', s1) \<and> prog_id p' = Some [] \<and>
    (\<exists>e s2. upsert api env now q s1 = (Inl e, s2) \<and> exc e = IntegrityError)"
  by (rule second_without_id [OF assms])

theorem second_program_without_id_witness:
  "\<exists>p' s1. upsert mem_programs demo_env (\<lambda>_. sample_time) (sample_program ''a'' ''s'') (Some []) = (Inr p', s1) \<and>
    prog_id p' = Some [] \<and>
    (\<exists>e s2. upsert mem_programs demo_env (\<lambda>_. sample_time) (sample_program ''b'' ''s'') s1 = (Inl e, s2) \<and>
       exc e = IntegrityError)"
  by (rule second_program_without_id [OF mem_programs.program_session_axioms, where S = "{}"])
    (simp_all add: mem_view_eq_Some mem_ok_def)



lemma traverse_keys:
  assumes "\<And>r. r \<in> set rows \<Longrightarrow> row_valid env r"
  shows "\<exists>ps. traverse (program_to_domain env) rows = Inr ps \<and>
    map identity_key ps = map prow_identity_key rows"
  using assms
proof (induction rows)
  case (Cons r rows)
  then obtain ps where ps: "traverse (program_to_domain env) rows = Inr ps"
      "map identity_key ps = map prow_identity_key rows" by auto
  obtain q where q: "program_to_domain env r = Inr q" using Cons.prems row_validE by (metis list.set_intros(1))
  with ps program_to_domain_Inr [OF q] show ?case by simp
qed simp

lemma range_programs:
  assumes "program_session api view" and "view s = Some S" and "\<forall>r \<in> S. row_valid env r"
  shows "\<exists>ps s'. list_by_range api env start end' chan s = (Inr ps, s') \<and> view s' = Some S \<and>
    distinct (map identity_key ps) \<and>
    set (map identity_key ps) =
      prow_identity_key ` {r \<in> S. dt_wall start \<le> dt_wall (prow_start_at r) \<and>
        dt_wall (prow_start_at r) < dt_wall end' \<and>
        (chan = None \<or> chan = Some [] \<or> chan = Some (prow_channel_id r))}" (is "\<exists>ps s'. _ \<and> _ \<and> _ \<and> _ = _ ` ?R")
proof -
  let ?q = "range_query start end' chan"
  have sess: "sql_session prow_id program_clash program_store api view"
    using assms(1) by (simp add: program_session_def)
  have "row_limit ?q = None" by (simp add: range_query_def Let_def split: option.splits)
  from sql_session.select_where [OF sess assms(2) this] obtain rows s' where
    r: "exec_select api ?q s = (Inr rows, s')" "view s' = Some S"
      "program_store ` set rows = {r \<in> S. where_clause ?q r}" "distinct (map program_store rows)"
    by blast
  have R: "{r \<in> S. where_clause ?q r} = ?R"
    by (auto simp: range_query_def Let_def split: option.splits if_splits)
  have "row_valid env r" if "r \<in> set rows" for r
  proof -
    have "program_store r \<in> S" using r(3) that by blast
    with assms(3) row_valid_store show ?thesis by metis
  qed
  from traverse_keys [of rows env, OF this] obtain ps where ps: "traverse (program_to_domain env) rows = Inr ps"
      "map identity_key ps = map prow_identity_key rows" by blast
  have keys: "map identity_key ps = map prow_identity_key (map program_store rows)"
    using ps(2) by simp
  have "inj_on prow_identity_key S"
    using program_session.identity_unique [OF assms(1,2)] by (auto intro: inj_onI)
  then have "inj_on prow_identity_key (set (map program_store rows))"
    using r(3) by (auto intro: inj_on_subset)
  then have "distinct (map identity_key ps)" using r(4) by (simp only: keys distinct_map)
  moreover have "set (map identity_key ps) = prow_identity_key ` ?R"
    using arg_cong [OF keys, of set] r(3) R by (simp only: set_map)
  ultimately show ?thesis using r(1,2) ps(1) by (simp add: list_by_range_def bindE_def)
qed

text \<open>
  The range query.  On a session whose rows are valid, \<open>list_by_range\<close> returns the
  programmes whose start lies in the half-open interval by wall clock and, with a channel given
  and not empty, are on that channel: each exactly once and none other.
\<close>

theorem list_by_range_exact:
  assumes "program_session api view" and "view s = Some S" and "\<forall>r \<in> S. row_valid env r"
  shows "\<exists>ps s'. list_by_range api env start end' chan s = (Inr ps, s') \<and> view s' = Some S \<and>
    distinct (map identity_key ps) \<and>
    set (map identity_key ps) =
      prow_identity_key ` {r \<in> S. dt_wall start \<le> dt_wall (prow_start_at r) \<and>
        dt_wall (prow_start_at r) < dt_wall end' \<and>
        (chan = None \<or> chan = Some [] \<or> chan = Some (prow_channel_id r))}"
  by (rule range_programs [OF assms])

theorem list_by_range_exact_witness:
  "\<exists>ps s'. list_by_range mem_programs demo_env (DateTime 0 None) (DateTime 1 None) (Some ''c1'')
      (Some [sample_row ''k'' ''a'']) = (Inr ps, s') \<and> distinct (map identity_key ps)"
proof -
  have "mem_programs_view (Some [sample_row ''k'' ''a'']) = Some {sample_row ''k'' ''a''}"
    by (simp add: mem_view_eq_Some mem_ok_def)
  from list_by_range_exact [OF mem_programs.program_session_axioms this, of demo_env
      "DateTime 0 None" "DateTime 1 None" "Some ''c1''"]
  show ?thesis by (auto simp: from_domain_valid)
qed
end
