(* ===== verification/JobRepository.thy ===== *)
theory JobRepository
  imports Session
begin

text \<open>
  \<open>infrastructure/persistence/job_repository_impl.py\<close> over \<open>models.JobRow\<close>, and the port
  of \<open>domain/ports/job_repository.py\<close> with its laws in the locale \<open>job_repository\<close>:
  \<open>jobs\<close> is the map from ids to jobs a state stands for.
\<close>

section \<open>Rows and operations\<close>

record job_row =
  jrow_id :: string
  jrow_source_id :: string
  jrow_status :: string
  jrow_started_at :: datetime
  jrow_finished_at :: "datetime option"
  jrow_items_fetched :: nat
  jrow_items_saved :: nat
  jrow_error :: "string option"
  jrow_trace_id :: "string option"

definition job_clash :: "job_row \<Rightarrow> job_row \<Rightarrow> bool" where
  "job_clash r r' \<longleftrightarrow> jrow_id r = jrow_id r'"

definition job_store :: "job_row \<Rightarrow> job_row" where
  "job_store r =
     r\<lparr>jrow_started_at := naive (jrow_started_at r),
       jrow_finished_at := map_option naive (jrow_finished_at r)\<rparr>"

lemma job_store_simps [simp]: "jrow_id (job_store r) = jrow_id r"
  by (simp add: job_store_def)

interpretation job_table: sql_table jrow_id job_clash job_store
  by unfold_locales (auto simp: job_clash_def job_store_def option.map_comp comp_def)

definition job_to_domain :: "job_row \<Rightarrow> exn + crawl_job" where
  "job_to_domain r =
     (case job_status_of (jrow_status r) of
        Inl e \<Rightarrow> Inl e
      | Inr st \<Rightarrow>
          (let j = \<lparr>job_id = jrow_id r, job_source_id = jrow_source_id r, job_status = st,
                    job_started_at = jrow_started_at r, job_finished_at = jrow_finished_at r,
                    items_fetched = jrow_items_fetched r, items_saved = jrow_items_saved r,
                    job_error = jrow_error r, job_trace_id = jrow_trace_id r\<rparr>
           in validated (job_ok j) j))"

definition job_from_domain :: "crawl_job \<Rightarrow> job_row" where
  "job_from_domain j =
     \<lparr>jrow_id = job_id j, jrow_source_id = job_source_id j,
      jrow_status = job_status_value (job_status j), jrow_started_at = job_started_at j,
      jrow_finished_at = job_finished_at j, jrow_items_fetched = items_fetched j,
      jrow_items_saved = items_saved j, jrow_error = job_error j, jrow_trace_id = job_trace_id j\<rparr>"

definition job_assign :: "crawl_job \<Rightarrow> job_row \<Rightarrow> job_row" where
  "job_assign j r =
     r\<lparr>jrow_status := job_status_value (job_status j), jrow_finished_at := job_finished_at j,
       jrow_items_fetched := items_fetched j, jrow_items_saved := items_saved j,
       jrow_error := job_error j, jrow_trace_id := job_trace_id j\<rparr>"

record 's job_port =
  jp_add :: "crawl_job \<Rightarrow> ('s, unit) eff"
  jp_update :: "crawl_job \<Rightarrow> ('s, unit) eff"
  jp_list :: "string option \<Rightarrow> job_status option \<Rightarrow> nat \<Rightarrow> ('s, crawl_job list) eff"

definition job_add :: "('s, job_row) session_api \<Rightarrow> crawl_job \<Rightarrow> ('s, unit) eff" where
  "job_add api j s = (Inr (), add_row api (job_from_domain j) s)"

definition job_update :: "('s, job_row) session_api \<Rightarrow> crawl_job \<Rightarrow> ('s, unit) eff" where
  "job_update api j =
     bindE (get_row api (job_id j)) (\<lambda>row.
       case row of
         None \<Rightarrow> ret ()
       | Some r \<Rightarrow> (\<lambda>s. (Inr (), set_row api (job_assign j r) s)))"

text \<open>
  \<open>list\<close>: newest first, an empty \<open>source_id\<close> counts as absent, and the limit is applied to
  the filtered rows.
\<close>

definition job_query :: "string option \<Rightarrow> job_status option \<Rightarrow> nat \<Rightarrow> job_row query" where
  "job_query sid st limit =
     (let q0 = q_limit limit (q_order_by (\<lambda>r. - dt_wall (jrow_started_at r)) select_all);
          q1 = (case sid of
                  None \<Rightarrow> q0
                | Some i \<Rightarrow> if i = [] then q0 else q_where (\<lambda>r. jrow_source_id r = i) q0)
      in case st of
           None \<Rightarrow> q1
         | Some x \<Rightarrow> q_where (\<lambda>r. jrow_status r = job_status_value x) q1)"

definition job_list ::
  "('s, job_row) session_api \<Rightarrow> string option \<Rightarrow> job_status option \<Rightarrow> nat \<Rightarrow>
   ('s, crawl_job list) eff" where
  "job_list api sid st limit =
     bindE (exec_select api (job_query sid st limit)) (\<lambda>rows. pure_eff (traverse job_to_domain rows))"

definition SQLAlchemyJobRepository :: "('s, job_row) session_api \<Rightarrow> 's job_port" where
  "SQLAlchemyJobRepository api =
     \<lparr>jp_add = job_add api, jp_update = job_update api, jp_list = job_list api\<rparr>"

text \<open>What the session's calls leave alone, the repository's leave alone.\<close>

lemma job_frames:
  assumes "session_frame api v"
  shows "v (snd (job_add api j s)) = v s" "v (snd (job_update api j s)) = v s"
proof -
  show "v (snd (job_add api j s)) = v s" by (simp add: job_add_def session_frame_simps [OF assms])
  show "v (snd (job_update api j s)) = v s"
    unfolding job_update_def by (rule snd_bindE) (auto simp: session_frame_simps [OF assms] split: option.splits)
qed

section \<open>The laws of the port\<close>

definition naive_job :: "crawl_job \<Rightarrow> crawl_job" where
  "naive_job j =
     j\<lparr>job_started_at := naive (job_started_at j), job_finished_at := map_option naive (job_finished_at j)\<rparr>"

lemma naive_job_simps [simp]:
  "job_id (naive_job j) = job_id j" "job_status (naive_job j) = job_status j"
  "items_saved (naive_job j) = items_saved j" "items_fetched (naive_job j) = items_fetched j"
  "job_error (naive_job j) = job_error j" "job_source_id (naive_job j) = job_source_id j"
  "job_finished_at (naive_job j) = map_option naive (job_finished_at j)"
  "job_ok (naive_job j) = job_ok j"
  by (simp_all add: naive_job_def job_ok_def)

text \<open>The identity a job keeps through its updates.\<close>

definition same_job :: "crawl_job \<Rightarrow> crawl_job \<Rightarrow> bool" where
  "same_job old j \<longleftrightarrow> job_source_id old = job_source_id j \<and>
     naive (job_started_at old) = naive (job_started_at j)"

locale job_repository =
  fixes jrepo :: "'s job_port" and jobs :: "'s \<Rightarrow> (string \<rightharpoonup> crawl_job) option"
  assumes add_job: "jobs s = Some m \<Longrightarrow> m (job_id j) = None \<Longrightarrow> job_ok j \<Longrightarrow>
      \<exists>s'. jp_add jrepo j s = (Inr (), s') \<and> jobs s' = Some (m(job_id j \<mapsto> naive_job j))"
    and update_job: "jobs s = Some m \<Longrightarrow> m (job_id j) = Some old \<Longrightarrow> same_job old j \<Longrightarrow> job_ok j \<Longrightarrow>
      \<exists>s'. jp_update jrepo j s = (Inr (), s') \<and> jobs s' = Some (m(job_id j \<mapsto> naive_job j))"
    and list_jobs: "jobs s = Some m \<Longrightarrow>
      \<exists>js s'. jp_list jrepo sid st limit s = (Inr js, s') \<and> jobs s' = Some m \<and>
        length js = min limit (card {j \<in> ran m. (sid = None \<or> sid = Some [] \<or> sid = Some (job_source_id j)) \<and>
          (st = None \<or> st = Some (job_status j))}) \<and>
        sorted (map (\<lambda>j. - dt_wall (job_started_at j)) js)"

definition row_job :: "job_row \<Rightarrow> crawl_job" where
  "row_job r = projr (job_to_domain r)"

definition job_map :: "('s \<Rightarrow> job_row set option) \<Rightarrow> 's \<Rightarrow> (string \<rightharpoonup> crawl_job) option" where
  "job_map view s =
     (case view s of
        None \<Rightarrow> None
      | Some S \<Rightarrow> if \<forall>r \<in> S. \<not> isl (job_to_domain r) then Some (keyed jrow_id row_job S) else None)"

lemma job_mapE:
  assumes "job_map view s = Some m"
  obtains S where "view s = Some S" "\<forall>r \<in> S. \<not> isl (job_to_domain r)" "m = keyed jrow_id row_job S"
  using assms by (auto simp: job_map_def split: option.splits if_splits)

lemma job_mapI:
  "view s = Some S \<Longrightarrow> \<forall>r \<in> S. \<not> isl (job_to_domain r) \<Longrightarrow>
     job_map view s = Some (keyed jrow_id row_job S)"
  by (simp add: job_map_def)

lemma job_to_domain_store:
  "job_to_domain (job_store r) = map_sum id naive_job (job_to_domain r)"
  by (auto simp: job_to_domain_def job_store_def Let_def validated_def naive_job_def
      job_ok_def split: sum.splits)

lemma job_to_domain_Inr:
  "job_to_domain r = Inr j \<Longrightarrow>
     job_id j = jrow_id r \<and> job_source_id j = jrow_source_id r \<and>
     job_status_value (job_status j) = jrow_status r \<and> job_started_at j = jrow_started_at r"
  by (auto simp: job_to_domain_def job_status_of_def Let_def split: sum.splits dest: enum_of_Inr)

lemma job_to_domain_from_domain: "job_ok j \<Longrightarrow> job_to_domain (job_from_domain j) = Inr j"
  by (cases j) (auto simp: job_to_domain_def job_from_domain_def Let_def)

lemma job_to_domain_assign:
  "job_ok j \<Longrightarrow> job_id j = jrow_id r \<Longrightarrow> job_source_id j = jrow_source_id r \<Longrightarrow>
     job_to_domain (job_assign j r) = Inr (j\<lparr>job_started_at := jrow_started_at r\<rparr>)"
  by (cases j) (auto simp: job_to_domain_def job_assign_def Let_def job_ok_def)

locale job_session =
  sql_session jrow_id job_clash job_store api view
  for api :: "('s, job_row) session_api" and view :: "'s \<Rightarrow> job_row set option"
begin

lemma inj_job_id: "view s = Some S \<Longrightarrow> inj_on jrow_id S"
  using view_ok by (blast intro: inj_onI table_ok_pk)

lemma row_job_at:
  assumes "view s = Some S" "\<forall>r \<in> S. \<not> isl (job_to_domain r)" "job_store r \<in> S"
  shows "job_to_domain r = Inr (row_job r)" "row_job (job_store r) = naive_job (row_job r)"
proof -
  have "\<not> isl (job_to_domain (job_store r))" using assms(2,3) by blast
  then have "\<not> isl (job_to_domain r)" by (simp add: job_to_domain_store isl_map_sum)
  then obtain j where j: "job_to_domain r = Inr j" by (cases "job_to_domain r") auto
  then show "job_to_domain r = Inr (row_job r)" by (simp add: row_job_def)
  show "row_job (job_store r) = naive_job (row_job r)" by (simp add: row_job_def job_to_domain_store j)
qed

text \<open>A call that succeeds, and whose changes can be flushed, leaves the other tables alone.\<close>

lemma job_add_shares:
  assumes "shares_session api view v" "view s = Some S" "job_add api j s = (Inr (), s')" "view s' \<noteq> None"
  shows "v s' = v s"
  using assms shares_sessionD(3) [OF assms(1,2)] by (auto simp: job_add_def)

lemma job_update_shares:
  assumes v: "shares_session api view v" and s: "view s = Some S"
    and up: "job_update api j s = (Inr (), s')" "view s' \<noteq> None"
  shows "v s' = v s"
proof -
  obtain y s1 where y: "get_row api (job_id j) s = (Inr y, s1)" "view s1 = Some S" using get [OF s] by blast
  note v1 = shares_sessionD(2) [OF v s y(1)]
  show ?thesis
  proof (cases y)
    case None
    with up y(1) v1 show ?thesis by (simp add: job_update_def bindE_def)
  next
    case (Some r)
    with up y(1) have "s' = set_row api (job_assign j r) s1" by (simp add: job_update_def bindE_def)
    with shares_sessionD(4) [OF v y(2)] up(2) v1 show ?thesis by auto
  qed
qed

end

section \<open>The SQLAlchemy repository implements the port\<close>

text \<open>The condition the where clauses of \<open>list\<close> state, on a job.\<close>

definition job_matches :: "string option \<Rightarrow> job_status option \<Rightarrow> crawl_job \<Rightarrow> bool" where
  "job_matches sid st j \<longleftrightarrow>
     (sid = None \<or> sid = Some [] \<or> sid = Some (job_source_id j)) \<and> (st = None \<or> st = Some (job_status j))"

lemma job_query_simps [simp]:
  "row_limit (job_query sid st n) = Some n"
  "order_key (job_query sid st n) = Some (\<lambda>r. - dt_wall (jrow_started_at r))"
  by (auto simp: job_query_def Let_def split: option.splits)

lemma job_query_where:
  "job_to_domain r = Inr j \<Longrightarrow> where_clause (job_query sid st n) r \<longleftrightarrow> job_matches sid st j"
  by (auto simp: job_query_def Let_def job_matches_def job_to_domain_Inr eq_commute
      dest!: job_to_domain_Inr simp del: job_status_value.simps split: option.splits)

context job_session
begin

lemma list_rows:
  assumes "view s = Some S" "\<forall>r \<in> S. \<not> isl (job_to_domain r)"
  shows "\<exists>js s'. job_list api sid st limit s = (Inr js, s') \<and> view s' = Some S \<and>
    length js = min limit (card {j \<in> row_job ` S. job_matches sid st j}) \<and>
    sorted (map (\<lambda>j. - dt_wall (job_started_at j)) js)"
proof -
  let ?q = "job_query sid st limit"
  obtain rows s' where r: "exec_select api ?q s = (Inr rows, s')" "view s' = Some S"
      "answers ?q S (map job_store rows)" using select [OF assms(1)] by blast
  then obtain ys where ys: "distinct ys" "set ys = {r \<in> S. where_clause ?q r}"
      "sorted (map (\<lambda>r. - dt_wall (jrow_started_at r)) ys)" "map job_store rows = take limit ys"
    by (auto simp: answers_def)
  have "job_store r \<in> S" if "r \<in> set rows" for r
  proof -
    have "job_store r \<in> set (take limit ys)" using that ys(4) by (metis image_eqI list.set_map)
    then show ?thesis using ys(2) by (auto dest: in_set_takeD)
  qed
  then have rj: "job_to_domain r = Inr (row_job r)" if "r \<in> set rows" for r
    using row_job_at [OF assms] that by blast
  then have js: "job_list api sid st limit s = (Inr (map row_job rows), s')"
    by (simp add: job_list_def bindE_def r(1) traverse_Inr)
  have dom: "job_to_domain r = Inr (row_job r)" if "r \<in> S" for r
  proof -
    have "job_store r = r" using view_ok [OF assms(1)] that by (auto simp: table_ok_def)
    with row_job_at(1) [OF assms, of r] that show ?thesis by simp
  qed
  have inj: "inj_on row_job S"
  proof (rule inj_onI)
    fix x y assume xy: "x \<in> S" "y \<in> S" "row_job x = row_job y"
    then have "jrow_id x = jrow_id y"
      using job_to_domain_Inr [OF dom [OF xy(1)]] job_to_domain_Inr [OF dom [OF xy(2)]] by simp
    with inj_onD [OF inj_job_id [OF assms(1)]] xy(1,2) show "x = y" by blast
  qed
  have "{j \<in> row_job ` S. job_matches sid st j} = row_job ` set ys"
    using job_query_where [OF dom] by (auto simp: ys(2))
  moreover have "inj_on row_job (set ys)" using inj by (rule inj_on_subset) (use ys(2) in auto)
  ultimately have "card {j \<in> row_job ` S. job_matches sid st j} = length ys"
    using distinct_card [OF ys(1)] by (simp add: card_image)
  moreover have "length rows = min limit (length ys)"
    using arg_cong [OF ys(4), of length] by (simp add: min.commute)
  moreover have "map (\<lambda>j. - dt_wall (job_started_at j)) (map row_job rows) =
      map (\<lambda>r. - dt_wall (jrow_started_at r)) (map job_store rows)"
    using job_to_domain_Inr [OF rj] by (simp add: job_store_def)
  then have "sorted (map (\<lambda>j. - dt_wall (job_started_at j)) (map row_job rows))"
    using ys(3) by (simp add: ys(4) take_map [symmetric] sorted_wrt_take del: map_map)
  ultimately show ?thesis using js r(2) by simp
qed

end

sublocale job_session \<subseteq> repo: job_repository "SQLAlchemyJobRepository api" "job_map view"
proof unfold_locales
  fix s m j assume a: "job_map view s = Some m" "m (job_id j) = None" "job_ok j"
  obtain S where S: "view s = Some S" "\<forall>r \<in> S. \<not> isl (job_to_domain r)" "m = keyed jrow_id row_job S"
    by (rule job_mapE [OF a(1)])
  let ?r = "job_from_domain j"
  have id: "jrow_id ?r = job_id j" by (simp add: job_from_domain_def)
  have new: "\<forall>r \<in> S. jrow_id r \<noteq> job_id j" using a(2) by (simp add: S(3) keyed_None)
  then have v: "view (add_row api ?r s) = Some (insert (job_store ?r) S)"
    using add [OF S(1), of ?r] id by (auto simp: job_clash_def)
  have dom: "job_to_domain (job_store ?r) = Inr (naive_job j)"
    using job_to_domain_from_domain [OF a(3)] by (simp add: job_to_domain_store)
  then have "job_map view (add_row api ?r s) = Some (keyed jrow_id row_job (insert (job_store ?r) S))"
    using job_mapI [where view = view, OF v] S(2) by auto
  also have "keyed jrow_id row_job (insert (job_store ?r) S) = m(job_id j \<mapsto> naive_job j)"
    using keyed_insert [OF inj_job_id [OF S(1)], of "job_store ?r" row_job] new id dom
    by (simp add: S(3) row_job_def)
  finally show "\<exists>s'. jp_add (SQLAlchemyJobRepository api) j s = (Inr (), s') \<and>
      job_map view s' = Some (m(job_id j \<mapsto> naive_job j))"
    unfolding SQLAlchemyJobRepository_def job_add_def job_port.simps by blast
next
  fix s m j old assume a: "job_map view s = Some m" "m (job_id j) = Some old" "same_job old j" "job_ok j"
  obtain S where S: "view s = Some S" "\<forall>r \<in> S. \<not> isl (job_to_domain r)" "m = keyed jrow_id row_job S"
    by (rule job_mapE [OF a(1)])
  obtain r0 where r0: "r0 \<in> S" "jrow_id r0 = job_id j" "row_job r0 = old"
    using keyed_SomeE [OF a(2) [unfolded S(3)] inj_job_id [OF S(1)]] .
  obtain x s1 where x: "get_row api (job_id j) s = (Inr x, s1)" "view s1 = Some S"
      "case x of None \<Rightarrow> \<forall>r \<in> S. jrow_id r \<noteq> job_id j
       | Some r \<Rightarrow> job_store r \<in> S \<and> jrow_id r = job_id j"
    using get [OF S(1)] by blast
  with r0 obtain r where r: "x = Some r" "job_store r \<in> S" "jrow_id r = job_id j" by (cases x) auto
  have eq: "job_store r = r0"
    by (rule inj_onD [OF inj_job_id [OF S(1)]]) (use r(2,3) r0 in simp_all)
  let ?r = "job_assign j r"
  have v: "view (set_row api ?r s1) = Some (insert (job_store ?r) (S - {r0}))"
    by (rule assign [OF x(2) r0(1)]) (use r0(2) r(3) in \<open>auto simp: job_clash_def job_assign_def\<close>)
  have old: "old = naive_job (row_job r)" using row_job_at(2) [OF S(1,2) r(2)] eq r0(3) by simp
  note dom_r = row_job_at(1) [OF S(1,2) r(2)]
  have "jrow_source_id r = job_source_id j" "naive (jrow_started_at r) = naive (job_started_at j)"
    using a(3) old job_to_domain_Inr [OF dom_r] by (auto simp: same_job_def naive_job_def)
  with job_to_domain_assign [OF a(4), of r] r(3)
  have dom: "job_to_domain (job_store ?r) = Inr (naive_job j)"
    by (simp add: job_to_domain_store naive_job_def)
  then have "job_map view (set_row api ?r s1) = Some (keyed jrow_id row_job (insert (job_store ?r) (S - {r0})))"
    using job_mapI [where view = view, OF v] S(2) by auto
  also have "keyed jrow_id row_job (insert (job_store ?r) (S - {r0})) = m(job_id j \<mapsto> naive_job j)"
    using keyed_replace [OF inj_job_id [OF S(1)] r0(1), of "job_store ?r" row_job] r0(2) r(3) dom
    by (simp add: S(3) row_job_def job_assign_def)
  finally show "\<exists>s'. jp_update (SQLAlchemyJobRepository api) j s = (Inr (), s') \<and>
      job_map view s' = Some (m(job_id j \<mapsto> naive_job j))"
    using x(1) r(1) by (simp add: SQLAlchemyJobRepository_def job_update_def bindE_def del: fun_upd_apply)
next
  fix s m sid st limit assume a: "job_map view s = Some m"
  obtain S where S: "view s = Some S" "\<forall>r \<in> S. \<not> isl (job_to_domain r)" "m = keyed jrow_id row_job S"
    by (rule job_mapE [OF a])
  obtain js s' where js: "job_list api sid st limit s = (Inr js, s')" "view s' = Some S"
    "length js = min limit (card {j \<in> row_job ` S. job_matches sid st j})"
    "sorted (map (\<lambda>j. - dt_wall (job_started_at j)) js)" using list_rows [OF S(1,2)] by blast
  have "job_map view s' = Some m" using js(2) S by (simp add: job_map_def)
  with js show "\<exists>js s'. jp_list (SQLAlchemyJobRepository api) sid st limit s = (Inr js, s') \<and>
      job_map view s' = Some m \<and>
      length js = min limit (card {j \<in> ran m. (sid = None \<or> sid = Some [] \<or> sid = Some (job_source_id j)) \<and>
        (st = None \<or> st = Some (job_status j))}) \<and>
      sorted (map (\<lambda>j. - dt_wall (job_started_at j)) js)"
    by (simp add: SQLAlchemyJobRepository_def S(3) ran_keyed [OF inj_job_id [OF S(1)]] job_matches_def)
qed

context job_session
begin

lemma port: "job_repository (SQLAlchemyJobRepository api) (job_map view)"
  by unfold_locales

end

abbreviation mem_jobs :: "(job_row list option, job_row) session_api" where
  "mem_jobs \<equiv> mem_session jrow_id job_clash job_store"

abbreviation mem_jobs_view :: "job_row list option \<Rightarrow> job_row set option" where
  "mem_jobs_view \<equiv> mem_view job_clash job_store"

interpretation mem_jobs: job_session mem_jobs mem_jobs_view
  by unfold_locales

end
