(* ===== verification/Normalization.thy ===== *)
theory Normalization
  imports PyString
begin

text \<open>
  \<open>domain/services/normalization_service.py\<close>: \<open>NormalizationService\<close>.  The
  substitution of the pattern \<open>\s+\<close> by one blank is \<open>sub_ws\<close>; the reference
  definition is the list of words of the text joined by single blanks.
\<close>

section \<open>The service\<close>

text \<open>\<open>_WS.sub(" ", title)\<close>: every maximal run of white space becomes one blank.\<close>

function sub_ws :: "string \<Rightarrow> string" where
  "sub_ws [] = []"
| "sub_ws (c # cs) =
     (if py_space c then CHR '' '' # sub_ws (dropWhile py_space cs) else c # sub_ws cs)"
  by pat_completeness auto
termination
  by (relation "measure length") (auto simp: le_imp_less_Suc length_dropWhile_le)

definition normalize_title :: "string \<Rightarrow> string" where
  "normalize_title title = strip (sub_ws title)"

definition normalize_channel_id :: "string \<Rightarrow> string" where
  "normalize_channel_id channel_id = strip (lower channel_id)"

section \<open>The words of a text\<close>

function words :: "string \<Rightarrow> string list" where
  "words s =
     (let s' = dropWhile py_space s
      in if s' = [] then []
         else takeWhile (\<lambda>c. \<not> py_space c) s' # words (dropWhile (\<lambda>c. \<not> py_space c) s'))"
  by pat_completeness auto

lemma words_shrinks:
  assumes "s' = dropWhile py_space s" and "s' \<noteq> []"
  shows "length (dropWhile (\<lambda>c. \<not> py_space c) s') < length s"
proof -
  have hd: "\<not> py_space (hd s')" using assms hd_dropWhile by blast
  then obtain c cs where s': "s' = c # cs" "\<not> py_space c"
    using assms(2) by (cases s') auto
  have "length (dropWhile (\<lambda>c. \<not> py_space c) s') \<le> length cs"
    by (simp add: s' length_dropWhile_le)
  also have "length cs < length s'" by (simp add: s')
  also have "length s' \<le> length s" by (simp add: assms(1) length_dropWhile_le)
  finally show ?thesis .
qed

termination words
  by (relation "measure length") (auto simp: words_shrinks)

declare words.simps [simp del]

fun join_blank :: "string list \<Rightarrow> string" where
  "join_blank [] = []"
| "join_blank [w] = w"
| "join_blank (w # ws) = w @ CHR '' '' # join_blank ws"

lemma words_Nil [simp]: "words [] = []"
  by (subst words.simps) simp

lemma words_space [simp]: "py_space c \<Longrightarrow> words (c # cs) = words cs"
  by (simp add: words.simps [of "c # cs"] words.simps [of cs])

lemma words_dropWhile [simp]: "words (dropWhile py_space cs) = words cs"
  by (simp add: words.simps [of "dropWhile py_space cs"] words.simps [of cs])

lemma words_nonspace:
  "\<not> py_space c \<Longrightarrow>
     words (c # cs) = (c # takeWhile (\<lambda>c. \<not> py_space c) cs) # words (dropWhile (\<lambda>c. \<not> py_space c) cs)"
  by (simp add: words.simps [of "c # cs"])

lemma words_nonspace_Cons:
  assumes "\<not> py_space c"
  shows "words (c # cs) =
    (if cs = [] \<or> py_space (hd cs) then [c] # words cs else (c # hd (words cs)) # tl (words cs))"
  using assms by (cases cs) (auto simp: words_nonspace)

lemma words_eq_Nil_iff: "words s = [] \<longleftrightarrow> (\<forall>c\<in>set s. py_space c)"
proof (induction s)
  case (Cons c s)
  then show ?case by (cases "py_space c") (auto simp: words_nonspace)
qed simp

definition is_word :: "string \<Rightarrow> bool" where
  "is_word w \<longleftrightarrow> w \<noteq> [] \<and> (\<forall>c\<in>set w. \<not> py_space c)"

lemma words_in: "w \<in> set (words s) \<Longrightarrow> is_word w"
proof (induction s rule: words.induct)
  case (1 s)
  let ?s = "dropWhile py_space s"
  show ?case
  proof (cases "?s = []")
    case False
    then have "\<not> py_space (hd ?s)" by (rule hd_dropWhile)
    with False obtain c cs where s: "?s = c # cs" "\<not> py_space c" by (cases ?s) auto
    have "words s = takeWhile (\<lambda>c. \<not> py_space c) ?s # words (dropWhile (\<lambda>c. \<not> py_space c) ?s)"
      using False by (subst words.simps) (simp add: Let_def)
    with "1.prems" have "w = takeWhile (\<lambda>c. \<not> py_space c) ?s \<or>
        w \<in> set (words (dropWhile (\<lambda>c. \<not> py_space c) ?s))" by simp
    then show ?thesis
    proof
      assume "w = takeWhile (\<lambda>c. \<not> py_space c) ?s"
      with s show ?thesis by (auto simp: is_word_def dest: set_takeWhileD)
    qed (use "1.IH" [OF refl False] in blast)
  qed (use "1.prems" in \<open>simp add: words.simps [of s]\<close>)
qed

section \<open>Correctness of the service\<close>

text \<open>White space before the first word becomes one leading blank, after the last one a trailing blank.\<close>

abbreviation blank_if :: "bool \<Rightarrow> string" where
  "blank_if b \<equiv> (if b then [CHR '' ''] else [])"

lemma join_blank_Cons_Cons: "join_blank ((c # w) # ws) = c # join_blank (w # ws)"
  by (cases ws) auto

lemma join_blank_Cons: "ws \<noteq> [] \<Longrightarrow> join_blank (w # ws) = w @ CHR '' '' # join_blank ws"
  by (cases ws) auto

lemma last_dropWhile_space:
  "words s \<noteq> [] \<Longrightarrow> dropWhile py_space s \<noteq> [] \<and> last (dropWhile py_space s) = last s"
  by (induction s) auto

lemma sub_ws_words:
  "sub_ws s =
     blank_if (s \<noteq> [] \<and> py_space (hd s)) @ join_blank (words s) @
     blank_if (words s \<noteq> [] \<and> py_space (last s))"
proof (induction s rule: sub_ws.induct)
  case (2 c cs)
  show ?case
  proof (cases "py_space c")
    case True
    let ?d = "dropWhile py_space cs"
    have "?d \<noteq> [] \<Longrightarrow> \<not> py_space (hd ?d)" by (rule hd_dropWhile)
    with "2.IH"(1) [OF True] True show ?thesis
      by (cases "words cs = []") (auto simp: last_dropWhile_space)
  next
    case False
    show ?thesis
    proof (cases "cs = [] \<or> py_space (hd cs)")
      case True
      have "cs \<noteq> [] \<Longrightarrow> words cs = [] \<Longrightarrow> py_space (last cs)"
        by (simp add: words_eq_Nil_iff)
      with "2.IH"(2) [OF False] False True show ?thesis
        by (cases "words cs = []") (auto simp: words_nonspace_Cons join_blank_Cons)
    next
      case False': False
      then obtain w ws where "words cs = w # ws"
        by (cases cs) (auto simp: words_nonspace)
      with "2.IH"(2) [OF False] False False' show ?thesis
        by (auto simp: words_nonspace_Cons join_blank_Cons_Cons)
    qed
  qed
qed simp

lemma is_word_ends: "is_word w \<Longrightarrow> w \<noteq> [] \<and> \<not> py_space (hd w) \<and> \<not> py_space (last w)"
  by (simp add: is_word_def)

lemma join_blank_ends:
  "\<forall>w\<in>set ws. is_word w \<Longrightarrow> ws \<noteq> [] \<Longrightarrow>
     join_blank ws \<noteq> [] \<and> \<not> py_space (hd (join_blank ws)) \<and> \<not> py_space (last (join_blank ws))"
  by (induction ws rule: join_blank.induct) (auto dest: is_word_ends)

lemma join_words_ends:
  "words s \<noteq> [] \<Longrightarrow>
     join_blank (words s) \<noteq> [] \<and> \<not> py_space (hd (join_blank (words s))) \<and>
     \<not> py_space (last (join_blank (words s)))"
  by (rule join_blank_ends) (auto dest: words_in)

lemma stripped_join_words: "stripped (join_blank (words s))"
proof (cases "words s = []")
  case True
  then show ?thesis by (simp add: stripped_def)
next
  case False
  from join_words_ends [OF False] show ?thesis
    by (simp add: stripped_def)
qed

lemma strip_blanks: "stripped s \<Longrightarrow> strip (blank_if a @ s @ blank_if b) = s"
proof (cases "s = []")
  case False
  assume s: "stripped s"
  with False have "lstrip (blank_if a @ s @ blank_if b) = s @ blank_if b"
    by (cases s) (auto simp: lstrip_def stripped_def)
  moreover have "dropWhile py_space (rev s) = rev s"
    using s False by (cases s rule: rev_cases) (auto simp: stripped_def)
  then have "rstrip (s @ blank_if b) = s" by (simp add: rstrip_def)
  ultimately show ?thesis by (simp add: strip_def)
qed (simp add: strip_def lstrip_def rstrip_def)

lemma normalize_title_words: "normalize_title s = join_blank (words s)"
  unfolding normalize_title_def sub_ws_words
  by (rule strip_blanks [OF stripped_join_words])

lemma words_append_blank: "is_word w \<Longrightarrow> words (w @ CHR '' '' # t) = w # words t"
  by (cases w) (auto simp: words_nonspace is_word_def)

lemma words_single: "is_word w \<Longrightarrow> words w = [w]"
proof (cases w)
  case (Cons c cs)
  assume "is_word w"
  with Cons have cs: "\<not> py_space c" "\<forall>c\<in>set cs. \<not> py_space c"
    by (simp_all add: is_word_def)
  then have "takeWhile (\<lambda>c. \<not> py_space c) cs = cs" "dropWhile (\<lambda>c. \<not> py_space c) cs = []"
    by (simp_all add: dropWhile_eq_Nil_conv)
  with Cons cs show ?thesis
    by (simp only: words_nonspace [OF cs(1)] words_Nil)
qed (simp add: is_word_def)

lemma words_join: "\<forall>w\<in>set ws. is_word w \<Longrightarrow> words (join_blank ws) = ws"
  by (induction ws rule: join_blank.induct) (auto simp: words_single words_append_blank)

lemma normalize_title_eq_Nil_iff: "normalize_title s = [] \<longleftrightarrow> (\<forall>c\<in>set s. py_space c)"
proof -
  have "join_blank (words s) = [] \<longleftrightarrow> words s = []"
    using join_words_ends [of s] by (cases "words s = []") auto
  then show ?thesis by (simp add: normalize_title_words words_eq_Nil_iff)
qed

lemma sub_ws_length: "length (sub_ws s) \<le> length s"
proof (induction s rule: sub_ws.induct)
  case (2 c cs)
  have "length (dropWhile py_space cs) \<le> length cs" by (rule length_dropWhile_le)
  with "2.IH" show ?case by (cases "py_space c") auto
qed simp

lemma normalize_title_length: "length (normalize_title s) \<le> length s"
  unfolding normalize_title_def using sub_ws_length strip_length_le le_trans by blast

text \<open>
  C40: the optimised one-pass substitution agrees with the reference definition: the
  normalised title is the list of the title's words joined by single blanks, so two
  titles are normalised to the same text exactly when they have the same words; and
  normalising twice is normalising once.
\<close>

theorem normalize_title_spec:
  "normalize_title s = join_blank (words s) \<and>
   (normalize_title s = normalize_title t \<longleftrightarrow> words s = words t) \<and>
   normalize_title (normalize_title s) = normalize_title s"
proof -
  have "words (normalize_title s) = words s" for s
    unfolding normalize_title_words by (rule words_join) (auto dest: words_in)
  then show ?thesis by (metis normalize_title_words)
qed

end
