(* ===== verification/Dedup.thy ===== *)
theory Dedup
  imports Domain
begin

text \<open>
  \<open>domain/services/dedup_service.py\<close>: \<open>DedupService.merge\<close>.  The dictionary of
  groups is an insertion-ordered dictionary filled by one pass over the programmes; each
  group is merged by \<open>merge_group\<close>.  The reference definition takes, for every key in
  order of first occurrence, the programmes with that key.
\<close>

section \<open>The service\<close>

text \<open>\<open>groups[k].append(v)\<close> on a \<open>defaultdict(list)\<close>.\<close>

fun dict_append :: "'k \<Rightarrow> 'v \<Rightarrow> ('k, 'v list) dict \<Rightarrow> ('k, 'v list) dict" where
  "dict_append k v [] = [(k, [v])]"
| "dict_append k v ((k', vs) # d) =
     (if k' = k then (k', vs @ [v]) # d else (k', vs) # dict_append k v d)"

definition group_programs :: "tv_program list \<Rightarrow> (string, tv_program list) dict" where
  "group_programs ps = foldl (\<lambda>g p. dict_append (identity_key p) p g) [] ps"

text \<open>\<open>next((p.description for p in items if p.description), base.description)\<close>\<close>

definition first_description :: "tv_program \<Rightarrow> tv_program list \<Rightarrow> string option" where
  "first_description base items =
     (case find (\<lambda>p. description p \<noteq> None \<and> description p \<noteq> Some []) items of
        Some p \<Rightarrow> description p
      | None \<Rightarrow> description base)"

text \<open>The loop that fills \<open>tag_set\<close>, and its values.\<close>

definition merge_tags :: "tv_program list \<Rightarrow> tag list" where
  "merge_tags items =
     dict_values (foldl (\<lambda>d t. dict_set (label t, category t) t d) [] (concat (map tags items)))"

text \<open>The body of the loop over the groups; \<open>items\<close> is never empty.\<close>

definition merge_group :: "tv_program list \<Rightarrow> tv_program" where
  "merge_group items =
     (let base = hd items
      in if length items = 1 then base
         else base\<lparr>source_ids := sorted_set (concat (map source_ids items)),
                   description := first_description base items,
                   tags := merge_tags items,
                   version := Max (set (map version items))\<rparr>)"

definition merge :: "tv_program list \<Rightarrow> tv_program list" where
  "merge programs = map merge_group (dict_values (group_programs programs))"

section \<open>Keys in order of first occurrence\<close>

fun firsts :: "'a list \<Rightarrow> 'a list" where
  "firsts [] = []"
| "firsts (x # xs) = x # filter (\<lambda>y. y \<noteq> x) (firsts xs)"

lemma set_firsts [simp]: "set (firsts xs) = set xs"
  by (induction xs) auto

lemma distinct_firsts [simp]: "distinct (firsts xs)"
  by (induction xs) auto

lemma firsts_id [simp]: "distinct xs \<Longrightarrow> firsts xs = xs"
  by (induction xs) (auto simp: filter_id_conv)

lemma firsts_snoc: "firsts (xs @ [x]) = (if x \<in> set xs then firsts xs else firsts xs @ [x])"
  by (induction xs) auto

lemma dict_values_firsts:
  assumes "inj f"
  shows "foldl (\<lambda>d t. dict_set (f t) t d) [] ts = map (\<lambda>t. (f t, t)) (firsts ts)"
proof (induction ts rule: rev_induct)
  case (snoc t ts)
  have upd: "dict_set (f t) t (map (\<lambda>t. (f t, t)) us) =
      map (\<lambda>t. (f t, t)) (if t \<in> set us then us else us @ [t])" for us
    using assms by (induction us) (auto dest: injD)
  show ?case by (simp add: snoc upd firsts_snoc)
qed simp

lemma merge_tags_firsts: "merge_tags items = firsts (concat (map tags items))"
proof -
  have "inj (\<lambda>t. (label t, category t))"
    by (auto intro!: injI simp: tag.expand)
  then show ?thesis
    by (simp add: merge_tags_def dict_values_firsts comp_def)
qed

definition with_key :: "string \<Rightarrow> tv_program list \<Rightarrow> tv_program list" where
  "with_key k ps = filter (\<lambda>p. identity_key p = k) ps"

lemma dict_append_groups:
  "distinct ks \<Longrightarrow>
     dict_append k v (map (\<lambda>j. (j, f j)) ks) =
       (if k \<in> set ks then map (\<lambda>j. (j, if j = k then f j @ [v] else f j)) ks
        else map (\<lambda>j. (j, f j)) ks @ [(k, [v])])"
  by (induction ks) auto

text \<open>Filling a dictionary of lists groups the values by key, in order of first occurrence.\<close>

lemma fold_dict_append:
  "foldl (\<lambda>g x. dict_append (f x) (h x) g) [] xs =
     map (\<lambda>k. (k, map h (filter (\<lambda>x. f x = k) xs))) (firsts (map f xs))"
proof (induction xs rule: rev_induct)
  case (snoc x xs)
  show ?case
  proof (cases "f x \<in> set (map f xs)")
    case True
    then show ?thesis by (auto simp: snoc dict_append_groups firsts_snoc)
  next
    case False
    then have "filter (\<lambda>y. f y = f x) xs = []"
      by (metis (mono_tags, lifting) filter_False image_eqI set_map)
    with False show ?thesis by (auto simp: snoc dict_append_groups firsts_snoc)
  qed
qed simp

lemma group_programs_spec:
  "group_programs ps = map (\<lambda>k. (k, with_key k ps)) (firsts (map identity_key ps))"
  using fold_dict_append [of identity_key "\<lambda>p. p" ps] by (simp add: group_programs_def with_key_def)

lemma merge_spec:
  "merge ps = map (\<lambda>k. merge_group (with_key k ps)) (firsts (map identity_key ps))"
  by (simp add: merge_def group_programs_spec comp_def)

lemma with_key_nonempty: "k \<in> identity_key ` set ps \<Longrightarrow> with_key k ps \<noteq> []"
  by (auto simp: with_key_def filter_empty_conv)

lemma hd_with_key: "k \<in> identity_key ` set ps \<Longrightarrow> hd (with_key k ps) \<in> set ps \<and> identity_key (hd (with_key k ps)) = k"
  using with_key_nonempty [of k ps] hd_in_set [of "with_key k ps"]
  by (auto simp: with_key_def)

lemma merge_group_key [simp]: "identity_key (merge_group items) = identity_key (hd items)"
  by (simp add: merge_group_def Let_def)

lemma merge_keys: "map identity_key (merge ps) = firsts (map identity_key ps)"
  by (auto simp: merge_spec hd_with_key intro!: map_idI)

lemma merge_distinct_id: "distinct (map identity_key ps) \<Longrightarrow> merge ps = ps"
proof -
  assume d: "distinct (map identity_key ps)"
  have "merge_group (with_key (identity_key p) ps) = p" if "p \<in> set ps" for p
  proof -
    have "with_key (identity_key p) ps = [p]"
      unfolding with_key_def using d that
      by (intro filter_unique) (auto simp: distinct_map inj_on_def)
    then show ?thesis by (simp add: merge_group_def)
  qed
  then show ?thesis
    by (simp add: merge_spec d comp_def map_idI)
qed

section \<open>What a merged group keeps\<close>

text \<open>The fields of a group that \<open>merge\<close> combines, whatever the group's size.\<close>

lemma merge_group_fields:
  assumes "items \<noteq> []"
  shows "set (source_ids (merge_group items)) = (\<Union>p\<in>set items. set (source_ids p))"
    and "set (tags (merge_group items)) = (\<Union>p\<in>set items. set (tags p))"
    and "version (merge_group items) = Max (version ` set items)"
    and "title (merge_group items) = title (hd items)"
proof -
  show "set (source_ids (merge_group items)) = (\<Union>p\<in>set items. set (source_ids p))"
    and "set (tags (merge_group items)) = (\<Union>p\<in>set items. set (tags p))"
    and "version (merge_group items) = Max (version ` set items)"
    using assms by (auto simp: merge_group_def Let_def merge_tags_firsts length_Suc_conv)
  show "title (merge_group items) = title (hd items)"
    by (simp add: merge_group_def Let_def)
qed

lemma merge_member:
  assumes "q \<in> set (merge ps)"
  obtains items where "items = with_key (identity_key q) ps" "items \<noteq> []" "q = merge_group items"
    "set items = {p \<in> set ps. identity_key p = identity_key q}"
proof -
  from assms obtain k where k: "k \<in> identity_key ` set ps" "q = merge_group (with_key k ps)"
    by (auto simp: merge_spec)
  then have "identity_key q = k" by (simp add: hd_with_key)
  moreover have "set (with_key k ps) = {p \<in> set ps. identity_key p = k}"
    by (simp add: with_key_def)
  ultimately show ?thesis
    using k with_key_nonempty that [of "with_key k ps"] by blast
qed

lemma merge_group_description:
  assumes "p \<in> set items" and "description p \<noteq> None" and "description p \<noteq> Some []"
  shows "description (merge_group items) \<noteq> None \<and> description (merge_group items) \<noteq> Some []"
proof (cases "length items = 1")
  case True
  with assms have "items = [p]" by (auto simp: length_Suc_conv)
  with assms show ?thesis by (simp add: merge_group_def)
next
  case False
  let ?P = "\<lambda>p. description p \<noteq> None \<and> description p \<noteq> Some []"
  from assms obtain q where "find ?P items = Some q"
    by (metis (mono_tags, lifting) find_None_iff option.exhaust)
  with False find_SomeD [OF this] show ?thesis
    by (simp add: merge_group_def Let_def first_description_def)
qed

text \<open>
  C8: \<open>merge\<close> groups by identity key: the result has exactly one programme per key, in
  the order in which the keys first occur in the input, programmes whose key is unique are
  returned as they are, and merging an already merged list changes nothing.
\<close>

theorem merge_unique_keys:
  "map identity_key (merge ps) = firsts (map identity_key ps) \<and>
   distinct (map identity_key (merge ps)) \<and>
   (\<forall>p \<in> set ps. with_key (identity_key p) ps = [p] \<longrightarrow> p \<in> set (merge ps)) \<and>
   merge (merge ps) = merge ps"
proof -
  have d: "distinct (map identity_key (merge ps))"
    by (simp only: merge_keys distinct_firsts)
  have "p \<in> set (merge ps)" if "p \<in> set ps" "with_key (identity_key p) ps = [p]" for p
  proof -
    have "merge_group (with_key (identity_key p) ps) = p"
      by (simp add: that merge_group_def)
    with that(1) show ?thesis by (force simp: merge_spec)
  qed
  with d show ?thesis by (simp add: merge_keys merge_distinct_id)
qed

theorem merge_unique_keys_witness:
  "sample_program ''b'' ''s2'' \<in>
     set (merge [sample_program ''a'' ''s1'', sample_program ''b'' ''s2'', sample_program ''a'' ''s0''])"
  using merge_unique_keys
    [of "[sample_program ''a'' ''s1'', sample_program ''b'' ''s2'', sample_program ''a'' ''s0'']"]
  by (simp add: with_key_def)

text \<open>
  C7: merging loses no provenance and invents none.  A merged programme carries exactly the
  sources and the tags of the input programmes with its key and the highest of their
  versions, its source list is sorted without repetition when it was merged from more than
  one, and it has a description whenever one of them has.
\<close>

theorem merge_combines:
  assumes "q \<in> set (merge ps)"
  defines "g \<equiv> {p \<in> set ps. identity_key p = identity_key q}"
  shows "set (source_ids q) = (\<Union>p\<in>g. set (source_ids p)) \<and>
         set (tags q) = (\<Union>p\<in>g. set (tags p)) \<and>
         version q = Max (version ` g) \<and>
         (length (with_key (identity_key q) ps) \<noteq> 1 \<longrightarrow>
            sorted (source_ids q) \<and> distinct (source_ids q) \<and> distinct (tags q)) \<and>
         ((\<exists>p\<in>g. description p \<noteq> None \<and> description p \<noteq> Some []) \<longrightarrow>
            description q \<noteq> None \<and> description q \<noteq> Some [])"
proof -
  obtain items where items: "items = with_key (identity_key q) ps" "items \<noteq> []"
      "q = merge_group items" "set items = g"
    using assms merge_member by metis
  note fields = merge_group_fields [OF items(2), folded items(3), unfolded items(4)]
  have "length items \<noteq> 1 \<Longrightarrow> sorted (source_ids q) \<and> distinct (source_ids q) \<and> distinct (tags q)"
    by (simp add: items(3) merge_group_def Let_def merge_tags_firsts)
  moreover have "\<exists>p\<in>g. description p \<noteq> None \<and> description p \<noteq> Some [] \<Longrightarrow>
      description q \<noteq> None \<and> description q \<noteq> Some []"
    using merge_group_description items(3,4) by metis
  ultimately show ?thesis using fields(1-3) items(1) by simp
qed

theorem merge_combines_witness:
  "set (source_ids (hd (merge [sample_program ''a'' ''s1'', sample_program ''a'' ''s0'']))) =
     {''s0'', ''s1''}"
proof -
  let ?ps = "[sample_program ''a'' ''s1'', sample_program ''a'' ''s0'']"
  have "hd (merge ?ps) \<in> set (merge ?ps)" and k: "identity_key (hd (merge ?ps)) = ''a''"
    by (simp_all add: merge_spec with_key_def)
  from merge_combines [OF this(1)] k
  have "set (source_ids (hd (merge ?ps))) =
      (\<Union>p\<in>{p \<in> set ?ps. identity_key p = ''a''}. set (source_ids p))"
    by simp
  also have "{p \<in> set ?ps. identity_key p = ''a''} = set ?ps" by auto
  finally show ?thesis by auto
qed

end
