(* ===== verification/Aggregation.thy ===== *)
theory Aggregation
  imports ProgramRepository JobRepository SourceRepository Normalization Dedup
begin

text \<open>
  \<open>domain/services/aggregation_service.py\<close>, the crawl of one source, and
  \<open>interfaces/scheduler/jobs/crawl_job.py\<close>, the crawl of all active sources.  The service's
  collaborators are the fields of \<open>aggregator\<close>; the local variables of \<open>run_once\<close> that its
  exception handler reads (\<open>saved\<close> and \<open>job\<close>) are carried beside the world in \<open>run\<close>, so
  that what happened before a raise is still there afterwards.
\<close>

section \<open>The service's collaborators\<close>

text \<open>
  \<open>async with self.session_factory() as session, session.begin()\<close>: what entering the two
  context managers does, and leaving them without and with an exception.
\<close>

record 's transaction =
  tx_begin :: "('s, unit) eff"
  tx_commit :: "('s, unit) eff"
  tx_rollback :: "'s \<Rightarrow> 's"

record 's aggregator =
  ag_fetch :: "string \<Rightarrow> (string, string) dict option \<Rightarrow> real \<Rightarrow> ('s, fetch_result) eff"
  ag_parse :: "string \<Rightarrow> string \<Rightarrow> ('s, tv_program list) eff"
  ag_upsert :: "tv_program \<Rightarrow> ('s, tv_program) eff"
  ag_jobs :: "'s job_port"
  ag_session_factory :: "'s transaction option"
  ag_now :: "'s \<Rightarrow> datetime"
  ag_uuid4 :: "'s \<Rightarrow> string \<times> 's"

section \<open>The run\<close>

record 's run =
  run_world :: 's
  run_saved :: nat
  run_job :: crawl_job

definition on_world :: "('s, 'a) eff \<Rightarrow> ('s run, 'a) eff" where
  "on_world m r = (case m (run_world r) of (x, s') \<Rightarrow> (x, r\<lparr>run_world := s'\<rparr>))"

definition apply_norm :: "tv_program \<Rightarrow> tv_program" where
  "apply_norm p = p\<lparr>title := normalize_title (title p)\<rparr>"

text \<open>\<open>for p in programs: await self.program_repo.upsert(p); saved += 1\<close>\<close>

definition save_one :: "(tv_program \<Rightarrow> ('s, tv_program) eff) \<Rightarrow> tv_program \<Rightarrow> ('s run, unit) eff" where
  "save_one up p =
     bindE (on_world (up p)) (\<lambda>_ r. (Inr (), r\<lparr>run_saved := run_saved r + 1\<rparr>))"

definition in_transaction :: "'s transaction option \<Rightarrow> ('s run, unit) eff \<Rightarrow> ('s run, unit) eff" where
  "in_transaction factory body =
     (case factory of
        None \<Rightarrow> body
      | Some t \<Rightarrow>
          bindE (on_world (tx_begin t)) (\<lambda>_ r.
            case body r of
              (Inl e, r') \<Rightarrow> (Inl e, r'\<lparr>run_world := tx_rollback t (run_world r')\<rparr>)
            | (Inr _, r') \<Rightarrow> on_world (tx_commit t) r'))"

definition run_succeeded :: "'s aggregator \<Rightarrow> nat \<Rightarrow> ('s run, unit) eff" where
  "run_succeeded agg fetched r =
     (let job = (run_job r)\<lparr>job_status := SUCCESS, items_fetched := fetched,
                            items_saved := run_saved r,
                            job_finished_at := Some (ag_now agg (run_world r))\<rparr>
      in on_world (jp_update (ag_jobs agg) job) (r\<lparr>run_job := job\<rparr>))"

definition run_failed :: "'s aggregator \<Rightarrow> exn \<Rightarrow> ('s run, unit) eff" where
  "run_failed agg e r =
     (let job = (run_job r)\<lparr>job_status := (if run_saved r > 0 then PARTIAL_FAILURE else FAILED),
                            job_error := Some (take 1000 (exn_str e)),
                            job_finished_at := Some (ag_now agg (run_world r)),
                            items_saved := run_saved r\<rparr>
      in bindE (on_world (jp_update (ag_jobs agg) job)) (\<lambda>_. raise e) (r\<lparr>run_job := job\<rparr>))"

definition run_body :: "'s aggregator \<Rightarrow> tv_source \<Rightarrow> ('s run, unit) eff" where
  "run_body agg src =
     (if \<not> has_url src then raise (Exn ValueError (''source '' @ src_id src @ '' has no url''))
      else
        bindE (on_world (ag_fetch agg (the (src_url src)) (headers_or_none src) 30)) (\<lambda>result.
        bindE (on_world (ag_parse agg (res_body result) (src_id src))) (\<lambda>parsed.
          let programs = merge (map apply_norm parsed) in
          bindE (in_transaction (ag_session_factory agg)
                   (for_each (save_one (ag_upsert agg)) programs)) (\<lambda>_.
            run_succeeded agg (length programs)))))"

definition new_job :: "string \<Rightarrow> string \<Rightarrow> datetime \<Rightarrow> crawl_job" where
  "new_job jid sid now =
     \<lparr>job_id = jid, job_source_id = sid, job_status = RUNNING, job_started_at = now,
      job_finished_at = None, items_fetched = 0, items_saved = 0, job_error = None,
      job_trace_id = None\<rparr>"

lemma new_job_simps [simp]:
  "job_id (new_job jid sid now) = jid" "job_source_id (new_job jid sid now) = sid"
  "job_status (new_job jid sid now) = RUNNING" "job_started_at (new_job jid sid now) = now"
  "job_error (new_job jid sid now) = None" "items_saved (new_job jid sid now) = 0"
  "job_ok (new_job jid sid now)"
  by (simp_all add: new_job_def job_ok_def)

definition run_once :: "'s aggregator \<Rightarrow> tv_source \<Rightarrow> ('s, crawl_job) eff" where
  "run_once agg src s =
     (case ag_uuid4 agg s of
        (jid, s1) \<Rightarrow>
          let job = new_job jid (src_id src) (ag_now agg s1) in
          case jp_add (ag_jobs agg) job s1 of
            (Inl e, s2) \<Rightarrow> (Inl e, s2)
          | (Inr _, s2) \<Rightarrow>
              (case try_except (run_body agg src) (\<lambda>_. True) (run_failed agg)
                      \<lparr>run_world = s2, run_saved = 0, run_job = job\<rparr> of
                 (Inl e, r) \<Rightarrow> (Inl e, run_world r)
               | (Inr _, r) \<Rightarrow> (Inr (run_job r), run_world r)))"

text \<open>\<open>crawl_all_active\<close>: an exception of one source is logged and the loop goes on.\<close>

definition crawl_all_active :: "(tv_source \<Rightarrow> ('s, crawl_job) eff) \<Rightarrow> 's source_port \<Rightarrow> ('s, unit) eff" where
  "crawl_all_active run registry =
     bindE (registry_active registry) (\<lambda>sources.
       for_each (\<lambda>x. try_except (bindE (run x) (\<lambda>_. ret ())) (\<lambda>_. True) (\<lambda>_. ret ())) sources)"

section \<open>Running the pieces\<close>

lemma on_world_eq: "m (run_world r) = (x, s') \<Longrightarrow> on_world m r = (x, r\<lparr>run_world := s'\<rparr>)"
  by (simp add: on_world_def)

lemma save_one_Inr:
  "up p (run_world r) = (Inr q, s') \<Longrightarrow>
     save_one up p r = (Inr (), r\<lparr>run_world := s', run_saved := run_saved r + 1\<rparr>)"
  by (simp add: save_one_def bindE_def on_world_def)

lemma save_one_Inl:
  "up p (run_world r) = (Inl e, s') \<Longrightarrow> save_one up p r = (Inl e, r\<lparr>run_world := s'\<rparr>)"
  by (simp add: save_one_def bindE_def on_world_def)

text \<open>Saving a list: the counter counts the programmes saved before the first exception.\<close>

inductive saves ::
  "(tv_program \<Rightarrow> ('s, tv_program) eff) \<Rightarrow> tv_program list \<Rightarrow> 's \<Rightarrow> nat \<Rightarrow> exn option \<Rightarrow> 's \<Rightarrow> bool"
  for up where
  saved_all: "saves up [] s 0 None s"
| saved_one: "up p s = (Inr q, s1) \<Longrightarrow> saves up ps s1 n x s' \<Longrightarrow> saves up (p # ps) s (Suc n) x s'"
| not_saved: "up p s = (Inl e, s') \<Longrightarrow> saves up (p # ps) s 0 (Some e) s'"

inductive_cases saves_Nil: "saves up [] s n x s'"
inductive_cases saves_Cons: "saves up (p # ps) s n x s'"

lemma saves_total: "\<exists>n x s'. saves up ps s n x s'"
proof (induction ps arbitrary: s)
  case Nil
  show ?case by (intro exI) (rule saved_all)
next
  case (Cons p ps)
  show ?case
  proof (cases rule: eff_cases [of "up p s"])
    case (raised e s')
    from not_saved [where up = up and p = p and ps = ps, OF raised] show ?thesis by (intro exI)
  next
    case (returned q s1)
    from Cons.IH [of s1] obtain n x s' where "saves up ps s1 n x s'" by (elim exE)
    from saved_one [where up = up and p = p, OF returned this] show ?thesis by (intro exI)
  qed
qed

lemma saves_count: "saves up ps s n x s' \<Longrightarrow> (case x of None \<Rightarrow> n = length ps | Some e \<Rightarrow> n < length ps)"
  by (induction rule: saves.induct) (auto split: option.splits)

lemma for_each_save:
  "saves up ps s n x s' \<Longrightarrow>
     for_each (save_one up) ps \<lparr>run_world = s, run_saved = k, run_job = j\<rparr> =
       (case x of None \<Rightarrow> Inr () | Some e \<Rightarrow> Inl e,
        \<lparr>run_world = s', run_saved = k + n, run_job = j\<rparr>)"
proof (induction arbitrary: k rule: saves.induct)
  case (saved_one p s q s1 ps n x s')
  have "save_one up p \<lparr>run_world = s, run_saved = k, run_job = j\<rparr> =
      (Inr (), \<lparr>run_world = s1, run_saved = k + 1, run_job = j\<rparr>)"
    using save_one_Inr [of up p "\<lparr>run_world = s, run_saved = k, run_job = j\<rparr>"] saved_one(1) by simp
  with saved_one.IH [of "k + 1"] show ?case by (simp add: bindE_def)
next
  case (not_saved p s e s' ps)
  then show ?case
    using save_one_Inl [of up p "\<lparr>run_world = s, run_saved = k, run_job = j\<rparr>"] by (simp add: bindE_def)
qed simp

text \<open>How a run starts: the job is recorded as running before anything else happens.\<close>

lemma run_once_succeeds:
  assumes "ag_uuid4 agg s = (jid, s1)"
    and "jp_add (ag_jobs agg) (new_job jid (src_id src) (ag_now agg s1)) s1 = (Inr (), s2)"
    and "run_body agg src \<lparr>run_world = s2, run_saved = 0,
           run_job = new_job jid (src_id src) (ag_now agg s1)\<rparr> = (Inr (), r)"
  shows "run_once agg src s = (Inr (run_job r), run_world r)"
  by (simp add: run_once_def assms try_except_def Let_def)

lemma run_once_fails:
  assumes "ag_uuid4 agg s = (jid, s1)"
    and "jp_add (ag_jobs agg) (new_job jid (src_id src) (ag_now agg s1)) s1 = (Inr (), s2)"
    and "run_body agg src \<lparr>run_world = s2, run_saved = 0,
           run_job = new_job jid (src_id src) (ag_now agg s1)\<rparr> = (Inl e, r)"
  defines "job \<equiv> (run_job r)\<lparr>job_status := (if run_saved r > 0 then PARTIAL_FAILURE else FAILED),
                            job_error := Some (take 1000 (exn_str e)),
                            job_finished_at := Some (ag_now agg (run_world r)),
                            items_saved := run_saved r\<rparr>"
  shows "run_once agg src s =
    (case jp_update (ag_jobs agg) job (run_world r) of
       (Inl e', s') \<Rightarrow> (Inl e', s') | (Inr _, s') \<Rightarrow> (Inl e, s'))"
  by (auto simp: run_once_def assms(1-3) try_except_def Let_def run_failed_def bindE_def on_world_def
      job_def split: prod.splits sum.splits)

section \<open>A run against the laws of its ports\<close>

locale aggregation =
  program_repository "ag_upsert agg" find stored + job_repository "ag_jobs agg" jobs
  for agg :: "'s aggregator" and find :: "string \<Rightarrow> ('s, tv_program option) eff"
    and stored :: "'s \<Rightarrow> (string \<rightharpoonup> string \<times> string list \<times> int) option"
    and jobs :: "'s \<Rightarrow> (string \<rightharpoonup> crawl_job) option" +
  assumes fetch_keeps: "stored (snd (ag_fetch agg u h t s)) = stored s"
      "jobs (snd (ag_fetch agg u h t s)) = jobs s"
    and parse_keeps: "stored (snd (ag_parse agg b i s)) = stored s"
      "jobs (snd (ag_parse agg b i s)) = jobs s"
    and uuid_keeps: "stored (snd (ag_uuid4 agg s)) = stored s" "jobs (snd (ag_uuid4 agg s)) = jobs s"
    and uuid_fresh: "jobs s = Some jm \<Longrightarrow> jm (fst (ag_uuid4 agg s)) = None"
    and upsert_keeps: "stored s = Some m \<Longrightarrow> ag_upsert agg p s = (Inr q, s') \<Longrightarrow> jobs s' = jobs s"
    and jobs_keep: "jobs s = Some jm \<Longrightarrow> jp_add (ag_jobs agg) j s = (Inr (), s') \<Longrightarrow> jobs s' = Some jm' \<Longrightarrow>
        stored s' = stored s"
      "jobs s = Some jm \<Longrightarrow> jp_update (ag_jobs agg) j s = (Inr (), s') \<Longrightarrow> jobs s' = Some jm' \<Longrightarrow>
        stored s' = stored s"
    and tx_keeps: "ag_session_factory agg = Some tx \<Longrightarrow>
        \<exists>s'. tx_begin tx s = (Inr (), s') \<and> stored s' = stored s \<and> jobs s' = jobs s"
      "ag_session_factory agg = Some tx \<Longrightarrow>
        \<exists>s'. tx_commit tx s = (Inr (), s') \<and> stored s' = stored s \<and> jobs s' = jobs s"
begin

lemma started:
  assumes "stored s = Some m" "jobs s = Some jm"
  obtains jid s1 s2 where "ag_uuid4 agg s = (jid, s1)" "jm jid = None"
    "jp_add (ag_jobs agg) (new_job jid sid (ag_now agg s1)) s1 = (Inr (), s2)"
    "stored s2 = Some m" "jobs s2 = Some (jm(jid \<mapsto> naive_job (new_job jid sid (ag_now agg s1))))"
proof -
  obtain jid s1 where u: "ag_uuid4 agg s = (jid, s1)" by (metis surj_pair)
  have s1: "stored s1 = Some m" "jobs s1 = Some jm" "jm jid = None"
    using uuid_keeps [of s] uuid_fresh [OF assms(2)] assms u by simp_all
  let ?j = "new_job jid sid (ag_now agg s1)"
  have "job_id ?j = jid" "job_ok ?j" by (simp_all add: new_job_def job_ok_def)
  with add_job [OF s1(2), of ?j] s1(3) obtain s2 where s2: "jp_add (ag_jobs agg) ?j s1 = (Inr (), s2)"
      "jobs s2 = Some (jm(jid \<mapsto> naive_job ?j))" by auto
  moreover have "stored s2 = Some m" using jobs_keep(1) [OF s1(2) s2] s1(1) by simp
  ultimately show thesis using that u s1(3) by blast
qed

lemma saves_known:
  assumes "stored s = Some m" "jobs s = Some jm" "distinct (map identity_key ps)"
    and "\<And>p. p \<in> set ps \<Longrightarrow> m (identity_key p) \<noteq> None \<and> program_ok p"
  shows "\<exists>s' m'. saves (ag_upsert agg) ps s (length ps) None s' \<and> stored s' = Some m' \<and>
    jobs s' = Some jm \<and> (\<forall>k. k \<notin> identity_key ` set ps \<longrightarrow> m' k = m k) \<and>
    (\<forall>p \<in> set ps. \<forall>t ids v. m (identity_key p) = Some (t, ids, v) \<longrightarrow>
       m' (identity_key p) = Some (title p, sorted_set (ids @ source_ids p), v + 1))"
  using assms
proof (induction ps arbitrary: s m)
  case Nil
  have "saves (ag_upsert agg) [] s 0 None s" by (rule saved_all)
  with Nil show ?case by auto
next
  case (Cons p ps)
  let ?k = "identity_key p"
  have p: "m ?k \<noteq> None" "program_ok p" using Cons.prems(4) [of p] by simp_all
  then obtain t ids v where e: "m ?k = Some (t, ids, v)" by (metis option.exhaust prod_cases3)
  obtain q s1 where q: "ag_upsert agg p s = (Inr q, s1)"
      "summary q = (title p, sorted_set (ids @ source_ids p), v + 1)"
      "stored s1 = Some (m(?k \<mapsto> summary q))"
    using upsert_known [OF Cons.prems(1) e p(2)] by blast
  have j1: "jobs s1 = Some jm" using upsert_keeps [OF Cons.prems(1) q(1)] Cons.prems(2) by simp
  have other: "identity_key z \<noteq> ?k" if "z \<in> set ps" for z
    using Cons.prems(3) imageI [OF that, of identity_key] by auto
  have "(m(?k \<mapsto> summary q)) (identity_key z) \<noteq> None \<and> program_ok z" if "z \<in> set ps" for z
    using Cons.prems(4) [of z] other [OF that] that by simp
  from Cons.IH [OF q(3) j1 _ this] Cons.prems(3) obtain s' m' where IH:
    "saves (ag_upsert agg) ps s1 (length ps) None s'" "stored s' = Some m'" "jobs s' = Some jm"
    "\<forall>k. k \<notin> identity_key ` set ps \<longrightarrow> m' k = (m(?k \<mapsto> summary q)) k"
    "\<forall>z \<in> set ps. \<forall>t ids v. (m(?k \<mapsto> summary q)) (identity_key z) = Some (t, ids, v) \<longrightarrow>
       m' (identity_key z) = Some (title z, sorted_set (ids @ source_ids z), v + 1)" by auto
  have "m' ?k = Some (title p, sorted_set (ids @ source_ids p), v + 1)"
    using IH(4) other q(2) by (metis fun_upd_same imageE)
  moreover have "m' (identity_key z) = Some (title z, sorted_set (ids' @ source_ids z), v' + 1)"
    if "z \<in> set ps" "m (identity_key z) = Some (t', ids', v')" for z t' ids' v'
    using IH(5) that other [OF that(1)] by (metis fun_upd_other)
  moreover have "m' k = m k" if "k \<notin> identity_key ` set (p # ps)" for k
    using IH(4) that by simp
  ultimately show ?case
    using saved_one [where up = "ag_upsert agg" and p = p, OF q(1) IH(1)] IH(2,3) e by (intro exI [of _ s'] exI [of _ m']) auto
qed

lemma in_transaction_keeps:
  assumes "saves (ag_upsert agg) ps s n None s'" "stored s' = Some m'" "jobs s' = Some jm"
    and "\<And>w. stored w = stored s \<Longrightarrow> jobs w = jobs s \<Longrightarrow>
      \<exists>w'. saves (ag_upsert agg) ps w n None w' \<and> stored w' = Some m' \<and> jobs w' = Some jm"
  shows "\<exists>w. in_transaction (ag_session_factory agg) (for_each (save_one (ag_upsert agg)) ps)
      \<lparr>run_world = s, run_saved = 0, run_job = j\<rparr> =
        (Inr (), \<lparr>run_world = w, run_saved = n, run_job = j\<rparr>) \<and>
    stored w = Some m' \<and> jobs w = Some jm"
proof (cases "ag_session_factory agg")
  case None
  with for_each_save [OF assms(1), of 0 j] assms(2,3) show ?thesis by (simp add: in_transaction_def)
next
  case (Some tx)
  obtain s1 where s1: "tx_begin tx s = (Inr (), s1)" "stored s1 = stored s" "jobs s1 = jobs s"
    using tx_keeps(1) [OF Some] by blast
  obtain s2 where s2: "saves (ag_upsert agg) ps s1 n None s2" "stored s2 = Some m'" "jobs s2 = Some jm"
    using assms(4) [OF s1(2,3)] by blast
  obtain s3 where s3: "tx_commit tx s2 = (Inr (), s3)" "stored s3 = stored s2" "jobs s3 = jobs s2"
    using tx_keeps(2) [OF Some] by blast
  from for_each_save [OF s2(1), of 0 j] s1(1) s3 s2(2,3) show ?thesis
    by (simp add: in_transaction_def Some bindE_def on_world_def)
qed

text \<open>A run over known programmes: it ends in success and everything is counted.\<close>

lemma recrawl:
  assumes "stored s = Some m" "jobs s = Some jm" "has_url src"
    and "\<And>u h t s. \<exists>x. fst (ag_fetch agg u h t s) = Inr x"
    and "\<And>b i s. fst (ag_parse agg b i s) = Inr parsed"
    and "\<And>p. p \<in> set (merge (map apply_norm parsed)) \<Longrightarrow> m (identity_key p) \<noteq> None \<and> program_ok p"
  defines "ps \<equiv> merge (map apply_norm parsed)"
  shows "\<exists>j s' m'. run_once agg src s = (Inr j, s') \<and> job_status j = SUCCESS \<and>
    items_fetched j = length ps \<and> items_saved j = length ps \<and> job_source_id j = src_id src \<and>
    jm (job_id j) = None \<and> jobs s' = Some (jm(job_id j \<mapsto> naive_job j)) \<and> stored s' = Some m' \<and>
    (\<forall>k. k \<notin> identity_key ` set ps \<longrightarrow> m' k = m k) \<and>
    (\<forall>p \<in> set ps. \<forall>t ids v. m (identity_key p) = Some (t, ids, v) \<longrightarrow>
       m' (identity_key p) = Some (title p, sorted_set (ids @ source_ids p), v + 1))"
proof -
  obtain jid s1 s2 where st: "ag_uuid4 agg s = (jid, s1)" "jm jid = None"
    "jp_add (ag_jobs agg) (new_job jid (src_id src) (ag_now agg s1)) s1 = (Inr (), s2)"
    "stored s2 = Some m" "jobs s2 = Some (jm(jid \<mapsto> naive_job (new_job jid (src_id src) (ag_now agg s1))))"
    using started [OF assms(1,2)] .
  let ?new = "new_job jid (src_id src) (ag_now agg s1)"
  let ?jm = "jm(jid \<mapsto> naive_job ?new)"
  obtain x s3 where f: "ag_fetch agg (the (src_url src)) (headers_or_none src) 30 s2 = (Inr x, s3)"
      "stored s3 = Some m" "jobs s3 = Some ?jm"
    using assms(4) [of "the (src_url src)" "headers_or_none src" 30 s2] fetch_keeps st(4,5)
    by (metis prod.collapse)
  obtain s4 where g: "ag_parse agg (res_body x) (src_id src) s3 = (Inr parsed, s4)"
      "stored s4 = Some m" "jobs s4 = Some ?jm"
    using assms(5) [of "res_body x" "src_id src" s3] parse_keeps f(2,3) by (metis prod.collapse)
  have dist: "distinct (map identity_key ps)" by (simp add: ps_def merge_keys)
  have ok: "m (identity_key p) \<noteq> None \<and> program_ok p" if "p \<in> set ps" for p
    using assms(6) that by (simp add: ps_def)
  obtain s5 m' where sv: "saves (ag_upsert agg) ps s4 (length ps) None s5" "stored s5 = Some m'"
    "jobs s5 = Some ?jm" "\<forall>k. k \<notin> identity_key ` set ps \<longrightarrow> m' k = m k"
    "\<forall>p \<in> set ps. \<forall>t ids v. m (identity_key p) = Some (t, ids, v) \<longrightarrow>
       m' (identity_key p) = Some (title p, sorted_set (ids @ source_ids p), v + 1)"
    using saves_known [OF g(2,3) dist ok] by blast
  have again: "\<exists>w'. saves (ag_upsert agg) ps w (length ps) None w' \<and> stored w' = Some m' \<and> jobs w' = Some ?jm"
    if w: "stored w = stored s4" "jobs w = jobs s4" for w
  proof -
    obtain w' m2 where w': "saves (ag_upsert agg) ps w (length ps) None w'" "stored w' = Some m2"
      "jobs w' = Some ?jm" "\<forall>k. k \<notin> identity_key ` set ps \<longrightarrow> m2 k = m k"
      "\<forall>p \<in> set ps. \<forall>t ids v. m (identity_key p) = Some (t, ids, v) \<longrightarrow>
         m2 (identity_key p) = Some (title p, sorted_set (ids @ source_ids p), v + 1)"
      using saves_known [OF w(1) [unfolded g(2)] w(2) [unfolded g(3)] dist ok] by blast
    have "m2 k = m' k" for k
    proof (cases "k \<in> identity_key ` set ps")
      case True
      then obtain p where p: "p \<in> set ps" "k = identity_key p" by blast
      then obtain t ids v where "m k = Some (t, ids, v)" using ok by (metis option.exhaust prod_cases3)
      with p w'(5) sv(5) show ?thesis by simp
    qed (use w'(4) sv(4) in simp)
    with w' show ?thesis by (metis ext)
  qed
  obtain w where w: "in_transaction (ag_session_factory agg) (for_each (save_one (ag_upsert agg)) ps)
      \<lparr>run_world = s4, run_saved = 0, run_job = ?new\<rparr> =
        (Inr (), \<lparr>run_world = w, run_saved = length ps, run_job = ?new\<rparr>)"
    "stored w = Some m'" "jobs w = Some ?jm"
    using in_transaction_keeps [OF sv(1-3) again] by blast
  let ?j = "?new\<lparr>job_status := SUCCESS, items_fetched := length ps, items_saved := length ps,
      job_finished_at := Some (ag_now agg w)\<rparr>"
  have "?jm (job_id ?j) = Some (naive_job ?new)" by simp
  moreover have "same_job (naive_job ?new) ?j" by (simp add: same_job_def naive_job_def)
  moreover have "job_ok ?j" by (simp add: job_ok_def)
  ultimately obtain s6 where u: "jp_update (ag_jobs agg) ?j w = (Inr (), s6)"
      "jobs s6 = Some (?jm(job_id ?j \<mapsto> naive_job ?j))" using update_job [OF w(3)] by blast
  have stored6: "stored s6 = Some m'" using jobs_keep(2) [OF w(3) u] w(2) by simp
  have body: "run_body agg src \<lparr>run_world = s2, run_saved = 0, run_job = ?new\<rparr> =
      (Inr (), \<lparr>run_world = s6, run_saved = length ps, run_job = ?j\<rparr>)"
    using assms(3) w(1) u(1)
    by (simp add: run_body_def bindE_def on_world_def f(1) g(1) Let_def run_succeeded_def
        ps_def [symmetric])
  have id: "job_id ?j = jid" "job_source_id ?j = src_id src" by (simp_all add: new_job_def)
  from run_once_succeeds [OF st(1,3) body] have "run_once agg src s = (Inr ?j, s6)" by simp
  moreover have "jobs s6 = Some (jm(job_id ?j \<mapsto> naive_job ?j))" using u(2) id by simp
  ultimately show ?thesis using sv(4,5) stored6 id st(2) by (intro exI [of _ ?j] exI [of _ s6]) auto
qed

text \<open>A run that fails before anything is saved.\<close>

lemma failed_run:
  assumes "stored s = Some m" "jobs s = Some jm"
    and "(\<not> has_url src \<and> e = Exn ValueError (''source '' @ src_id src @ '' has no url'')) \<or>
      (has_url src \<and> (\<forall>s. fst (ag_fetch agg (the (src_url src)) (headers_or_none src) 30 s) = Inl e)) \<or>
      (has_url src \<and> (\<forall>s. \<exists>x. fst (ag_fetch agg (the (src_url src)) (headers_or_none src) 30 s) = Inr x) \<and>
         (\<forall>b s. fst (ag_parse agg b (src_id src) s) = Inl e))"
  shows "\<exists>j s'. run_once agg src s = (Inl e, s') \<and> stored s' = Some m \<and> jm (job_id j) = None \<and>
    jobs s' = Some (jm(job_id j \<mapsto> naive_job j)) \<and> job_source_id j = src_id src \<and> job_status j = FAILED \<and>
    job_error j = Some (take 1000 (exn_str e)) \<and> items_saved j = 0 \<and> job_finished_at j \<noteq> None"
proof -
  obtain jid s1 s2 where st: "ag_uuid4 agg s = (jid, s1)" "jm jid = None"
    "jp_add (ag_jobs agg) (new_job jid (src_id src) (ag_now agg s1)) s1 = (Inr (), s2)"
    "stored s2 = Some m" "jobs s2 = Some (jm(jid \<mapsto> naive_job (new_job jid (src_id src) (ag_now agg s1))))"
    using started [OF assms(1,2)] .
  let ?new = "new_job jid (src_id src) (ag_now agg s1)"
  let ?jm = "jm(jid \<mapsto> naive_job ?new)"
  let ?r = "\<lparr>run_world = s2, run_saved = 0, run_job = ?new\<rparr>"
  obtain w where w: "run_body agg src ?r = (Inl e, ?r\<lparr>run_world := w\<rparr>)"
      "stored w = Some m" "jobs w = Some ?jm"
  proof (cases "has_url src")
    case False
    with assms(3) st(4,5) that [of s2] show thesis by (simp add: run_body_def)
  next
    case True
    let ?f = "ag_fetch agg (the (src_url src)) (headers_or_none src) 30"
    obtain y s3 where f: "?f s2 = (y, s3)" by (metis surj_pair)
    then have s3: "stored s3 = Some m" "jobs s3 = Some ?jm"
      using fetch_keeps [of "the (src_url src)" "headers_or_none src" 30 s2] st(4,5) by simp_all
    show thesis
    proof (cases y)
      case (Inl e')
      with assms(3) True f have "e' = e" by (metis Inl_Inr_False fst_conv Inl_inject)
      with Inl f True s3 that [of s3] show thesis
        by (simp add: run_body_def bindE_def on_world_def)
    next
      case (Inr x)
      obtain z s4 where g: "ag_parse agg (res_body x) (src_id src) s3 = (z, s4)" by (metis surj_pair)
      then have s4: "stored s4 = Some m" "jobs s4 = Some ?jm"
        using parse_keeps [of "res_body x" "src_id src" s3] s3 by simp_all
      have "z = Inl e" using assms(3) True f g Inr by (metis Inl_Inr_False fst_conv)
      with Inr f g True s4 that [of s4] show thesis
        by (simp add: run_body_def bindE_def on_world_def)
    qed
  qed
  let ?j = "?new\<lparr>job_status := FAILED, job_error := Some (take 1000 (exn_str e)),
      job_finished_at := Some (ag_now agg w), items_saved := 0\<rparr>"
  have "?jm (job_id ?j) = Some (naive_job ?new)" by simp
  moreover have "same_job (naive_job ?new) ?j" by (simp add: same_job_def naive_job_def)
  moreover have "job_ok ?j" by (simp add: job_ok_def)
  ultimately obtain s6 where u: "jp_update (ag_jobs agg) ?j w = (Inr (), s6)"
      "jobs s6 = Some (?jm(job_id ?j \<mapsto> naive_job ?j))" using update_job [OF w(3)] by blast
  have stored6: "stored s6 = Some m" using jobs_keep(2) [OF w(3) u] w(2) by simp
  have "run_once agg src s = (Inl e, s6)"
    using run_once_fails [OF st(1,3) w(1)] u(1) by simp
  moreover have "jobs s6 = Some (jm(job_id ?j \<mapsto> naive_job ?j))" using u(2) by simp
  ultimately show ?thesis using stored6 st(2) by (intro exI [of _ ?j] exI [of _ s6]) simp
qed

end

section \<open>The crawl on the SQLAlchemy repositories\<close>

text \<open>The aggregator \<open>_AggFactory\<close> of \<open>app.py\<close> builds: one session, both repositories on it.\<close>

definition sql_aggregator ::
  "('s, program_row) session_api \<Rightarrow> ('s, job_row) session_api \<Rightarrow> repo_env \<Rightarrow> ('s \<Rightarrow> datetime) \<Rightarrow>
   (string \<Rightarrow> (string, string) dict option \<Rightarrow> real \<Rightarrow> ('s, fetch_result) eff) \<Rightarrow>
   (string \<Rightarrow> string \<Rightarrow> ('s, tv_program list) eff) \<Rightarrow> ('s \<Rightarrow> string \<times> 's) \<Rightarrow>
   's transaction option \<Rightarrow> 's aggregator" where
  "sql_aggregator papi japi env now fetch parse uuid4 factory =
     \<lparr>ag_fetch = fetch, ag_parse = parse, ag_upsert = upsert papi env now,
      ag_jobs = SQLAlchemyJobRepository japi, ag_session_factory = factory, ag_now = now,
      ag_uuid4 = uuid4\<rparr>"

lemma sql_aggregator_simps [simp]:
  "ag_fetch (sql_aggregator papi japi env now f p u t) = f"
  "ag_parse (sql_aggregator papi japi env now f p u t) = p"
  "ag_upsert (sql_aggregator papi japi env now f p u t) = upsert papi env now"
  "ag_jobs (sql_aggregator papi japi env now f p u t) = SQLAlchemyJobRepository japi"
  "ag_session_factory (sql_aggregator papi japi env now f p u t) = t"
  "ag_now (sql_aggregator papi japi env now f p u t) = now"
  "ag_uuid4 (sql_aggregator papi japi env now f p u t) = u"
  by (simp_all add: sql_aggregator_def)

text \<open>
  \<open>world_keeps v\<close>: the parts that are not the repositories' session leave \<open>v\<close> alone.  The
  transaction is one of them: \<open>session_factory()\<close> opens a second session, which
  \<open>program_repo\<close> does not use.
\<close>

definition world_keeps :: "'s aggregator \<Rightarrow> ('s \<Rightarrow> 'v) \<Rightarrow> bool" where
  "world_keeps agg v \<longleftrightarrow>
     (\<forall>u h t s. v (snd (ag_fetch agg u h t s)) = v s) \<and>
     (\<forall>b i s. v (snd (ag_parse agg b i s)) = v s) \<and> (\<forall>s. v (snd (ag_uuid4 agg s)) = v s) \<and>
     (\<forall>tx. ag_session_factory agg = Some tx \<longrightarrow>
        (\<forall>s. v (snd (tx_begin tx s)) = v s \<and> v (snd (tx_commit tx s)) = v s \<and> v (tx_rollback tx s) = v s))"

text \<open>What every collaborator leaves alone, a run leaves alone.\<close>

definition agg_keeps :: "'s aggregator \<Rightarrow> ('s \<Rightarrow> 'v) \<Rightarrow> bool" where
  "agg_keeps agg v \<longleftrightarrow> world_keeps agg v \<and> (\<forall>p s. v (snd (ag_upsert agg p s)) = v s) \<and>
     (\<forall>j s. v (snd (jp_add (ag_jobs agg) j s)) = v s) \<and>
     (\<forall>j s. v (snd (jp_update (ag_jobs agg) j s)) = v s)"

lemma on_world_frame:
  assumes "\<And>s. v (snd (m s)) = v s"
  shows "v (run_world (snd (on_world m r))) = v (run_world r)"
  using assms [of "run_world r"] by (cases "m (run_world r)") (simp add: on_world_def)

lemma run_once_frame:
  assumes "agg_keeps agg v"
  shows "v (snd (run_once agg src s)) = v s"
proof -
  let ?w = "\<lambda>r. v (run_world r)"
  note keeps = assms [unfolded agg_keeps_def world_keeps_def]
  have save: "?w (snd (save_one (ag_upsert agg) p r)) = ?w r" for p r
    unfolding save_one_def
    by (rule snd_bindE [where v = ?w]) (use keeps in \<open>auto intro: on_world_frame\<close>)
  have tx: "?w (snd (in_transaction (ag_session_factory agg) body r)) = ?w r"
    if body: "\<And>r. ?w (snd (body r)) = ?w r" for body r
  proof (cases "ag_session_factory agg")
    case (Some t)
    have t: "v (snd (tx_begin t s)) = v s" "v (snd (tx_commit t s)) = v s" "v (tx_rollback t s) = v s" for s
      using keeps Some by auto
    have "?w (snd (case body r of (Inl e, r') \<Rightarrow> (Inl e, r'\<lparr>run_world := tx_rollback t (run_world r')\<rparr>)
        | (Inr _, r') \<Rightarrow> on_world (tx_commit t) r')) = ?w r" for r
      using body [of r] by (auto simp: t on_world_frame [of v] split: prod.splits sum.splits)
    then show ?thesis
      unfolding in_transaction_def Some option.case
      by (intro snd_bindE [where v = ?w] on_world_frame) (simp_all add: t)
  qed (simp add: in_transaction_def body)
  have update: "?w (snd (on_world (jp_update (ag_jobs agg) j) r)) = ?w r" for j r
    by (rule on_world_frame) (use keeps in simp)
  have ok: "?w (snd (run_succeeded agg n r)) = ?w r" for n r
    by (simp add: run_succeeded_def Let_def update)
  have bad: "?w (snd (run_failed agg e r)) = ?w r" for e r
  proof -
    have "\<exists>j. run_failed agg e r =
        bindE (on_world (jp_update (ag_jobs agg) j)) (\<lambda>_. raise e) (r\<lparr>run_job := j\<rparr>)"
      unfolding run_failed_def Let_def by (rule exI) (rule refl)
    then obtain j where j: "run_failed agg e r =
        bindE (on_world (jp_update (ag_jobs agg) j)) (\<lambda>_. raise e) (r\<lparr>run_job := j\<rparr>)" by blast
    have "?w (snd (run_failed agg e r)) = ?w (r\<lparr>run_job := j\<rparr>)"
      unfolding j by (rule snd_bindE [where v = ?w]) (simp_all add: update)
    then show ?thesis by simp
  qed
  have body: "?w (snd (run_body agg src r)) = ?w r" for r
    unfolding run_body_def
    by (auto simp: Let_def ok intro!: snd_bindE [where v = ?w] on_world_frame tx snd_for_each [where v = ?w] save)
      (use keeps in auto)
  have tried: "?w (snd (try_except (run_body agg src) (\<lambda>_. True) (run_failed agg) r)) = ?w r" for r
    by (rule snd_try_except [where v = ?w]) (rule body, rule bad)
  obtain jid s1 where u: "ag_uuid4 agg s = (jid, s1)" by (metis surj_pair)
  then have s1: "v s1 = v s" using keeps by (metis snd_conv)
  show ?thesis
  proof (cases rule: eff_cases [of "jp_add (ag_jobs agg) (new_job jid (src_id src) (ag_now agg s1)) s1"])
    case (raised e s2)
    then show ?thesis using keeps u s1 by (simp add: run_once_def Let_def) (metis snd_conv)
  next
    case (returned x s2)
    then have "v s2 = v s" using keeps s1 by (metis snd_conv)
    with returned u tried [of "\<lparr>run_world = s2, run_saved = 0,
        run_job = new_job jid (src_id src) (ag_now agg s1)\<rparr>"] show ?thesis
      by (auto simp: run_once_def Let_def split: prod.splits sum.splits)
  qed
qed

locale crawl_tables =
  pr: program_session papi pview env now + jb: job_session japi jview
  for papi :: "('s, program_row) session_api" and pview :: "'s \<Rightarrow> program_row set option"
    and japi :: "('s, job_row) session_api" and jview :: "'s \<Rightarrow> job_row set option"
    and env :: repo_env and now :: "'s \<Rightarrow> datetime" +
  fixes agg :: "'s aggregator"
  assumes upsert_is: "ag_upsert agg = upsert papi env now"
    and jobs_is: "ag_jobs agg = SQLAlchemyJobRepository japi"
    and world: "world_keeps agg pview" "world_keeps agg jview"
    and fresh: "job_map jview s = Some jm \<Longrightarrow> jm (fst (ag_uuid4 agg s)) = None"
    and separate: "shares_session papi pview jview" "shares_session japi jview pview"
    and tx_succeeds: "ag_session_factory agg = Some tx \<Longrightarrow>
      fst (tx_begin tx s) = Inr () \<and> fst (tx_commit tx s) = Inr ()"
begin

lemma tx_frame:
  assumes "ag_session_factory agg = Some tx"
  shows "pview (snd (tx_begin tx s)) = pview s" "pview (snd (tx_commit tx s)) = pview s"
    "jview (snd (tx_begin tx s)) = jview s" "jview (snd (tx_commit tx s)) = jview s"
  using world assms by (auto simp: world_keeps_def)

end

sublocale crawl_tables \<subseteq> crawl: aggregation agg "find_by_identity papi env" "catalogue env pview" "job_map jview"
proof (intro aggregation.intro aggregation_axioms.intro)
  show "program_repository (ag_upsert agg) (find_by_identity papi env) (catalogue env pview)"
    unfolding upsert_is by (rule pr.repo.program_repository_axioms)
  show "job_repository (ag_jobs agg) (job_map jview)"
    unfolding jobs_is by (rule jb.repo.job_repository_axioms)
  fix u h t b i and s s' :: 's and j jm tx p and q :: tv_program
  show "catalogue env pview (snd (ag_fetch agg u h t s)) = catalogue env pview s"
    "job_map jview (snd (ag_fetch agg u h t s)) = job_map jview s"
    "catalogue env pview (snd (ag_parse agg b i s)) = catalogue env pview s"
    "job_map jview (snd (ag_parse agg b i s)) = job_map jview s"
    "catalogue env pview (snd (ag_uuid4 agg s)) = catalogue env pview s"
    "job_map jview (snd (ag_uuid4 agg s)) = job_map jview s"
    using world by (simp_all add: world_keeps_def catalogue_def job_map_def)
  show "jm (fst (ag_uuid4 agg s)) = None" if "job_map jview s = Some jm" by (rule fresh [OF that])
  show "job_map jview s' = job_map jview s" if "catalogue env pview s = Some m" "ag_upsert agg p s = (Inr q, s')" for m
    using pr.upsert_shares [OF separate(1)] that by (auto simp: upsert_is job_map_def catalogue_Some)
  show "catalogue env pview s' = catalogue env pview s" if "job_map jview s = Some jm"
    "jp_add (ag_jobs agg) j s = (Inr (), s')" "job_map jview s' = Some jm'" for jm'
    using jb.job_add_shares [OF separate(2)] that
    by (auto simp: jobs_is SQLAlchemyJobRepository_def catalogue_def elim!: job_mapE)
  show "catalogue env pview s' = catalogue env pview s" if "job_map jview s = Some jm"
    "jp_update (ag_jobs agg) j s = (Inr (), s')" "job_map jview s' = Some jm'" for jm'
    using jb.job_update_shares [OF separate(2)] that
    by (auto simp: jobs_is SQLAlchemyJobRepository_def catalogue_def elim!: job_mapE)
  assume tx: "ag_session_factory agg = Some tx"
  show "\<exists>s'. tx_begin tx s = (Inr (), s') \<and> catalogue env pview s' = catalogue env pview s \<and>
      job_map jview s' = job_map jview s"
    using tx_succeeds [OF tx, of s] tx_frame [OF tx, of s]
    by (cases "tx_begin tx s") (simp add: catalogue_def job_map_def)
  show "\<exists>s'. tx_commit tx s = (Inr (), s') \<and> catalogue env pview s' = catalogue env pview s \<and>
      job_map jview s' = job_map jview s"
    using tx_succeeds [OF tx, of s] tx_frame [OF tx, of s]
    by (cases "tx_commit tx s") (simp add: catalogue_def job_map_def)
qed

context crawl_tables
begin

lemmas recrawl = crawl.recrawl

lemmas failed_run = crawl.failed_run

end

section \<open>An aggregator over in-memory tables\<close>

text \<open>
  Every fetch answers, every page parses to \<open>parsed\<close>, and a new job id is longer than every
  id in use.
\<close>

type_synonym mem_crawl = "program_row list option \<times> job_row list option"

definition demo_uuid4 :: "mem_crawl \<Rightarrow> string \<times> mem_crawl" where
  "demo_uuid4 s =
     (case snd s of
        None \<Rightarrow> []
      | Some rs \<Rightarrow> replicate (Suc (sum_list (map (\<lambda>r. length (jrow_id r)) rs))) CHR ''x'', s)"

definition demo_aggregator :: "tv_program list \<Rightarrow> mem_crawl transaction option \<Rightarrow> mem_crawl aggregator" where
  "demo_aggregator parsed factory =
     sql_aggregator (on_fst mem_programs) (on_snd mem_jobs) demo_env (\<lambda>_. sample_time)
       (\<lambda>u h t s. (Inr \<lparr>res_url = u, res_status_code = 200, res_body = [], res_headers = [],
                         res_elapsed_ms = 1\<rparr>, s))
       (\<lambda>b i s. (Inr parsed, s)) demo_uuid4 factory"

definition idle_transaction :: "mem_crawl transaction" where
  "idle_transaction = \<lparr>tx_begin = ret (), tx_commit = ret (), tx_rollback = id\<rparr>"

lemma demo_uuid4_fresh:
  assumes "job_map (\<lambda>s :: mem_crawl. mem_jobs_view (snd s)) s = Some jm"
  shows "jm (fst (demo_uuid4 s)) = None"
proof -
  obtain S where S: "mem_jobs_view (snd s) = Some S" "jm = keyed jrow_id row_job S"
    using assms by (rule job_mapE)
  then obtain rs where rs: "snd s = Some rs" "set rs = S" by (auto simp: mem_view_eq_Some)
  have "jrow_id r \<noteq> fst (demo_uuid4 s)" if "r \<in> S" for r
  proof -
    have "length (jrow_id r) \<le> sum_list (map (\<lambda>r. length (jrow_id r)) rs)"
      using that rs(2) by (intro member_le_sum_list) auto
    then have "length (jrow_id r) < length (fst (demo_uuid4 s))"
      by (simp add: demo_uuid4_def rs(1))
    then show ?thesis by auto
  qed
  then show ?thesis by (simp add: S(2) keyed_None)
qed

interpretation mem_crawl: crawl_tables
  "on_fst mem_programs" "\<lambda>s. mem_programs_view (fst s)" "on_snd mem_jobs" "\<lambda>s. mem_jobs_view (snd s)"
  demo_env "\<lambda>_. sample_time" "demo_aggregator parsed (Some idle_transaction)" for parsed
proof (intro crawl_tables.intro crawl_tables_axioms.intro)
  show "program_session (on_fst mem_programs) (\<lambda>s :: mem_crawl. mem_programs_view (fst s))"
    unfolding program_session_def by (rule sql_session_on_fst) (rule program_table.mem.sql_session_axioms)
  show "job_session (on_snd mem_jobs) (\<lambda>s :: mem_crawl. mem_jobs_view (snd s))"
    unfolding job_session_def by (rule sql_session_on_snd) (rule job_table.mem.sql_session_axioms)
  show "shares_session (on_fst mem_programs) (\<lambda>s :: mem_crawl. mem_programs_view (fst s)) (\<lambda>s. mem_jobs_view (snd s))"
    by (rule session_frame_shares) (rule session_frame_on_fst)
  show "shares_session (on_snd mem_jobs) (\<lambda>s :: mem_crawl. mem_jobs_view (snd s)) (\<lambda>s. mem_programs_view (fst s))"
    by (rule session_frame_shares) (rule session_frame_on_snd)
  show "jm (fst (ag_uuid4 (demo_aggregator parsed (Some idle_transaction)) s)) = None"
    if "job_map (\<lambda>s. mem_jobs_view (snd s)) s = Some jm" for s jm
    using demo_uuid4_fresh [OF that] by (simp add: demo_aggregator_def)
qed (auto simp: demo_aggregator_def world_keeps_def idle_transaction_def demo_uuid4_def)

section \<open>Properties\<close>

text \<open>
  Crawling a source again.  When the page can be fetched and parsed and the catalogue
  knows every programme on it (with a title that is valid after normalisation), the run
  returns a job that is \<open>SUCCESS\<close> and counts every distinct identity key once as fetched and
  saved; exactly that job is stored in the job table, beside the jobs that were there; every
  crawled entry has the normalised title, the sorted union of its sources and a version one
  higher, and every other entry of the catalogue is unchanged.
\<close>

theorem recrawl_succeeds:
  assumes "crawl_tables papi pview japi jview env now agg"
    and "catalogue env pview s = Some m" and "job_map jview s = Some jm" and "has_url src"
    and "\<And>u h t s. \<exists>x. fst (ag_fetch agg u h t s) = Inr x"
    and "\<And>b i s. fst (ag_parse agg b i s) = Inr parsed"
    and "\<And>p. p \<in> set (merge (map apply_norm parsed)) \<Longrightarrow> m (identity_key p) \<noteq> None \<and> program_ok p"
  shows "\<exists>j s' m'. run_once agg src s = (Inr j, s') \<and> job_status j = SUCCESS \<and>
    items_fetched j = card (identity_key ` set parsed) \<and>
    items_saved j = card (identity_key ` set parsed) \<and>
    jm (job_id j) = None \<and> job_map jview s' = Some (jm(job_id j \<mapsto> naive_job j)) \<and>
    catalogue env pview s' = Some m' \<and>
    (\<forall>k. k \<notin> identity_key ` set parsed \<longrightarrow> m' k = m k) \<and>
    (\<forall>p \<in> set (merge (map apply_norm parsed)). \<forall>t ids v. m (identity_key p) = Some (t, ids, v) \<longrightarrow>
       m' (identity_key p) = Some (title p, sorted_set (ids @ source_ids p), v + 1))"
proof -
  let ?ps = "merge (map apply_norm parsed)"
  have keys: "identity_key ` set ?ps = identity_key ` set parsed"
    using arg_cong [OF merge_keys [of "map apply_norm parsed"], of set]
    by (simp add: apply_norm_def image_image)
  have "distinct (map identity_key ?ps)" by (simp add: merge_keys)
  then have len: "length ?ps = card (identity_key ` set parsed)"
    using distinct_card [of "map identity_key ?ps"] keys by simp
  show ?thesis
    using crawl_tables.recrawl [OF assms(1-4), of parsed] assms(5-7) unfolding keys len by blast
qed

lemma norm_sample [simp]: "apply_norm (sample_program k s) = sample_program k s"
proof -
  have "normalize_title ''News'' = ''News''" by code_simp
  then show ?thesis by (simp add: apply_norm_def sample_program_def)
qed

lemma merge_single [simp]: "merge [p] = [p]"
  by (rule merge_distinct_id) simp

theorem recrawl_succeeds_witness:
  "\<exists>j s' m'. run_once (demo_aggregator [sample_program ''k'' ''b''] (Some idle_transaction))
      (sample_source ''b'') (Some [sample_row ''k'' ''a''], Some []) = (Inr j, s') \<and>
    job_status j = SUCCESS \<and> items_saved j = 1 \<and>
    catalogue demo_env (\<lambda>s. mem_programs_view (fst s)) s' = Some m' \<and>
    m' ''k'' = Some (''News'', [''a'', ''b''], 2)"
proof -
  let ?s = "(Some [sample_row ''k'' ''a''], Some []) :: mem_crawl"
  have "catalogue demo_env mem_programs_view (Some [sample_row ''k'' ''a'']) =
      Some [''k'' \<mapsto> (''News'', [''a''], 1)]"
    using mem_catalogue_single [of "sample_row ''k'' ''a''"] by (simp add: from_domain_valid)
  then have c: "catalogue demo_env (\<lambda>s :: mem_crawl. mem_programs_view (fst s)) ?s =
      Some [''k'' \<mapsto> (''News'', [''a''], 1)]" by (simp add: catalogue_def)
  have j: "job_map (\<lambda>s :: mem_crawl. mem_jobs_view (snd s)) ?s = Some Map.empty"
    by (simp add: job_map_def mem_view_def mem_rows_def mem_ok_def)
  have u: "has_url (sample_source ''b'')" by (simp add: has_url_def)
  have srt: "sorted_set [''a'', ''b''] = [''a'', ''b'']" by code_simp
  show ?thesis
    using recrawl_succeeds [OF mem_crawl.crawl_tables_axioms [of "[sample_program ''k'' ''b'']"] c j u,
        of "[sample_program ''k'' ''b'']"]
    by (auto simp: demo_aggregator_def srt)
qed

text \<open>
  C13: a crawl that fails before saving.  When the source has no URL, the fetch raises or the
  parser raises, \<open>run_once\<close> re-raises exactly that exception, the catalogue is unchanged, and
  the job table holds one more job: \<open>FAILED\<close>, for this source, with the first 1000 characters
  of the message, nothing saved and an end time.  No job stays \<open>RUNNING\<close>.
\<close>

theorem failed_crawl_recorded:
  assumes "crawl_tables papi pview japi jview env now agg"
    and "catalogue env pview s = Some m" and "job_map jview s = Some jm"
    and "(\<not> has_url src \<and> e = Exn ValueError (''source '' @ src_id src @ '' has no url'')) \<or>
      (has_url src \<and> (\<forall>s. fst (ag_fetch agg (the (src_url src)) (headers_or_none src) 30 s) = Inl e)) \<or>
      (has_url src \<and> (\<forall>s. \<exists>x. fst (ag_fetch agg (the (src_url src)) (headers_or_none src) 30 s) = Inr x) \<and>
         (\<forall>b s. fst (ag_parse agg b (src_id src) s) = Inl e))"
  shows "\<exists>j s'. run_once agg src s = (Inl e, s') \<and> catalogue env pview s' = Some m \<and>
    jm (job_id j) = None \<and> job_map jview s' = Some (jm(job_id j \<mapsto> naive_job j)) \<and>
    job_source_id j = src_id src \<and> job_status j = FAILED \<and>
    job_error j = Some (take 1000 (exn_str e)) \<and> items_saved j = 0 \<and> job_finished_at j \<noteq> None"
  by (rule crawl_tables.failed_run [OF assms])

theorem failed_crawl_recorded_witness:
  "\<exists>j s'. run_once (demo_aggregator [] (Some idle_transaction)) ((sample_source ''b'')\<lparr>src_url := None\<rparr>)
      (Some [], Some []) = (Inl (Exn ValueError ''source b has no url''), s') \<and>
    job_map (\<lambda>s. mem_jobs_view (snd s)) s' = Some [job_id j \<mapsto> naive_job j] \<and> job_status j = FAILED"
proof -
  let ?s = "(Some [], Some []) :: mem_crawl"
  have c: "catalogue demo_env (\<lambda>s :: mem_crawl. mem_programs_view (fst s)) ?s = Some Map.empty"
    by (simp add: catalogue_def mem_view_def mem_rows_def mem_ok_def)
  have j: "job_map (\<lambda>s :: mem_crawl. mem_jobs_view (snd s)) ?s = Some Map.empty"
    by (simp add: job_map_def mem_view_def mem_rows_def mem_ok_def)
  show ?thesis
    using failed_crawl_recorded [OF mem_crawl.crawl_tables_axioms [of "[]"] c j,
        of "(sample_source ''b'')\<lparr>src_url := None\<rparr>" "Exn ValueError ''source b has no url''"]
    by (auto simp: has_url_def)
qed



text \<open>
  One source cannot stop the others.  When the registry can list its sources,
  \<open>crawl_all_active\<close> never raises, whatever the runs raise: every active source is run once, in
  the order of the list, each in the state the runs before it left.
\<close>

theorem crawl_all_active_total:
  assumes "registry_active registry s = (Inr xs, s1)"
  shows "crawl_all_active run registry s = (Inr (), fold (\<lambda>x s. snd (run x s)) xs s1)"
proof -
  have one: "try_except (bindE (run x) (\<lambda>_. ret ())) (\<lambda>_. True) (\<lambda>_. ret ()) s = (Inr (), snd (run x s))" for x s
    by (cases rule: eff_cases [of "run x s"]) (simp_all add: try_except_def bindE_def)
  have "for_each (\<lambda>x. try_except (bindE (run x) (\<lambda>_. ret ())) (\<lambda>_. True) (\<lambda>_. ret ())) xs s =
      (Inr (), fold (\<lambda>x s. snd (run x s)) xs s)" for xs s
    by (induction xs arbitrary: s) (simp_all add: bindE_def one)
  then show ?thesis by (simp add: crawl_all_active_def bindE_def assms)
qed

theorem crawl_all_active_total_witness:
  "crawl_all_active (\<lambda>x s. (Inl (Exn OtherError ''down''), s)) mem_source_port
     (Some [source_row_of (sample_source ''a'')]) =
   (Inr (), Some [source_row_of (sample_source ''a'')])"
proof -
  have dom: "source_to_domain (source_row_of (sample_source ''a'')) = Inr (naive_source (sample_source ''a''))"
    by (simp add: source_to_domain_store source_to_domain_from_domain)
  have st: "srow_status (source_row_of (sample_source ''a'')) = ''active''"
    by (simp add: source_from_domain_def)
  have "registry_active mem_source_port (Some [source_row_of (sample_source ''a'')]) =
      (Inr [naive_source (sample_source ''a'')], Some [source_row_of (sample_source ''a'')])"
    using dom st
    by (simp add: registry_active_def SQLAlchemySourceRepository_def source_list_def mem_session_def
        bindE_def mem_flush_def mem_rows_def mem_ok_def run_query_def source_query_def)
  from crawl_all_active_total [OF this, of "\<lambda>x s. (Inl (Exn OtherError ''down''), s)"]
  show ?thesis by simp
qed

end
