(* ===== verification/Parsers.thy ===== *)
theory Parsers
  imports Domain
begin

text \<open>
  \<open>plugins/parsers\<close>: the common constructor \<open>to_program\<close>, the JSON parser and the item loop
  it shares with the LLM parser.  \<open>parse_env\<close> holds the library functions the parsers call:
  the decoding \<open>json.loads\<close> applies to bytes, \<open>json.loads\<close> of the text,
  \<open>datetime.fromisoformat\<close> and \<open>isoformat\<close>, SHA-1, Python's rendering of floats and
  containers, and the clock.  \<open>parse_env_ok\<close> says which exceptions the first three raise.
\<close>

record parse_env =
  json_decode :: "string \<Rightarrow> exn + string"
  json_loads :: "string \<Rightarrow> exn + json"
  fromisoformat :: "string \<Rightarrow> exn + datetime"
  isoformat :: "datetime \<Rightarrow> string"
  sha1_hex :: "string \<Rightarrow> string"
  str_of_json :: "json \<Rightarrow> string"
  utcnow :: datetime

definition parse_env_ok :: "parse_env \<Rightarrow> bool" where
  "parse_env_ok env \<longleftrightarrow>
     (\<forall>s e. json_decode env s = Inl e \<longrightarrow> exc e = UnicodeDecodeError) \<and>
     (\<forall>s e. json_loads env s = Inl e \<longrightarrow> exc e = JSONDecodeError) \<and>
     (\<forall>s e. fromisoformat env s = Inl e \<longrightarrow> exc e = ValueError)"

section \<open>JSON values in Python\<close>

fun truthy :: "json \<Rightarrow> bool" where
  "truthy JNull = False"
| "truthy (JBool b) = b"
| "truthy (JInt i) = (i \<noteq> 0)"
| "truthy (JFloat x) = (x \<noteq> 0)"
| "truthy (JStr s) = (s \<noteq> [])"
| "truthy (JList xs) = (xs \<noteq> [])"
| "truthy (JObj d) = (d \<noteq> [])"

definition json_or :: "json \<Rightarrow> json \<Rightarrow> json" where
  "json_or a b = (if truthy a then a else b)"

text \<open>\<open>d.get(k)\<close> and \<open>d[k]\<close> of a dict.\<close>

definition json_get :: "(string \<times> json) list \<Rightarrow> string \<Rightarrow> json" where
  "json_get d k = (case map_of d k of None \<Rightarrow> JNull | Some v \<Rightarrow> v)"

section \<open>The common constructor\<close>

definition make_identity_key :: "parse_env \<Rightarrow> string \<Rightarrow> string \<Rightarrow> datetime \<Rightarrow> string" where
  "make_identity_key env title' chan start =
     sha1_hex env (lower (strip title') @ ''|'' @ chan @ ''|'' @ isoformat env start)"

text \<open>
  \<open>to_program\<close>; the parsers pass the description as the JSON value they found, which pydantic
  accepts when it is a string or null.
\<close>

definition description_of :: "json \<Rightarrow> exn + string option" where
  "description_of j =
     (case j of
        JNull \<Rightarrow> Inr None
      | JStr s \<Rightarrow> Inr (Some s)
      | _ \<Rightarrow> Inl (Exn ValidationError ''description: input should be a valid string''))"

definition to_program ::
  "parse_env \<Rightarrow> string \<Rightarrow> channel \<Rightarrow> datetime \<Rightarrow> datetime \<Rightarrow> json \<Rightarrow> string \<Rightarrow> exn + tv_program" where
  "to_program env title' chan start end' desc source_id =
     (case description_of desc of
        Inl e \<Rightarrow> Inl e
      | Inr d \<Rightarrow>
          (let p = \<lparr>prog_id = None, title = strip title', description = d, channel = chan,
                    slot = \<lparr>slot_start = start, slot_end = end', slot_timezone = ''UTC''\<rparr>,
                    tags = [], source_ids = [source_id],
                    identity_key = make_identity_key env title' (channel_id chan) start,
                    created_at = utcnow env, updated_at = utcnow env, version = 1\<rparr>
           in validated (program_ok p) p))"

section \<open>The item loop\<close>

definition replace_z :: "string \<Rightarrow> string" where
  "replace_z s = replace_all ''Z'' ''+00:00'' s"

text \<open>\<open>except ValueError as e: raise ParseError(...)\<close>\<close>

definition value_error_to_parse_error :: "string \<Rightarrow> exn + 'a \<Rightarrow> exn + 'a" where
  "value_error_to_parse_error msg r =
     (case r of
        Inl e \<Rightarrow> Inl (if isinstance e ValueError then Exn ParseError (msg @ exn_str e) else e)
      | Inr x \<Rightarrow> Inr x)"

definition parse_times :: "parse_env \<Rightarrow> string \<Rightarrow> json \<Rightarrow> json \<Rightarrow> exn + datetime \<times> datetime" where
  "parse_times env msg s e =
     value_error_to_parse_error msg
       (case fromisoformat env (replace_z (py_str (str_of_json env) s)) of
          Inl x \<Rightarrow> Inl x
        | Inr start \<Rightarrow>
            (case fromisoformat env (replace_z (py_str (str_of_json env) e)) of
               Inl x \<Rightarrow> Inl x | Inr end' \<Rightarrow> Inr (start, end')))"

definition mk_channel :: "string \<Rightarrow> string \<Rightarrow> exn + channel" where
  "mk_channel i n =
     (let c = \<lparr>channel_id = i, channel_name = n, logo_url = None, country = None, language = None\<rparr>
      in validated (channel_ok c) c)"

text \<open>
  One item of the JSON parser: \<open>None\<close> when the loop skips it.  The channel is built after the
  times, as the argument of \<open>to_program\<close>.
\<close>

definition json_item :: "parse_env \<Rightarrow> string \<Rightarrow> json \<Rightarrow> exn + tv_program option" where
  "json_item env source_id it =
     (case it of
        JObj d \<Rightarrow>
          (case (map_of d ''title'', map_of d ''start'', map_of d ''end'') of
             (Some t, Some s, Some e) \<Rightarrow>
               (let str = py_str (str_of_json env);
                    ch_id = str (json_or (json_get d ''channel_id'')
                              (json_or (json_get d ''channel'') (JStr ''unknown'')));
                    ch_name = str (json_or (json_get d ''channel_name'')
                              (json_or (json_get d ''channel'') (JStr ''unknown'')))
                in case parse_times env ''bad datetime: '' s e of
                     Inl x \<Rightarrow> Inl x
                   | Inr (start, end') \<Rightarrow>
                       (case mk_channel ch_id ch_name of
                          Inl x \<Rightarrow> Inl x
                        | Inr ch \<Rightarrow>
                            map_sum id Some
                              (to_program env (str t) ch start end' (json_get d ''description'') source_id)))
           | _ \<Rightarrow> Inr None)
      | _ \<Rightarrow> Inr None)"

text \<open>The LLM parser builds the channel first and has no \<open>channel\<close> fallback for the id.\<close>

definition llm_item :: "parse_env \<Rightarrow> string \<Rightarrow> json \<Rightarrow> exn + tv_program option" where
  "llm_item env source_id it =
     (case it of
        JObj d \<Rightarrow>
          (case (map_of d ''title'', map_of d ''start'', map_of d ''end'') of
             (Some t, Some s, Some e) \<Rightarrow>
               (let str = py_str (str_of_json env);
                    ch_id = str (json_or (json_get d ''channel_id'') (JStr ''unknown''));
                    ch_name = str (json_or (json_get d ''channel_name'')
                              (json_or (json_get d ''channel'') (JStr ''unknown'')))
                in case mk_channel ch_id ch_name of
                     Inl x \<Rightarrow> Inl x
                   | Inr ch \<Rightarrow>
                       (case parse_times env ''bad datetime from llm: '' s e of
                          Inl x \<Rightarrow> Inl x
                        | Inr (start, end') \<Rightarrow>
                            map_sum id Some
                              (to_program env (str t) ch start end' (json_get d ''description'') source_id)))
           | _ \<Rightarrow> Inr None)
      | _ \<Rightarrow> Inr None)"

fun parse_items :: "(json \<Rightarrow> exn + tv_program option) \<Rightarrow> json list \<Rightarrow> exn + tv_program list" where
  "parse_items item [] = Inr []"
| "parse_items item (it # its) =
     (case item it of
        Inl e \<Rightarrow> Inl e
      | Inr p \<Rightarrow>
          (case parse_items item its of
             Inl e \<Rightarrow> Inl e
           | Inr ps \<Rightarrow> Inr (case p of None \<Rightarrow> ps | Some q \<Rightarrow> q # ps)))"

text \<open>
  \<open>data if isinstance(data, list) else data.get("items") or data.get("programs") or []\<close>: a
  root that is neither a list nor a dict has no \<open>get\<close>.
\<close>

definition root_items :: "json \<Rightarrow> exn + json" where
  "root_items data =
     (case data of
        JList xs \<Rightarrow> Inr data
      | JObj d \<Rightarrow> Inr (json_or (json_get d ''items'') (json_or (json_get d ''programs'') (JList [])))
      | _ \<Rightarrow> Inl (Exn AttributeError ''object has no attribute get''))"

definition parse_root ::
  "string \<Rightarrow> (json \<Rightarrow> exn + tv_program option) \<Rightarrow> json \<Rightarrow> exn + tv_program list" where
  "parse_root msg item data =
     (case root_items data of
        Inl e \<Rightarrow> Inl e
      | Inr (JList its) \<Rightarrow> parse_items item its
      | Inr _ \<Rightarrow> Inl (Exn ParseError msg))"

text \<open>
  \<open>json.loads(content)\<close> of the body's bytes: \<open>UnicodeDecodeError\<close> is a \<open>ValueError\<close> but no
  \<open>JSONDecodeError\<close>, so the handler lets it through.
\<close>

definition loads_bytes :: "parse_env \<Rightarrow> string \<Rightarrow> exn + json" where
  "loads_bytes env content =
     (case json_decode env content of Inl e \<Rightarrow> Inl e | Inr text \<Rightarrow> json_loads env text)"

definition json_parse :: "parse_env \<Rightarrow> string \<Rightarrow> string \<Rightarrow> exn + tv_program list" where
  "json_parse env source_id content =
     (case loads_bytes env content of
        Inl e \<Rightarrow>
          Inl (if isinstance e JSONDecodeError then Exn ParseError (''invalid json: '' @ exn_str e) else e)
      | Inr data \<Rightarrow> parse_root ''json root must be list or {items:[]}'' (json_item env source_id) data)"

section \<open>What the parsers produce\<close>

text \<open>The programmes of a page: new, valid, of one source, under the key of their own fields.\<close>

definition parsed_program :: "parse_env \<Rightarrow> string \<Rightarrow> tv_program \<Rightarrow> bool" where
  "parsed_program env sid p \<longleftrightarrow>
     prog_id p = None \<and> program_ok p \<and> channel_ok (channel p) \<and> logo_url (channel p) = None \<and>
     stripped (title p) \<and> source_ids p = [sid] \<and> tags p = [] \<and> version p = 1 \<and>
     identity_key p = make_identity_key env (title p) (channel_id (channel p)) (slot_start (slot p))"

lemma mk_channel_Inr: "mk_channel i n = Inr c \<Longrightarrow> channel_ok c \<and> logo_url c = None"
  by (auto simp: mk_channel_def Let_def)

lemma to_program_Inr:
  "to_program env t c s e d sid = Inr p \<Longrightarrow> channel_ok c \<Longrightarrow> logo_url c = None \<Longrightarrow> parsed_program env sid p"
  by (auto simp: to_program_def Let_def parsed_program_def make_identity_key_def stripped_strip
      split: sum.splits)

lemma made_program:
  "mk_channel i n = Inr c \<Longrightarrow> to_program env t c s e d sid = Inr p \<Longrightarrow> parsed_program env sid p"
  using mk_channel_Inr to_program_Inr by blast

lemma map_sum_Some: "map_sum id Some r = Inr (Some p) \<Longrightarrow> r = Inr p"
  by (cases r) auto

lemma json_item_Inr: "json_item env sid it = Inr (Some p) \<Longrightarrow> parsed_program env sid p"
  by (auto simp: json_item_def Let_def split: json.splits option.splits sum.splits
      dest!: map_sum_Some intro: made_program)

lemma llm_item_Inr: "llm_item env sid it = Inr (Some p) \<Longrightarrow> parsed_program env sid p"
  by (auto simp: llm_item_def Let_def split: json.splits option.splits sum.splits
      dest!: map_sum_Some intro: made_program)

lemma parse_items_Inr:
  assumes "parse_items item its = Inr ps" "\<And>it p. item it = Inr (Some p) \<Longrightarrow> Q p"
  shows "(\<forall>p \<in> set ps. Q p) \<and> length ps \<le> length its"
  using assms(1)
proof (induction its arbitrary: ps)
  case (Cons it its)
  then obtain x qs where x: "item it = Inr x" "parse_items item its = Inr qs"
      "ps = (case x of None \<Rightarrow> qs | Some q \<Rightarrow> q # qs)"
    by (auto split: sum.splits)
  with Cons.IH [OF x(2)] assms(2) show ?case by (auto split: option.splits)
qed simp

lemma parse_root_Inr:
  assumes "parse_root msg item data = Inr ps" "\<And>it p. item it = Inr (Some p) \<Longrightarrow> Q p"
  shows "\<forall>p \<in> set ps. Q p"
proof -
  from assms(1) obtain its where "parse_items item its = Inr ps"
    by (auto simp: parse_root_def split: sum.splits json.splits)
  from parse_items_Inr [where Q = Q, OF this] assms(2) show ?thesis by blast
qed

section \<open>Which errors escape\<close>

lemma parse_times_error:
  "parse_env_ok env \<Longrightarrow> parse_times env msg s e = Inl x \<Longrightarrow> exc x = ParseError"
  by (auto simp: parse_times_def value_error_to_parse_error_def parse_env_ok_def is_subclass_None
      split: sum.splits if_splits)

lemma mk_channel_error: "mk_channel i n = Inl x \<Longrightarrow> exc x = ValidationError"
  by (auto simp: mk_channel_def Let_def dest: validated_Inl)

lemma to_program_error: "to_program env t c s e d sid = Inl x \<Longrightarrow> exc x = ValidationError"
  by (auto simp: to_program_def description_of_def Let_def dest: validated_Inl
      split: sum.splits json.splits)

lemma map_sum_Inl: "map_sum id Some r = Inl e \<Longrightarrow> r = Inl e"
  by (cases r) auto

lemma json_item_error:
  "parse_env_ok env \<Longrightarrow> json_item env sid it = Inl x \<Longrightarrow> exc x \<in> {ParseError, ValidationError}"
  by (auto simp: json_item_def Let_def split: json.splits option.splits sum.splits
      dest!: map_sum_Inl dest: parse_times_error mk_channel_error to_program_error)

lemma llm_item_error:
  "parse_env_ok env \<Longrightarrow> llm_item env sid it = Inl x \<Longrightarrow> exc x \<in> {ParseError, ValidationError}"
  by (auto simp: llm_item_def Let_def split: json.splits option.splits sum.splits
      dest!: map_sum_Inl dest: parse_times_error mk_channel_error to_program_error)

lemma parse_items_error:
  assumes "parse_items item its = Inl x" "\<And>it e. item it = Inl e \<Longrightarrow> exc e \<in> E"
  shows "exc x \<in> E"
  using assms(1)
proof (induction its)
  case (Cons it its)
  then show ?case using assms(2) by (auto split: sum.splits option.splits)
qed simp

text \<open>A value with the \<open>get\<close> method or a list: what the root of a document may be.\<close>

definition container :: "json \<Rightarrow> bool" where
  "container j \<longleftrightarrow> (case j of JList _ \<Rightarrow> True | JObj _ \<Rightarrow> True | _ \<Rightarrow> False)"

lemma parse_root_error:
  assumes "parse_root msg item data = Inl x" "\<And>it e. item it = Inl e \<Longrightarrow> exc e \<in> {ParseError, ValidationError}"
  shows "if container data then exc x \<in> {ParseError, ValidationError} else exc x = AttributeError"
proof (cases "root_items data")
  case (Inl e)
  with assms(1) show ?thesis
    by (auto simp: parse_root_def root_items_def container_def split: json.splits)
next
  case (Inr j)
  then have c: "container data" by (auto simp: root_items_def container_def split: json.splits)
  show ?thesis
  proof (cases "\<exists>its. j = JList its")
    case True
    then obtain its where "parse_items item its = Inl x"
      using assms(1) Inr by (auto simp: parse_root_def)
    from parse_items_error [OF this assms(2)] c show ?thesis by auto
  next
    case False
    with assms(1) Inr c show ?thesis by (auto simp: parse_root_def split: json.splits)
  qed
qed

section \<open>Properties of the JSON parser\<close>

text \<open>
  C37: what the JSON parser returns.  Every programme it returns is new (no id), passes the
  constraints of its model, belongs to exactly the hinted source, starts at version 1 with no
  tags, has a title without outer white space, and its identity key is the digest of its own
  lower-cased title, channel id and start: the key depends on nothing else on the page.
\<close>

theorem json_parse_programs:
  assumes "json_parse env sid content = Inr ps"
  shows "\<forall>p \<in> set ps. parsed_program env sid p"
proof -
  from assms obtain data where
      "parse_root ''json root must be list or {items:[]}'' (json_item env sid) data = Inr ps"
    by (auto simp: json_parse_def split: sum.splits)
  then show ?thesis by (rule parse_root_Inr) (rule json_item_Inr)
qed

definition demo_parse_env :: "json \<Rightarrow> parse_env" where
  "demo_parse_env data =
     \<lparr>json_decode = (\<lambda>s. if s = [CHR 0xFF] then Inl (Exn UnicodeDecodeError ''invalid start byte'') else Inr s),
      json_loads = (\<lambda>s. if s = [] then Inl (Exn JSONDecodeError ''empty'') else Inr data),
      fromisoformat = (\<lambda>s. if s = [] then Inl (Exn ValueError ''bad'') else Inr sample_time),
      isoformat = (\<lambda>_. ''1970''), sha1_hex = (\<lambda>s. s), str_of_json = (\<lambda>_. ''...''),
      utcnow = sample_time\<rparr>"

lemma demo_parse_env_ok: "parse_env_ok (demo_parse_env data)"
  by (simp add: parse_env_ok_def demo_parse_env_def)

definition demo_item :: json where
  "demo_item = JObj [(''title'', JStr '' News''), (''start'', JStr ''1970''), (''end'', JStr ''1970''),
     (''channel'', JStr ''One'')]"

theorem json_parse_programs_witness:
  "\<exists>p. json_parse (demo_parse_env (JList [demo_item, JNull])) ''s'' ''x'' = Inr [p] \<and> title p = ''News'' \<and>
     parsed_program (demo_parse_env (JList [demo_item, JNull])) ''s'' p"
proof -
  let ?env = "demo_parse_env (JList [demo_item, JNull])"
  have "isl (json_parse ?env ''s'' ''x'') = False \<and>
      map title (projr (json_parse ?env ''s'' ''x'')) = [''News'']" by code_simp
  then obtain p where p: "json_parse ?env ''s'' ''x'' = Inr [p]" "title p = ''News''"
    by (cases "json_parse ?env ''s'' ''x''") auto
  from json_parse_programs [OF p(1)] p show ?thesis by simp
qed



end
