(* ===== verification/LLM.thy ===== *)
theory LLM
  imports Complex_Main Parsers
begin

text \<open>
  \<open>infrastructure/llm\<close> and the LLM parser.  A provider is the record \<open>llm\<close> of the port's two
  methods; \<open>LLMRouter\<close> and \<open>StubLLM\<close> are providers built here, the vendors' adapters are in
  \<open>Adapters\<close>.
\<close>

record 's llm =
  llm_complete :: "string \<Rightarrow> bool \<Rightarrow> ('s, string) eff"
  llm_embed :: "string \<Rightarrow> ('s, real list) eff"

section \<open>The stub\<close>

definition StubLLM :: "'s llm" where
  "StubLLM =
     \<lparr>llm_complete = (\<lambda>prompt json_mode. ret (if json_mode then ''{\"items\":[]}'' else [])),
      llm_embed = (\<lambda>text. ret (map (\<lambda>i. real (length text mod (i + 1))) [0..<8]))\<rparr>"

section \<open>The router\<close>

text \<open>\<open>sleep\<close> is \<open>asyncio.sleep\<close>; \<open>idx\<close> counts the providers tried before.\<close>

fun try_chain ::
  "(real \<Rightarrow> 's \<Rightarrow> 's) \<Rightarrow> string \<Rightarrow> bool \<Rightarrow> nat \<Rightarrow> exn option \<Rightarrow> 's llm list \<Rightarrow> ('s, string) eff" where
  "try_chain sleep prompt json_mode idx last_err [] =
     raise (Exn LLMError (''all llm providers failed: '' @
       (case last_err of None \<Rightarrow> ''None'' | Some e \<Rightarrow> exn_str e)))"
| "try_chain sleep prompt json_mode idx last_err (l # ls) =
     try_except (llm_complete l prompt json_mode) (\<lambda>e. isinstance e LLMError)
       (\<lambda>e s. try_chain sleep prompt json_mode (idx + 1) (Some e) ls (sleep (0.2 * real (idx + 1)) s))"

definition LLMRouter :: "(real \<Rightarrow> 's \<Rightarrow> 's) \<Rightarrow> 's llm \<Rightarrow> 's llm list \<Rightarrow> 's llm" where
  "LLMRouter sleep primary fallbacks =
     \<lparr>llm_complete = (\<lambda>prompt json_mode. try_chain sleep prompt json_mode 0 None (primary # fallbacks)),
      llm_embed = llm_embed primary\<rparr>"

text \<open>The state after these providers have failed in turn, each followed by its wait.\<close>

fun after_failures ::
  "(real \<Rightarrow> 's \<Rightarrow> 's) \<Rightarrow> string \<Rightarrow> bool \<Rightarrow> nat \<Rightarrow> 's llm list \<Rightarrow> 's \<Rightarrow> 's" where
  "after_failures sleep prompt json_mode idx [] s = s"
| "after_failures sleep prompt json_mode idx (l # ls) s =
     after_failures sleep prompt json_mode (idx + 1) ls
       (sleep (0.2 * real (idx + 1)) (snd (llm_complete l prompt json_mode s)))"

text \<open>All these providers raise an \<open>LLMError\<close> when asked in turn.\<close>

fun all_fail :: "(real \<Rightarrow> 's \<Rightarrow> 's) \<Rightarrow> string \<Rightarrow> bool \<Rightarrow> nat \<Rightarrow> 's llm list \<Rightarrow> 's \<Rightarrow> bool" where
  "all_fail sleep prompt json_mode idx [] s = True"
| "all_fail sleep prompt json_mode idx (l # ls) s =
     ((case fst (llm_complete l prompt json_mode s) of Inl e \<Rightarrow> isinstance e LLMError | Inr _ \<Rightarrow> False) \<and>
      all_fail sleep prompt json_mode (idx + 1) ls
        (sleep (0.2 * real (idx + 1)) (snd (llm_complete l prompt json_mode s))))"

lemma try_chain_skip:
  "all_fail sleep prompt json_mode idx ls s \<Longrightarrow>
     \<exists>err. try_chain sleep prompt json_mode idx last_err (ls @ ms) s =
       try_chain sleep prompt json_mode (idx + length ls) err ms
         (after_failures sleep prompt json_mode idx ls s) \<and> (ls = [] \<longrightarrow> err = last_err)"
proof (induction ls arbitrary: idx last_err s)
  case (Cons l ls)
  obtain e s1 where c: "llm_complete l prompt json_mode s = (Inl e, s1)" "isinstance e LLMError"
    using Cons.prems by (cases "llm_complete l prompt json_mode s") (auto split: sum.splits)
  have "all_fail sleep prompt json_mode (idx + 1) ls (sleep (0.2 * real (idx + 1)) s1)"
    using Cons.prems c(1) by simp
  from Cons.IH [OF this, of "Some e"] show ?case
    using c by (auto simp: try_except_def)
qed simp

text \<open>
  The router falls back in order.  Providers are asked one after the other, the next one
  only after the one before raised an \<open>LLMError\<close>, with a growing wait in between.  When the
  first \<open>k\<close> fail that way and the next does not, the router's outcome is exactly that
  provider's, be it an answer or another exception, and no later provider is asked; when all
  fail, it raises \<open>LLMError\<close>.
\<close>

theorem router_falls_back:
  assumes "primary # fallbacks = ls @ ms" and "all_fail sleep prompt json_mode 0 ls s"
  defines "s' \<equiv> after_failures sleep prompt json_mode 0 ls s"
  shows "case ms of
      [] \<Rightarrow> \<exists>e. llm_complete (LLMRouter sleep primary fallbacks) prompt json_mode s = (Inl e, s') \<and> exc e = LLMError
    | l # _ \<Rightarrow>
        (\<forall>e. fst (llm_complete l prompt json_mode s') = Inl e \<longrightarrow> \<not> isinstance e LLMError) \<longrightarrow>
        llm_complete (LLMRouter sleep primary fallbacks) prompt json_mode s = llm_complete l prompt json_mode s'"
proof -
  obtain err where chain: "llm_complete (LLMRouter sleep primary fallbacks) prompt json_mode s =
      try_chain sleep prompt json_mode (length ls) err ms s'"
    using try_chain_skip [OF assms(2), of None ms] assms(1,3) by (auto simp: LLMRouter_def)
  show ?thesis
  proof (cases ms)
    case (Cons l ls')
    then show ?thesis
      by (cases rule: eff_cases [of "llm_complete l prompt json_mode s'"])
        (simp_all add: chain try_except_def)
  qed (simp add: chain)
qed

definition failing_llm :: "exc_class \<Rightarrow> 's llm" where
  "failing_llm c = \<lparr>llm_complete = (\<lambda>_ _. raise (Exn c ''down'')), llm_embed = (\<lambda>_. ret [])\<rparr>"

theorem router_falls_back_witness:
  "llm_complete (LLMRouter (\<lambda>d t. t + d) (failing_llm LLMError) [StubLLM, failing_llm OtherError]) ''p'' True 0 =
   (Inr ''{\"items\":[]}'', 0.2)"
  using router_falls_back [of "failing_llm LLMError" "[StubLLM, failing_llm OtherError]"
      "[failing_llm LLMError]" "[StubLLM, failing_llm OtherError]" "\<lambda>d t. t + d" "''p''" True "0 :: real"]
  by (simp add: failing_llm_def StubLLM_def)

section \<open>Prompts\<close>

text \<open>
  \<open>PromptLoader\<close>: \<open>read_yaml\<close> opens and parses a file, \<open>base\<close> is the directory.  What is no
  mapping counts as an empty one.  A template that is no text has no \<open>replace\<close>; the keyword
  arguments are a dict, which no caller leaves empty.
\<close>

definition load_prompt :: "(string \<Rightarrow> exn + json) \<Rightarrow> string \<Rightarrow> string \<Rightarrow> exn + (string, json) dict" where
  "load_prompt read_yaml base name =
     (case read_yaml (base @ ''/'' @ name @ ''.yaml'') of
        Inl e \<Rightarrow> Inl e
      | Inr data \<Rightarrow> Inr (case json_or data (JObj []) of JObj d \<Rightarrow> d | _ \<Rightarrow> []))"

definition render ::
  "(string \<Rightarrow> exn + (string, json) dict) \<Rightarrow> string \<Rightarrow> (string, string) dict \<Rightarrow> exn + string" where
  "render load name variables =
     (let fill = fold (\<lambda>(k, v) template. replace_all (''{{ '' @ k @ '' }}'') v template) variables
      in case load name of
           Inl e \<Rightarrow> Inl e
         | Inr data \<Rightarrow>
             (case map_of data ''user_template'' of
                None \<Rightarrow> Inr (fill [])
              | Some (JStr t) \<Rightarrow> Inr (fill t)
              | Some _ \<Rightarrow> Inl (Exn AttributeError ''object has no attribute replace'')))"

section \<open>The LLM parser\<close>

text \<open>\<open>re.search(r"\{.*\}", raw, re.DOTALL)\<close>: from the first brace to the last closing one.\<close>

definition brace_fragment :: "string \<Rightarrow> string option" where
  "brace_fragment raw =
     (let rest = dropWhile (\<lambda>c. c \<noteq> CHR 0x7B) raw
      in if CHR 0x7D \<in> set rest then Some (rev (dropWhile (\<lambda>c. c \<noteq> CHR 0x7D) (rev rest))) else None)"

text \<open>Reading the answer: as it is, else its brace fragment, whose error is not caught.\<close>

definition load_answer :: "parse_env \<Rightarrow> string \<Rightarrow> exn + json" where
  "load_answer env raw =
     (case json_loads env raw of
        Inr data \<Rightarrow> Inr data
      | Inl e \<Rightarrow>
          if isinstance e JSONDecodeError then
            (case brace_fragment raw of
               None \<Rightarrow> Inl (Exn ParseError (''llm returned non-json: '' @ exn_str e))
             | Some frag \<Rightarrow> json_loads env frag)
          else Inl e)"

text \<open>\<open>decode\<close> is \<open>content.decode("utf-8", errors="ignore")\<close>.\<close>

definition llm_parse ::
  "parse_env \<Rightarrow> 's llm \<Rightarrow> (string \<Rightarrow> exn + (string, json) dict) \<Rightarrow> (string \<Rightarrow> string) \<Rightarrow>
   string \<Rightarrow> string \<Rightarrow> ('s, tv_program list) eff" where
  "llm_parse env llm load decode source_id content =
     (let text = take 30000 (decode content) in
      bindE (pure_eff (render load ''extract_program'' [(''content'', text)])) (\<lambda>prompt.
      bindE (try_except (llm_complete llm prompt True) (\<lambda>e. isinstance e LLMError)
               (\<lambda>e. raise (Exn ParseError (exn_str e)))) (\<lambda>raw.
      bindE (pure_eff (load_answer env raw)) (\<lambda>data.
        pure_eff (parse_root ''llm json root must be list or {items:[]}'' (llm_item env source_id) data)))))"

lemma brace_fragment_Some:
  "brace_fragment raw = Some frag \<longleftrightarrow>
     (\<exists>pre mid post. raw = pre @ frag @ post \<and> frag = CHR 0x7B # mid @ [CHR 0x7D] \<and>
        CHR 0x7B \<notin> set pre \<and> CHR 0x7D \<notin> set post)"
proof
  assume f: "brace_fragment raw = Some frag"
  let ?rest = "dropWhile (\<lambda>c. c \<noteq> CHR 0x7B) raw"
  let ?pre = "takeWhile (\<lambda>c. c \<noteq> CHR 0x7B) raw"
  let ?post = "rev (takeWhile (\<lambda>c. c \<noteq> CHR 0x7D) (rev ?rest))"
  have in': "CHR 0x7D \<in> set ?rest" and frag: "frag = rev (dropWhile (\<lambda>c. c \<noteq> CHR 0x7D) (rev ?rest))"
    using f by (auto simp: brace_fragment_def Let_def split: if_splits)
  have "frag @ ?post = rev (takeWhile (\<lambda>c. c \<noteq> CHR 0x7D) (rev ?rest) @ dropWhile (\<lambda>c. c \<noteq> CHR 0x7D) (rev ?rest))"
    by (simp add: frag del: takeWhile_dropWhile_id)
  then have rest: "?rest = frag @ ?post" by simp
  then have raw: "raw = ?pre @ frag @ ?post" by (metis takeWhile_dropWhile_id)
  have "?rest \<noteq> []" using in' by (metis empty_iff list.set(1))
  from hd_dropWhile [OF this] have hd_rest: "hd ?rest = CHR 0x7B" by simp
  have ne: "dropWhile (\<lambda>c. c \<noteq> CHR 0x7D) (rev ?rest) \<noteq> []"
    unfolding dropWhile_eq_Nil_conv set_rev using in' by blast
  from hd_dropWhile [OF this]
  have "hd (dropWhile (\<lambda>c. c \<noteq> CHR 0x7D) (rev ?rest)) = CHR 0x7D" by simp
  then have last: "last frag = CHR 0x7D" "frag \<noteq> []" using ne by (simp_all add: frag last_rev)
  then have "hd frag = CHR 0x7B" using hd_rest rest by (metis hd_append2)
  with last obtain mid where mid: "frag = CHR 0x7B # mid @ [CHR 0x7D]"
    by (cases frag; cases "tl frag" rule: rev_cases) auto
  have "CHR 0x7B \<notin> set ?pre" "CHR 0x7D \<notin> set ?post" by (auto dest: set_takeWhileD)
  with raw mid show "\<exists>pre mid post. raw = pre @ frag @ post \<and> frag = CHR 0x7B # mid @ [CHR 0x7D] \<and>
        CHR 0x7B \<notin> set pre \<and> CHR 0x7D \<notin> set post" by blast
next
  assume "\<exists>pre mid post. raw = pre @ frag @ post \<and> frag = CHR 0x7B # mid @ [CHR 0x7D] \<and>
        CHR 0x7B \<notin> set pre \<and> CHR 0x7D \<notin> set post"
  then obtain pre mid post where r: "raw = pre @ frag @ post" "frag = CHR 0x7B # mid @ [CHR 0x7D]"
      "CHR 0x7B \<notin> set pre" "CHR 0x7D \<notin> set post" by blast
  have "dropWhile (\<lambda>c. c \<noteq> CHR 0x7B) raw = frag @ post"
    using r(1-3) by (simp add: dropWhile_append3) (metis (mono_tags, lifting) dropWhile_append2 dropWhile_eq_Cons_conv)
  moreover have "dropWhile (\<lambda>c. c \<noteq> CHR 0x7D) (rev (frag @ post)) = rev frag"
    using r(2,4) by (subst rev_append) (subst dropWhile_append2, auto)
  ultimately show "brace_fragment raw = Some frag" using r(2) by (simp add: brace_fragment_def)
qed

text \<open>
  An answer wrapped in prose is recovered.  When the model's answer is not JSON but
  contains an object, with no opening brace before it and no closing brace after it, the
  parser reads exactly that object; without a brace pair it raises \<open>ParseError\<close>.
\<close>

theorem llm_answer_recovered:
  assumes "json_loads env raw = Inl e" and "isinstance e JSONDecodeError"
  shows "(\<forall>pre mid post. raw = pre @ (CHR 0x7B # mid @ [CHR 0x7D]) @ post \<longrightarrow>
            CHR 0x7B \<notin> set pre \<longrightarrow> CHR 0x7D \<notin> set post \<longrightarrow>
            load_answer env raw = json_loads env (CHR 0x7B # mid @ [CHR 0x7D])) \<and>
         (CHR 0x7B \<notin> set raw \<or> CHR 0x7D \<notin> set raw \<longrightarrow>
            (\<exists>e'. load_answer env raw = Inl e' \<and> exc e' = ParseError))"
proof (intro conjI allI impI)
  fix pre mid post
  assume "raw = pre @ (CHR 0x7B # mid @ [CHR 0x7D]) @ post" "CHR 0x7B \<notin> set pre" "CHR 0x7D \<notin> set post"
  then have "brace_fragment raw = Some (CHR 0x7B # mid @ [CHR 0x7D])"
    unfolding brace_fragment_Some by blast
  with assms show "load_answer env raw = json_loads env (CHR 0x7B # mid @ [CHR 0x7D])"
    by (simp add: load_answer_def)
next
  assume no: "CHR 0x7B \<notin> set raw \<or> CHR 0x7D \<notin> set raw"
  have "brace_fragment raw = None"
  proof (cases "brace_fragment raw")
    case (Some frag)
    then obtain pre mid post where "raw = pre @ frag @ post" "frag = CHR 0x7B # mid @ [CHR 0x7D]"
      unfolding brace_fragment_Some by blast
    with no show ?thesis by auto
  qed
  with assms show "\<exists>e'. load_answer env raw = Inl e' \<and> exc e' = ParseError"
    by (simp add: load_answer_def)
qed

text \<open>A reader that accepts one document.\<close>

definition only_env :: "string \<Rightarrow> json \<Rightarrow> parse_env" where
  "only_env doc data =
     (demo_parse_env data)\<lparr>json_loads := (\<lambda>s. if s = doc then Inr data else Inl (Exn JSONDecodeError ''bad''))\<rparr>"

lemma only_env_ok: "parse_env_ok (only_env doc data)"
  using demo_parse_env_ok [of data] by (simp add: parse_env_ok_def only_env_def)

theorem llm_answer_recovered_witness:
  "load_answer (only_env ''{}'' (JObj [])) ''Sure: {}.'' = Inr (JObj [])"
proof -
  have bad: "json_loads (only_env ''{}'' (JObj [])) ''Sure: {}.'' = Inl (Exn JSONDecodeError ''bad'')"
    by (simp add: only_env_def)
  have "''Sure: {}.'' = ''Sure: '' @ (CHR 0x7B # [] @ [CHR 0x7D]) @ ''.''" by simp
  from conjunct1 [OF llm_answer_recovered [OF bad], rule_format, OF _ this]
  show ?thesis by (simp add: only_env_def)
qed

text \<open>
  C36: the outcome of the LLM parser.  When the prompt's file holds a mapping whose template, if
  any, is a text, the model is asked once.  With a model that raises only
  \<open>LLMError\<close> and library functions that raise only their documented errors, the parse returns
  valid programmes of the hinted source or raises; an \<open>LLMError\<close> becomes a \<open>ParseError\<close>, and
  the errors that can leave are \<open>ParseError\<close>, \<open>ValidationError\<close>, \<open>AttributeError\<close> and, although
  the fallback is there to prevent it, \<open>JSONDecodeError\<close>: the second \<open>json.loads\<close>, on the brace
  fragment, is not guarded.
\<close>

theorem llm_parse_outcome:
  assumes "parse_env_ok env" and "read_yaml (base @ ''/extract_program.yaml'') = Inr (JObj tmpl)"
    and "\<forall>t. map_of tmpl ''user_template'' = Some t \<longrightarrow> (\<exists>u. t = JStr u)"
    and "\<And>p j s e. fst (llm_complete llm p j s) = Inl e \<Longrightarrow> isinstance e LLMError"
    and "llm_parse env llm (load_prompt read_yaml base) decode sid content s = (r, s')"
  shows "(\<exists>prompt. s' = snd (llm_complete llm prompt True s)) \<and>
    (case r of
       Inr ps \<Rightarrow> \<forall>p \<in> set ps. parsed_program env sid p
     | Inl e \<Rightarrow> exc e \<in> {ParseError, ValidationError, AttributeError, JSONDecodeError})"
proof -
  have "load_prompt read_yaml base ''extract_program'' = Inr tmpl"
    using assms(2) by (cases tmpl) (simp_all add: load_prompt_def json_or_def)
  with assms(3) obtain prompt where p: "render (load_prompt read_yaml base) ''extract_program''
      [(''content'', take 30000 (decode content))] = Inr prompt"
    by (cases "map_of tmpl ''user_template''") (auto simp: render_def)
  let ?item = "llm_item env sid" and ?msg = "''llm json root must be list or {items:[]}''"
  show ?thesis
  proof (cases rule: eff_cases [of "llm_complete llm prompt True s"])
    case (raised e s1)
    then have "isinstance e LLMError" using assms(4) [of prompt True s e] by simp
    with raised assms(5) p have "r = Inl (Exn ParseError (exn_str e))" "s' = s1"
      by (simp_all add: llm_parse_def Let_def bindE_def try_except_def)
    with raised show ?thesis by (intro conjI exI [of _ prompt]) simp_all
  next
    case (returned raw s1)
    with assms(5) p have r: "r = (case load_answer env raw of Inl e \<Rightarrow> Inl e
        | Inr data \<Rightarrow> parse_root ?msg ?item data)" "s' = s1"
      by (auto simp: llm_parse_def Let_def bindE_def try_except_def split: sum.splits)
    have "case r of
       Inr ps \<Rightarrow> \<forall>p \<in> set ps. parsed_program env sid p
     | Inl e \<Rightarrow> exc e \<in> {ParseError, ValidationError, AttributeError, JSONDecodeError}"
    proof (cases "load_answer env raw")
      case (Inl e)
      have "exc e \<in> {ParseError, JSONDecodeError}"
        using Inl assms(1)
        by (auto simp: load_answer_def parse_env_ok_def split: sum.splits if_splits option.splits)
      with r(1) Inl show ?thesis by auto
    next
      case (Inr data)
      show ?thesis
      proof (cases "parse_root ?msg ?item data")
        case (Inl e)
        have "exc x \<in> {ParseError, ValidationError}" if "?item it = Inl x" for it x
          using llm_item_error [OF assms(1) that] .
        with Inl have "if container data then exc e \<in> {ParseError, ValidationError}
            else exc e = AttributeError" by (rule parse_root_error)
        with r(1) Inr Inl show ?thesis by (auto split: if_splits)
      next
        case (Inr ps)
        have "\<forall>p \<in> set ps. parsed_program env sid p"
          by (rule parse_root_Inr [OF Inr llm_item_Inr])
        with r(1) Inr \<open>load_answer env raw = Inr data\<close> show ?thesis by simp
      qed
    qed
    with r(2) returned show ?thesis by (metis snd_conv)
  qed
qed

theorem llm_parse_outcome_witness:
  "\<exists>e. llm_parse (only_env ''{}'' (JObj []))
      \<lparr>llm_complete = (\<lambda>_ _. ret ''{x}''), llm_embed = (\<lambda>_. ret [])\<rparr> (load_prompt (\<lambda>_. Inr (JObj [])) ''prompts'') (\<lambda>s. s) ''s'' ''page'' () =
      (Inl e, ()) \<and> exc e = JSONDecodeError \<and>
      exc e \<in> {ParseError, ValidationError, AttributeError, JSONDecodeError}"
proof -
  let ?llm = "\<lparr>llm_complete = (\<lambda>_ _. ret ''{x}''), llm_embed = (\<lambda>_. ret [])\<rparr> :: unit llm"
  have "brace_fragment ''{x}'' = Some ''{x}''" by code_simp
  then have run: "llm_parse (only_env ''{}'' (JObj [])) ?llm (load_prompt (\<lambda>_. Inr (JObj [])) ''prompts'') (\<lambda>s. s) ''s'' ''page'' () =
      (Inl (Exn JSONDecodeError ''bad''), ())"
    by (simp add: llm_parse_def render_def load_prompt_def json_or_def load_answer_def only_env_def bindE_def try_except_def)
  have "fst (llm_complete ?llm p j s) = Inl e \<Longrightarrow> isinstance e LLMError" for p j s e by simp
  from llm_parse_outcome [OF only_env_ok _ _ this run] show ?thesis using run by simp
qed

end
