(* ===== verification/Sources.thy ===== *)
theory Sources
  imports Parsers
begin

text \<open>
  \<open>plugins/sources\<close>, \<open>plugins/parsers/html_parser.py\<close> and \<open>plugins/registry.py\<close>: the
  adapters that fetch and parse one kind of source, and the table that finds them.  A fetcher
  and a parser are functions of their port's signature; \<open>decode\<close> is
  \<open>content.decode("utf-8", errors="ignore")\<close>.
\<close>

type_synonym 's fetch_port =
  "string \<Rightarrow> (string, string) dict option \<Rightarrow> ('s, fetch_result) eff"

type_synonym hint = "(string \<times> string) list"

type_synonym 's parse_port = "string \<Rightarrow> hint \<Rightarrow> ('s, tv_program list) eff"

section \<open>HTTP and RSS sources\<close>

text \<open>\<open>fetch\<close> of \<open>HTTPSource\<close>, \<open>RSSSource\<close> and \<open>M3USource\<close>.\<close>

definition source_fetch :: "'s fetch_port \<Rightarrow> tv_source \<Rightarrow> ('s, fetch_result) eff" where
  "source_fetch fetcher src =
     (if \<not> has_url src then raise (Exn ValueError (''source '' @ src_id src @ '' has no url''))
      else fetcher (the (src_url src)) (headers_or_none src))"

definition http_parse :: "'s parse_port \<Rightarrow> fetch_result \<Rightarrow> tv_source \<Rightarrow> ('s, tv_program list) eff" where
  "http_parse parser result src = parser (res_body result) [(''source_id'', src_id src)]"

definition rss_parse :: "'s parse_port \<Rightarrow> fetch_result \<Rightarrow> tv_source \<Rightarrow> ('s, tv_program list) eff" where
  "rss_parse parser result src =
     parser (res_body result) [(''source_id'', src_id src), (''format'', ''rss'')]"

section \<open>The HTML parser and the scraping source\<close>

text \<open>\<open>extract\<close> is \<open>trafilatura.extract\<close>.\<close>

definition html_parse :: "(string \<Rightarrow> string option) \<Rightarrow> (string \<Rightarrow> string) \<Rightarrow> 's parse_port" where
  "html_parse extract decode content hint =
     (let text = (case extract (decode content) of None \<Rightarrow> [] | Some t \<Rightarrow> t)
      in if text = [] then raise (Exn ParseError ''no extractable text from html'') else ret [])"

text \<open>\<open>HTMLScrapeSource.fetch\<close>, on the Playwright fetcher with its \<open>wait_selector\<close>.\<close>

definition scrape_fetch ::
  "(string \<Rightarrow> (string, string) dict option \<Rightarrow> string option \<Rightarrow> ('s, fetch_result) eff) \<Rightarrow>
   tv_source \<Rightarrow> ('s, fetch_result) eff" where
  "scrape_fetch fetcher src =
     (if \<not> has_url src then raise (Exn ValueError (''source '' @ src_id src @ '' has no url''))
      else
        let wait_selector = (case map_of (src_config src) ''wait_selector'' of
                               Some (JStr s) \<Rightarrow> Some s | _ \<Rightarrow> None)
        in fetcher (the (src_url src)) (headers_or_none src) wait_selector)"

fun scrape_parse :: "'s parse_port list \<Rightarrow> fetch_result \<Rightarrow> tv_source \<Rightarrow> ('s, tv_program list) eff" where
  "scrape_parse [] result src = ret []"
| "scrape_parse (parser # parsers) result src =
     (\<lambda>s. case parser (res_body result) [(''source_id'', src_id src)] s of
        (Inl e, s') \<Rightarrow> scrape_parse parsers result src s'
      | (Inr programs, s') \<Rightarrow>
          if programs \<noteq> [] then (Inr programs, s') else scrape_parse parsers result src s')"

text \<open>The state after these parsers were tried, and whether all of them gave nothing.\<close>

fun tried :: "'s parse_port list \<Rightarrow> string \<Rightarrow> hint \<Rightarrow> 's \<Rightarrow> 's" where
  "tried [] b h s = s"
| "tried (p # ps) b h s = tried ps b h (snd (p b h s))"

fun gave_nothing :: "'s parse_port list \<Rightarrow> string \<Rightarrow> hint \<Rightarrow> 's \<Rightarrow> bool" where
  "gave_nothing [] b h s = True"
| "gave_nothing (p # ps) b h s =
     ((case fst (p b h s) of Inl e \<Rightarrow> True | Inr qs \<Rightarrow> qs = []) \<and> gave_nothing ps b h (snd (p b h s)))"

lemma scrape_skip:
  "gave_nothing ps (res_body result) [(''source_id'', src_id src)] s \<Longrightarrow>
     scrape_parse (ps @ qs) result src s =
       scrape_parse qs result src (tried ps (res_body result) [(''source_id'', src_id src)] s)"
proof (induction ps arbitrary: s)
  case (Cons p ps)
  then show ?case
    by (cases rule: eff_cases [of "p (res_body result) [(''source_id'', src_id src)] s"]) auto
qed simp

text \<open>
  The parser chain.  \<open>HTMLScrapeSource.parse\<close> never raises, whatever its parsers raise: it
  returns the programmes of the first parser that gives any, after asking the parsers before
  it in order, and the empty list when none does.
\<close>

theorem scrape_parse_first:
  assumes "parsers = ps @ qs" and "gave_nothing ps (res_body result) [(''source_id'', src_id src)] s"
  defines "s' \<equiv> tried ps (res_body result) [(''source_id'', src_id src)] s"
  shows "(\<exists>out. fst (scrape_parse parsers result src s) = Inr out) \<and>
    (case qs of
       [] \<Rightarrow> scrape_parse parsers result src s = (Inr [], s')
     | q # _ \<Rightarrow>
         (\<forall>x xs s''. q (res_body result) [(''source_id'', src_id src)] s' = (Inr (x # xs), s'') \<longrightarrow>
            scrape_parse parsers result src s = (Inr (x # xs), s'')))"
proof -
  have total: "\<exists>out. fst (scrape_parse rs result src s) = Inr out" for rs s
  proof (induction rs arbitrary: s)
    case (Cons r rs)
    then show ?case
      by (cases rule: eff_cases [of "r (res_body result) [(''source_id'', src_id src)] s"]) auto
  qed simp
  have skip: "scrape_parse parsers result src s = scrape_parse qs result src s'"
    using scrape_skip [OF assms(2), of qs] by (simp add: assms(1,3))
  have "case qs of
       [] \<Rightarrow> scrape_parse parsers result src s = (Inr [], s')
     | q # _ \<Rightarrow>
         (\<forall>x xs s''. q (res_body result) [(''source_id'', src_id src)] s' = (Inr (x # xs), s'') \<longrightarrow>
            scrape_parse parsers result src s = (Inr (x # xs), s''))"
    unfolding skip by (cases qs) simp_all
  with total [of parsers s] show ?thesis by (rule conjI)
qed

theorem scrape_parse_first_witness:
  "fst (scrape_parse [html_parse (\<lambda>_. None) (\<lambda>s. s), \<lambda>b h. ret [sample_program ''k'' ''s'']]
     \<lparr>res_url = ''u'', res_status_code = 200, res_body = ''b'', res_headers = [], res_elapsed_ms = 1\<rparr>
     (sample_source ''s'') ()) = Inr [sample_program ''k'' ''s'']"
  using scrape_parse_first [of "[html_parse (\<lambda>_. None) (\<lambda>s. s), \<lambda>b h. ret [sample_program ''k'' ''s'']]"
      "[html_parse (\<lambda>_. None) (\<lambda>s. s)]" "[\<lambda>b h. ret [sample_program ''k'' ''s'']]"
      "\<lparr>res_url = ''u'', res_status_code = 200, res_body = ''b'', res_headers = [], res_elapsed_ms = 1\<rparr>"
      "sample_source ''s''" "()"]
  by (simp add: html_parse_def)

section \<open>M3U playlists\<close>

text \<open>
  \<open>m3u_env\<close>: UTF-8 decoding, SHA-1, \<open>str(uuid4())\<close> as a numbered supply, and the clock with
  the first and last second of its day.
\<close>

record m3u_env =
  m3u_decode :: "string \<Rightarrow> string"
  m3u_sha1 :: "string \<Rightarrow> string"
  m3u_uuid4 :: "nat \<Rightarrow> string"
  m3u_now :: datetime
  m3u_epoch_day :: datetime
  m3u_day_end :: datetime

definition stable_m3u_key :: "m3u_env \<Rightarrow> string \<Rightarrow> string \<Rightarrow> string \<Rightarrow> string" where
  "stable_m3u_key env source_id channel_id' url =
     m3u_sha1 env (''m3u|'' @ source_id @ ''|'' @ channel_id' @ ''|'' @ url)"

definition extinf :: "string \<Rightarrow> bool" where
  "extinf line \<longleftrightarrow> startswith (strip line) ''#EXTINF''"

definition m3u_name :: "string \<Rightarrow> string" where
  "m3u_name line =
     (if contains '','' line then strip (last (split1 '','' line)) else ''unknown'')"

definition m3u_tvg :: "string \<Rightarrow> string" where
  "m3u_tvg line =
     (if contains ''tvg-id=\"'' line
      then hd (split1 ''\"'' (split1 ''tvg-id=\"'' line ! 1))
      else [])"

definition m3u_program :: "m3u_env \<Rightarrow> nat \<Rightarrow> string \<Rightarrow> string \<Rightarrow> string \<Rightarrow> exn + tv_program" where
  "m3u_program env n source_id line url =
     (let name = m3u_name line;
          channel_id' = py_or (m3u_tvg line) name
      in case mk_channel channel_id' name of
           Inl e \<Rightarrow> Inl e
         | Inr ch \<Rightarrow>
             (let p = \<lparr>prog_id = Some (m3u_uuid4 env n), title = name @ '' (m3u entry)'',
                       description = Some url, channel = ch,
                       slot = \<lparr>slot_start = m3u_epoch_day env, slot_end = m3u_day_end env,
                               slot_timezone = ''UTC''\<rparr>,
                       tags = [], source_ids = [source_id],
                       identity_key = stable_m3u_key env source_id channel_id' url,
                       created_at = m3u_now env, updated_at = m3u_now env, version = 1\<rparr>
              in validated (program_ok p) p))"

text \<open>
  The \<open>while\<close> loop over the lines; \<open>n\<close> counts the entries made.  An \<open>#EXTINF\<close> line takes the
  next line as its URL, whatever it is; the last line has no next one.
\<close>

fun m3u_lines :: "m3u_env \<Rightarrow> nat \<Rightarrow> string \<Rightarrow> string list \<Rightarrow> exn + tv_program list" where
  "m3u_lines env n source_id [] = Inr []"
| "m3u_lines env n source_id [line] =
     (if extinf line
      then map_sum id (\<lambda>p. [p]) (m3u_program env n source_id (strip line) [])
      else Inr [])"
| "m3u_lines env n source_id (line # next_line # rest) =
     (if extinf line then
        (case m3u_program env n source_id (strip line) (strip next_line) of
           Inl e \<Rightarrow> Inl e
         | Inr p \<Rightarrow> map_sum id ((#) p) (m3u_lines env (n + 1) source_id rest))
      else m3u_lines env n source_id (next_line # rest))"

definition m3u_parse :: "m3u_env \<Rightarrow> fetch_result \<Rightarrow> tv_source \<Rightarrow> exn + tv_program list" where
  "m3u_parse env result src =
     (let text = m3u_decode env (res_body result)
      in if \<not> contains ''#EXTM3U'' text then Inl (Exn ParseError ''not a valid m3u file'')
         else m3u_lines env 0 (src_id src) (splitlines text))"

text \<open>The keys a playlist stands for: they depend on the source and the lines alone.\<close>

definition entry_ok :: "string \<Rightarrow> bool" where
  "entry_ok line \<longleftrightarrow>
     str_between 1 64 (py_or (m3u_tvg line) (m3u_name line)) \<and> str_between 1 255 (m3u_name line)"

lemma m3u_program_eq:
  "m3u_program env n sid line url = Inr p \<Longrightarrow>
     entry_ok line \<and> identity_key p = stable_m3u_key env sid (py_or (m3u_tvg line) (m3u_name line)) url \<and>
     description p = Some url \<and> prog_id p = Some (m3u_uuid4 env n) \<and> program_ok p \<and> channel_ok (channel p) \<and>
     source_ids p = [sid]"
  by (auto simp: m3u_program_def Let_def mk_channel_def entry_ok_def channel_ok_def split: sum.splits)

lemma m3u_program_ok:
  "entry_ok line \<Longrightarrow> \<exists>p. m3u_program env n sid line url = Inr p"
  by (auto simp: m3u_program_def Let_def mk_channel_def entry_ok_def channel_ok_def program_ok_def
      str_between_def validated_def)

lemma m3u_program_isl: "isl (m3u_program env n sid line url) \<longleftrightarrow> \<not> entry_ok line"
  using m3u_program_ok [of line env n sid url] m3u_program_eq [of env n sid line url]
  by (cases "m3u_program env n sid line url") auto

text \<open>
  Two parses of the same lines at other times and with other uuids agree on success and on
  every key.
\<close>

lemma m3u_program_stable:
  assumes "m3u_sha1 env' = m3u_sha1 env"
  shows "map_sum (\<lambda>_. ()) identity_key (m3u_program env' n' sid line url) =
         map_sum (\<lambda>_. ()) identity_key (m3u_program env n sid line url)"
proof (cases "entry_ok line")
  case True
  from m3u_program_ok [OF this, of env' n' sid url] m3u_program_ok [OF this, of env n sid url]
  obtain p' p where "m3u_program env' n' sid line url = Inr p'" "m3u_program env n sid line url = Inr p"
    by blast
  with m3u_program_eq [of env' n' sid line url p'] m3u_program_eq [of env n sid line url p] assms
  show ?thesis by (simp add: stable_m3u_key_def)
next
  case False
  then have "isl (m3u_program env' n' sid line url)" "isl (m3u_program env n sid line url)"
    by (simp_all add: m3u_program_isl)
  then show ?thesis by (auto simp: isl_def)
qed

lemma cons_proj:
  "map_sum f (map k) (case P of Inl e \<Rightarrow> Inl e | Inr p \<Rightarrow> map_sum id ((#) p) L) =
     (case map_sum f k P of Inl e \<Rightarrow> Inl e | Inr x \<Rightarrow> map_sum id ((#) x) (map_sum f (map k) L))"
  by (cases P; cases L) simp_all

lemma single_proj: "map_sum f (map k) (map_sum id (\<lambda>p. [p]) P) = map_sum id (\<lambda>x. [x]) (map_sum f k P)"
  by (cases P) simp_all

lemma m3u_lines_stable:
  assumes "m3u_sha1 env' = m3u_sha1 env"
  shows "map_sum (\<lambda>_. ()) (map identity_key) (m3u_lines env' n' sid lines) =
         map_sum (\<lambda>_. ()) (map identity_key) (m3u_lines env n sid lines)"
proof (induction lines arbitrary: n n' rule: induct_list012)
  case (2 line)
  show ?case
  proof (cases "extinf line")
    case True
    then show ?thesis
      by (simp only: m3u_lines.simps if_True single_proj m3u_program_stable [OF assms, of n' _ _ _ n])
  qed simp
next
  case (3 line next_line rest)
  show ?case
  proof (cases "extinf line")
    case True
    then show ?thesis
      by (simp only: m3u_lines.simps if_True cons_proj m3u_program_stable [OF assms, of n' _ _ _ n]
          "3.IH"(1) [of "n' + 1" "n + 1"])
  next
    case False
    then show ?thesis using "3.IH"(2) [of n' n] by simp
  qed
qed simp

text \<open>
  Playlist entries are stable.  Parsing the same body at two different times, with
  different random ids, either fails both times or gives, in the same order, programmes with
  the same identity keys: a second crawl updates the entries of the first instead of adding
  new ones.
\<close>

theorem m3u_keys_stable:
  assumes "m3u_sha1 env' = m3u_sha1 env" and "m3u_decode env' = m3u_decode env"
  shows "map_sum (\<lambda>_. ()) (map identity_key) (m3u_parse env' result src) =
         map_sum (\<lambda>_. ()) (map identity_key) (m3u_parse env result src)"
  using m3u_lines_stable [OF assms(1), of 0 "src_id src" _ 0]
  by (simp add: m3u_parse_def assms(2) Let_def)

definition demo_m3u_env :: "string \<Rightarrow> datetime \<Rightarrow> m3u_env" where
  "demo_m3u_env u now =
     \<lparr>m3u_decode = (\<lambda>s. s), m3u_sha1 = (\<lambda>s. s), m3u_uuid4 = (\<lambda>n. u @ show_nat n), m3u_now = now,
      m3u_epoch_day = now, m3u_day_end = now\<rparr>"

definition demo_playlist :: string where
  "demo_playlist = ''#EXTM3U'' @ [CHR 0x0A] @ ''#EXTINF:-1 tvg-id=\"c1\",One'' @ [CHR 0x0A] @ ''http://a''"

theorem m3u_keys_stable_witness:
  "map_sum (\<lambda>_. ()) (map identity_key)
      (m3u_parse (demo_m3u_env ''y'' sample_time)
        \<lparr>res_url = ''u'', res_status_code = 200, res_body = demo_playlist, res_headers = [], res_elapsed_ms = 1\<rparr>
        (sample_source ''s'')) = Inr [''m3u|s|c1|http://a'']"
proof -
  let ?r = "\<lparr>res_url = ''u'', res_status_code = 200, res_body = demo_playlist, res_headers = [], res_elapsed_ms = 1\<rparr>"
  have "map_sum (\<lambda>_. ()) (map identity_key) (m3u_parse (demo_m3u_env ''x'' sample_time) ?r (sample_source ''s'')) =
      Inr [''m3u|s|c1|http://a'']" by code_simp
  with m3u_keys_stable [of "demo_m3u_env ''y'' sample_time" "demo_m3u_env ''x'' sample_time" ?r "sample_source ''s''"]
  show ?thesis by (simp add: demo_m3u_env_def)
qed

text \<open>
  The line after \<open>#EXTINF\<close> is the URL, whatever it is.  A successful parse of a
  playlist in which an \<open>#EXTINF\<close> line is followed by another line turns that line into the
  entry's URL and does not look at it again: when it is a comment, an option line or the next
  entry's own \<open>#EXTINF\<close>, the entry gets a URL that is none and the next entry is lost.
\<close>

theorem m3u_entry_takes_next_line:
  assumes "extinf line" and "m3u_lines env n sid (line # next_line # rest) = Inr ps"
  shows "\<exists>p qs. ps = p # qs \<and> description p = Some (strip next_line) \<and>
    m3u_lines env (n + 1) sid rest = Inr qs"
proof -
  obtain p where p: "m3u_program env n sid (strip line) (strip next_line) = Inr p"
    using assms by (auto split: sum.splits)
  with assms obtain qs where "m3u_lines env (n + 1) sid rest = Inr qs" "ps = p # qs"
    by (cases "m3u_lines env (n + 1) sid rest") auto
  with m3u_program_eq [OF p] show ?thesis by blast
qed

theorem m3u_entry_takes_next_line_witness:
  "\<exists>p. m3u_lines (demo_m3u_env ''x'' sample_time) 0 ''s''
      [''#EXTINF:-1,One'', ''#EXTINF:-1,Two'', ''http://b''] = Inr [p] \<and> description p = Some ''#EXTINF:-1,Two''"
proof -
  let ?env = "demo_m3u_env ''x'' sample_time" and ?ls = "[''#EXTINF:-1,One'', ''#EXTINF:-1,Two'', ''http://b'']"
  have "map_sum (\<lambda>_. ()) length (m3u_lines ?env 0 ''s'' ?ls) = Inr 1" by code_simp
  then obtain ps where ps: "m3u_lines ?env 0 ''s'' ?ls = Inr ps" "length ps = 1"
    by (cases "m3u_lines ?env 0 ''s'' ?ls") auto
  have "extinf ''#EXTINF:-1,One''" and str: "strip ''#EXTINF:-1,Two'' = ''#EXTINF:-1,Two''" by code_simp+
  from m3u_entry_takes_next_line [OF this(1) ps(1)] ps str show ?thesis by auto
qed

section \<open>The plugin registry\<close>

record ('f, 'p) plugin_registry =
  reg_sources :: "(string, 'f) dict"
  reg_parsers :: "(string, 'p) dict"

definition PluginRegistry :: "('f, 'p) plugin_registry" where
  "PluginRegistry = \<lparr>reg_sources = [], reg_parsers = []\<rparr>"

definition register_source :: "string \<Rightarrow> 'f \<Rightarrow> ('f, 'p) plugin_registry \<Rightarrow> ('f, 'p) plugin_registry" where
  "register_source type_name factory reg =
     reg\<lparr>reg_sources := dict_set type_name factory (reg_sources reg)\<rparr>"

definition register_parser :: "string \<Rightarrow> 'p \<Rightarrow> ('f, 'p) plugin_registry \<Rightarrow> ('f, 'p) plugin_registry" where
  "register_parser name parser reg = reg\<lparr>reg_parsers := dict_set name parser (reg_parsers reg)\<rparr>"

text \<open>\<open>self._sources[type_name]()\<close>: \<open>call\<close> runs the factory.\<close>

definition build_source :: "('f \<Rightarrow> 'a) \<Rightarrow> string \<Rightarrow> ('f, 'p) plugin_registry \<Rightarrow> exn + 'a" where
  "build_source call type_name reg =
     (case map_of (reg_sources reg) type_name of
        None \<Rightarrow> Inl (Exn KeyError (''unknown source type: '' @ type_name))
      | Some f \<Rightarrow> Inr (call f))"

definition get_parser :: "string \<Rightarrow> ('f, 'p) plugin_registry \<Rightarrow> exn + 'p" where
  "get_parser name reg =
     (case map_of (reg_parsers reg) name of
        None \<Rightarrow> Inl (Exn KeyError (''unknown parser: '' @ name)) | Some p \<Rightarrow> Inr p)"

definition list_source_types :: "('f, 'p) plugin_registry \<Rightarrow> string list" where
  "list_source_types reg = sort (dict_keys (reg_sources reg))"

definition list_parsers :: "('f, 'p) plugin_registry \<Rightarrow> string list" where
  "list_parsers reg = sort (dict_keys (reg_parsers reg))"

lemma get_parser_register:
  "get_parser name (register_parser name' p reg) = (if name = name' then Inr p else get_parser name reg)"
  by (simp add: get_parser_def register_parser_def)

lemma build_source_register:
  "build_source call ty (register_source ty' f reg) = (if ty = ty' then Inr (call f) else build_source call ty reg)"
  by (simp add: build_source_def register_source_def)

end
