(* ===== verification/Cache.thy ===== *)
theory Cache
  imports Complex_Main Effects
begin

text \<open>
  \<open>core/cache.py\<close>: \<open>TTLCache\<close>.  An entry holds a value, which may be Python's \<open>None\<close>, and
  the monotonic time at which it expires.  The synchronous methods run under the thread lock
  and are single steps; \<open>get_or_set\<close> suspends, so concurrent calls are the transition system
  \<open>cache_step\<close>, in which every \<open>await\<close> is a point where other calls may move.
\<close>

section \<open>The synchronous methods\<close>

record 'v entry =
  entry_value :: "'v option"
  expire_at :: real

type_synonym 'v store = "(string, 'v entry) dict"

definition cache_get :: "real \<Rightarrow> string \<Rightarrow> 'v store \<Rightarrow> 'v option \<times> 'v store" where
  "cache_get now key store =
     (case map_of store key of
        None \<Rightarrow> (None, store)
      | Some e \<Rightarrow>
          if expire_at e \<le> now then (None, dict_pop key store) else (entry_value e, store))"

definition cache_set :: "real \<Rightarrow> string \<Rightarrow> 'v option \<Rightarrow> real \<Rightarrow> 'v store \<Rightarrow> 'v store" where
  "cache_set now key value ttl store =
     dict_set key \<lparr>entry_value = value, expire_at = now + ttl\<rparr> store"

definition invalidate :: "string \<Rightarrow> 'v store \<Rightarrow> 'v store" where
  "invalidate key store = dict_pop key store"

definition clear :: "'v store \<Rightarrow> 'v store" where
  "clear store = []"

text \<open>What the cache holds for a key at a time.\<close>

definition fresh :: "real \<Rightarrow> 'v store \<Rightarrow> string \<Rightarrow> 'v option" where
  "fresh now store key =
     (case map_of store key of
        None \<Rightarrow> None | Some e \<Rightarrow> if expire_at e \<le> now then None else entry_value e)"

lemma fst_cache_get: "fst (cache_get now key store) = fresh now store key"
  by (simp add: cache_get_def fresh_def split: option.splits)

lemma fresh_cache_get: "fresh now (snd (cache_get now' key store)) k =
    (if k = key \<and> fresh now' store key = None \<and> map_of store key \<noteq> None \<and>
        expire_at (the (map_of store key)) \<le> now' then None else fresh now store k)"
  by (auto simp: cache_get_def fresh_def split: option.splits)

lemma fresh_get_keep: "now' \<le> now \<Longrightarrow> fresh now (snd (cache_get now' key store)) k = fresh now store k"
  by (auto simp: cache_get_def fresh_def split: option.splits)

lemma fresh_cache_set:
  "fresh now (cache_set now' key v ttl store) k =
     (if k = key then (if now' + ttl \<le> now then None else v) else fresh now store k)"
  by (simp add: fresh_def cache_set_def)

text \<open>
  Entries live exactly as long as they were given.  After \<open>set(key, v, ttl)\<close> at time
  \<open>t\<close>, a later \<open>get\<close> of the key returns the value while less than \<open>ttl\<close> seconds have passed
  and nothing afterwards, when it also drops the entry from the store; reads of other keys
  are unaffected by the write, and no read changes what a later read of any key returns.
\<close>

theorem cache_ttl:
  assumes "t \<le> now" and "now \<le> later"
  shows "fst (cache_get now key (cache_set t key v ttl store)) = (if now < t + ttl then v else None) \<and>
    (t + ttl \<le> now \<longrightarrow> key \<notin> set (dict_keys (snd (cache_get now key (cache_set t key v ttl store))))) \<and>
    (\<forall>k. k \<noteq> key \<longrightarrow> fst (cache_get now k (cache_set t key v ttl store)) = fst (cache_get now k store)) \<and>
    (\<forall>k k'. fst (cache_get later k (snd (cache_get now k' (cache_set t key v ttl store)))) = fst (cache_get later k (cache_set t key v ttl store)))"
proof -
  have "key \<notin> set (dict_keys (snd (cache_get now key (cache_set t key v ttl store))))" if "t + ttl \<le> now"
    using that by (simp add: cache_get_def cache_set_def dict_pop_keys del: set_map)
  then show ?thesis
    using assms by (auto simp: fst_cache_get fresh_cache_set fresh_get_keep not_less simp del: set_map)
qed

theorem cache_ttl_witness:
  "fst (cache_get 5 ''k'' (cache_set 0 ''k'' (Some True) 10 [])) = Some True \<and>
   fst (cache_get 10 ''k'' (cache_set 0 ''k'' (Some True) 10 [])) = None"
  using cache_ttl [of 0 5 5 "''k''" "Some True" 10 "[]"] cache_ttl [of 0 10 10 "''k''" "Some True" 10 "[]"]
  by simp

section \<open>Concurrent calls of \<open>get_or_set\<close>\<close>

text \<open>
  One call: \<open>Start\<close> before its first read, \<open>Waiting\<close> for the lock, \<open>Loading\<close> while its
  factory runs under the lock, then \<open>Returned\<close> or \<open>Failed\<close> with the factory's exception.
\<close>

datatype 'v call = Start | Waiting | Loading | Returned "'v option" | Failed exn

record 'v cache_sys =
  sys_now :: real
  sys_store :: "'v store"
  sys_lock :: "nat option"
  sys_calls :: "nat \<Rightarrow> 'v call"

text \<open>
  \<open>key i\<close> and \<open>ttl i\<close> are the arguments of call \<open>i\<close>.  Taking the lock and the second read
  are one step, since there is no \<open>await\<close> between them; so are the factory's return, the
  write and the release of the lock.
\<close>

inductive cache_step ::
  "(nat \<Rightarrow> string) \<Rightarrow> (nat \<Rightarrow> real) \<Rightarrow> 'v cache_sys \<Rightarrow> 'v cache_sys \<Rightarrow> bool"
  for key ttl where
  tick: "0 \<le> d \<Longrightarrow> cache_step key ttl s (s\<lparr>sys_now := sys_now s + d\<rparr>)"
| hit: "sys_calls s i = Start \<Longrightarrow> cache_get (sys_now s) (key i) (sys_store s) = (Some v, st) \<Longrightarrow>
    cache_step key ttl s (s\<lparr>sys_store := st, sys_calls := (sys_calls s)(i := Returned (Some v))\<rparr>)"
| miss: "sys_calls s i = Start \<Longrightarrow> cache_get (sys_now s) (key i) (sys_store s) = (None, st) \<Longrightarrow>
    cache_step key ttl s (s\<lparr>sys_store := st, sys_calls := (sys_calls s)(i := Waiting)\<rparr>)"
| second_hit: "sys_calls s i = Waiting \<Longrightarrow> sys_lock s = None \<Longrightarrow>
    cache_get (sys_now s) (key i) (sys_store s) = (Some v, st) \<Longrightarrow>
    cache_step key ttl s (s\<lparr>sys_store := st, sys_calls := (sys_calls s)(i := Returned (Some v))\<rparr>)"
| load: "sys_calls s i = Waiting \<Longrightarrow> sys_lock s = None \<Longrightarrow>
    cache_get (sys_now s) (key i) (sys_store s) = (None, st) \<Longrightarrow>
    cache_step key ttl s
      (s\<lparr>sys_store := st, sys_lock := Some i, sys_calls := (sys_calls s)(i := Loading)\<rparr>)"
| loaded: "sys_calls s i = Loading \<Longrightarrow>
    cache_step key ttl s
      (s\<lparr>sys_store := cache_set (sys_now s) (key i) v (ttl i) (sys_store s), sys_lock := None,
         sys_calls := (sys_calls s)(i := Returned v)\<rparr>)"
| load_failed: "sys_calls s i = Loading \<Longrightarrow>
    cache_step key ttl s (s\<lparr>sys_lock := None, sys_calls := (sys_calls s)(i := Failed e)\<rparr>)"

inductive cache_reach ::
  "(nat \<Rightarrow> string) \<Rightarrow> (nat \<Rightarrow> real) \<Rightarrow> 'v cache_sys \<Rightarrow> 'v cache_sys \<Rightarrow> bool" for key ttl where
  reach_refl: "cache_reach key ttl s s"
| reach_step: "cache_reach key ttl s s' \<Longrightarrow> cache_step key ttl s' s'' \<Longrightarrow> cache_reach key ttl s s''"

definition cache_start :: "real \<Rightarrow> 'v store \<Rightarrow> 'v cache_sys" where
  "cache_start now store =
     \<lparr>sys_now = now, sys_store = store, sys_lock = None, sys_calls = (\<lambda>_. Start)\<rparr>"

definition cache_inv :: "(nat \<Rightarrow> string) \<Rightarrow> 'v cache_sys \<Rightarrow> bool" where
  "cache_inv key s \<longleftrightarrow>
     (\<forall>i. sys_calls s i = Loading \<longleftrightarrow> sys_lock s = Some i) \<and>
     (\<forall>i. sys_calls s i = Loading \<longrightarrow> fresh (sys_now s) (sys_store s) (key i) = None)"

lemma cache_get_eq:
  "cache_get now k store = (v, st) \<Longrightarrow> v = fresh now store k \<and> (\<forall>k'. fresh now st k' = fresh now store k')"
  using fst_cache_get [of now k store] fresh_get_keep [of now now k store] by force

lemma fresh_later: "fresh now store k = None \<Longrightarrow> 0 \<le> d \<Longrightarrow> fresh (now + d) store k = None"
  by (auto simp: fresh_def split: option.splits if_splits)

lemma cache_inv_start: "cache_inv key (cache_start now store)"
  by (simp add: cache_inv_def cache_start_def)

lemma cache_inv_lock: "cache_inv key s \<Longrightarrow> sys_calls s i \<noteq> Loading \<Longrightarrow> sys_lock s \<noteq> Some i"
  by (simp add: cache_inv_def)

lemma cache_inv_step: "cache_step key ttl s s' \<Longrightarrow> cache_inv key s \<Longrightarrow> cache_inv key s'"
proof (induction rule: cache_step.induct)
  case (tick d s)
  then show ?case by (auto simp: cache_inv_def fresh_later)
next
  case (hit s i v st)
  with cache_get_eq [OF hit(2)] cache_inv_lock [OF hit(3), of i] show ?case
    by (auto simp: cache_inv_def)
next
  case (miss s i st)
  with cache_get_eq [OF miss(2)] cache_inv_lock [OF miss(3), of i] show ?case
    by (auto simp: cache_inv_def)
next
  case (second_hit s i v st)
  with cache_get_eq [OF second_hit(3)] cache_inv_lock [OF second_hit(4), of i] show ?case
    by (auto simp: cache_inv_def)
next
  case (load s i st)
  with cache_get_eq [OF load(3)] show ?case by (auto simp: cache_inv_def)
next
  case (loaded s i v)
  then show ?case by (auto simp: cache_inv_def)
next
  case (load_failed s i e)
  then show ?case by (auto simp: cache_inv_def)
qed

lemma cache_inv_reach: "cache_reach key ttl s s' \<Longrightarrow> cache_inv key s \<Longrightarrow> cache_inv key s'"
  by (induction rule: cache_reach.induct) (auto dest: cache_inv_step)

text \<open>
  C35: one factory at a time.  However calls of \<open>get_or_set\<close> interleave, at most one of them is
  running its factory, and it does so only while the cache holds no live value for its key: a
  value another call has just stored is returned instead of being computed again.  The lock
  is one for the whole cache, so this is also true of calls for different keys, which the
  comment beside the lock says are serialised per key.
\<close>

theorem single_flight:
  assumes "cache_reach key ttl (cache_start now store) s"
    and "sys_calls s i = Loading" and "sys_calls s j = Loading"
  shows "i = j \<and> fresh (sys_now s) (sys_store s) (key i) = None"
proof -
  have "cache_inv key s" by (rule cache_inv_reach [OF assms(1) cache_inv_start])
  with assms(2,3) show ?thesis by (auto simp: cache_inv_def)
qed

theorem single_flight_witness:
  "\<exists>s :: bool cache_sys. cache_reach (\<lambda>_. ''k'') (\<lambda>_. 10) (cache_start 0 []) s \<and> sys_calls s 1 = Loading \<and>
     fresh (sys_now s) (sys_store s) ''k'' = None"
proof -
  let ?s0 = "cache_start 0 [] :: bool cache_sys"
  let ?s1 = "?s0\<lparr>sys_store := [], sys_calls := (sys_calls ?s0)(1 := Waiting)\<rparr>"
  let ?s2 = "?s1\<lparr>sys_store := [], sys_lock := Some 1, sys_calls := (sys_calls ?s1)(1 := Loading)\<rparr>"
  have one: "cache_step (\<lambda>_. ''k'') (\<lambda>_. 10) ?s0 ?s1"
    by (rule miss) (simp_all add: cache_start_def cache_get_def)
  have two: "cache_step (\<lambda>_. ''k'') (\<lambda>_. 10) ?s1 ?s2"
    by (rule load) (simp_all add: cache_start_def cache_get_def)
  have r: "cache_reach (\<lambda>_. ''k'') (\<lambda>_. 10) ?s0 ?s2"
    using reach_step [OF reach_step [OF reach_refl one] two] .
  have l: "sys_calls ?s2 1 = Loading" by simp
  from single_flight [OF r l l] r l show ?thesis by blast
qed

end
