(* ===== verification/Settings.thy ===== *)
theory Settings
  imports Effects PyString
begin

text \<open>
  \<open>core/settings.py\<close>: the application's configuration, its production test and the cached
  accessor that refuses to start with the placeholder key.  pydantic fills a \<open>settings\<close> from
  the environment; the outcome of that (\<open>Settings()\<close>) is the parameter \<open>load\<close>.
\<close>

record settings =
  app_env :: string
  log_level :: string
  database_url :: string
  redis_url :: string
  secret_key :: string
  jwt_algorithm :: string
  access_token_ttl_min :: int
  llm_provider :: string
  openai_api_key :: string
  openai_model :: string
  anthropic_api_key :: string
  anthropic_model :: string
  ollama_base_url :: string
  ollama_model :: string
  enable_telemetry :: bool
  otlp_endpoint :: string
  rate_limit_per_minute :: int
  plugin_dir :: string
  legal_notice_file :: string
  health_check_fail_threshold :: int
  seed_users :: string

text \<open>The defaults of the fields, which an empty environment gives.\<close>

definition default_settings :: settings where
  "default_settings =
     \<lparr>app_env = ''development'', log_level = ''INFO'',
      database_url = ''sqlite+aiosqlite:///:memory:'', redis_url = ''redis://localhost:6379/0'',
      secret_key = ''change-me'', jwt_algorithm = ''HS256'', access_token_ttl_min = 60,
      llm_provider = ''openai'', openai_api_key = [], openai_model = ''gpt-4o-mini'',
      anthropic_api_key = [], anthropic_model = ''claude-3-5-sonnet-20240620'',
      ollama_base_url = ''http://localhost:11434'', ollama_model = ''llama3'',
      enable_telemetry = False, otlp_endpoint = [], rate_limit_per_minute = 120,
      plugin_dir = ''./plugins'', legal_notice_file = ''./config/legal_notice.md'',
      health_check_fail_threshold = 3, seed_users = []\<rparr>"

definition is_production :: "settings \<Rightarrow> bool" where
  "is_production s \<longleftrightarrow> lower (app_env s) \<in> {''production'', ''prod'', ''staging''}"

text \<open>
  \<open>get_settings\<close> under \<open>lru_cache(maxsize=1)\<close>, the state of which is the settings it has
  returned before; a call that raises caches nothing.
\<close>

definition get_settings :: "exn + settings \<Rightarrow> (settings option, settings) eff" where
  "get_settings load cache =
     (case cache of
        Some s \<Rightarrow> (Inr s, cache)
      | None \<Rightarrow>
          (case load of
             Inl e \<Rightarrow> (Inl e, cache)
           | Inr s \<Rightarrow>
               if is_production s \<and> secret_key s = ''change-me''
               then (Inl (Exn RuntimeError (''TV_LIST_SECRET_KEY is required in non-dev environment; '' @
                       ''refusing to start with the default placeholder.'')), cache)
               else (Inr s, Some s)))"

definition reset_settings_cache :: "settings option \<Rightarrow> settings option" where
  "reset_settings_cache cache = None"

text \<open>What the check promises of the settings the application runs with.\<close>

definition guarded_settings :: "settings \<Rightarrow> bool" where
  "guarded_settings s \<longleftrightarrow> (is_production s \<longrightarrow> secret_key s \<noteq> ''change-me'')"

lemma get_settings_guarded:
  assumes "\<forall>x. cache = Some x \<longrightarrow> guarded_settings x" and "get_settings load cache = (Inr s, cache')"
  shows "guarded_settings s \<and> cache' = Some s \<and> get_settings load' cache' = (Inr s, cache')"
  using assms by (auto simp: get_settings_def guarded_settings_def split: option.splits sum.splits if_splits)

lemma get_settings_error:
  "get_settings load cache = (Inl e, cache') \<Longrightarrow> cache = None \<and> cache' = None"
  by (auto simp: get_settings_def split: option.splits sum.splits if_splits)

end
