(* ===== verification/Middleware.thy ===== *)
theory Middleware
  imports Settings Domain
begin

text \<open>
  \<open>interfaces/api/middleware\<close>, the metrics of \<open>interfaces/api/routers/metrics.py\<close> and the
  exception handlers of \<open>create_app\<close> in \<open>interfaces/api/app.py\<close>: what happens to a request on
  its way to an endpoint and to the endpoint's outcome on its way back.  \<open>app.add_middleware\<close>
  makes the last one added the outermost, so a request passes the error handler, the access
  log, the request-id middleware and FastAPI's exception handlers, in that order.
\<close>

section \<open>Requests, replies and the state a request sees\<close>

record request =
  req_method :: string
  req_path :: string
  req_headers :: "(string, string) dict"

record reply =
  reply_status :: int
  reply_headers :: "(string, string) dict"
  reply_body :: json

text \<open>A line of the access log: its level, the status logged, the trace id, and the error.\<close>

record log_line =
  log_level_name :: string
  log_status :: int
  log_trace_id :: string
  log_error :: "string option"

text \<open>
  \<open>request_id\<close> is the attribute of \<open>request.state\<close>; the gauge and the samples (method, path,
  status label, seconds) are the Prometheus metrics.
\<close>

record 'w http_state =
  hs_world :: 'w
  request_id :: "string option"
  inprogress :: int
  observed :: "(string \<times> string \<times> string \<times> real) list"
  access_log :: "log_line list"

text \<open>
  Library values: \<open>time.perf_counter\<close>, \<open>str(uuid.uuid4())\<close>, \<open>type(e).__name__\<close>, the first
  argument of a \<open>KeyError\<close> as text (empty when it is missing or falsy), \<open>exc.headers or {}\<close>
  of an \<open>HTTPException\<close>, \<open>exc.errors()\<close>, slowapi's handler of \<open>RateLimitExceeded\<close>, and what
  \<open>get_settings()\<close> gives.
\<close>

record 'w http_lib =
  perf_counter :: "'w \<Rightarrow> real"
  new_uuid :: "'w \<Rightarrow> string \<times> 'w"
  type_name :: "exn \<Rightarrow> string"
  key_name :: "exn \<Rightarrow> string"
  exc_headers :: "exn \<Rightarrow> (string, string) dict"
  exc_errors :: "exn \<Rightarrow> json"
  limit_reply :: "request \<Rightarrow> exn \<Rightarrow> reply"
  current_settings :: "exn + settings"

type_synonym 'w endpoint = "request \<Rightarrow> ('w, reply) eff"

text \<open>\<open>getattr(request.state, "request_id", None) or default\<close>.\<close>

definition state_rid :: "string \<Rightarrow> 'w http_state \<Rightarrow> string" where
  "state_rid dflt s = (case request_id s of None \<Rightarrow> dflt | Some r \<Rightarrow> py_or r dflt)"

section \<open>The error handler\<close>

definition problem ::
  "request \<Rightarrow> string \<Rightarrow> int \<Rightarrow> string \<Rightarrow> string \<Rightarrow> string \<Rightarrow> (string, json) dict \<Rightarrow> reply" where
  "problem req rid status title' detail type_uri extra =
     (let body = [(''type'', JStr type_uri), (''title'', JStr title'), (''status'', JInt status),
                  (''detail'', JStr detail), (''instance'', JStr (req_path req)),
                  (''request_id'', JStr rid)]
      in \<lparr>reply_status = status, reply_headers = [(''x-request-id'', rid)],
          reply_body = JObj (fold (\<lambda>(k, v). dict_set k v) extra body)\<rparr>)"

text \<open>The chain of except clauses; \<open>error\<close> is the entry \<open>"error": type(e).__name__\<close>.\<close>

definition error_reply :: "'w http_lib \<Rightarrow> request \<Rightarrow> string \<Rightarrow> exn \<Rightarrow> exn + reply" where
  "error_reply lib req rid e =
     (let error = (''error'', JStr (type_name lib e));
          or_default = (\<lambda>d. py_or (exn_str e) d)
      in if isinstance e TransientError then
           Inr (problem req rid 503 ''Service Unavailable'' (exn_str e) ''/problems/transient-error''
             [(''retryable'', JBool True), error])
         else if isinstance e PermanentError then
           Inr (problem req rid 400 ''Bad Request'' (exn_str e) ''/problems/permanent-error''
             [(''retryable'', JBool False), error])
         else if isinstance e TVListBaseError then
           Inr (problem req rid 400 ''Domain Error'' (exn_str e) ''/problems/domain-error'' [error])
         else if isinstance e ValueError then
           Inr (problem req rid 400 ''Bad Request'' (or_default ''invalid value'') ''/problems/value-error'' [error])
         else if isinstance e PermissionError then
           Inr (problem req rid 403 ''Forbidden'' (or_default ''permission denied'')
             ''/problems/permission-error'' [error])
         else if isinstance e KeyError then
           Inr (problem req rid 404 ''Not Found''
             (if key_name lib e \<noteq> [] then ''key not found: '' @ key_name lib e else ''key not found'')
             ''/problems/key-error'' [error])
         else
           (case current_settings lib of
              Inl e' \<Rightarrow> Inl e'
            | Inr cfg \<Rightarrow>
                Inr (problem req rid 500 ''Internal Server Error''
                  (if app_env cfg \<noteq> ''production'' then type_name lib e @ '': '' @ exn_str e
                   else ''internal error'')
                  ''/problems/internal-error'' [])))"

definition error_dispatch :: "'w http_lib \<Rightarrow> 'w http_state endpoint \<Rightarrow> 'w http_state endpoint" where
  "error_dispatch lib call_next req =
     try_except (call_next req) (\<lambda>_. True)
       (\<lambda>e s. pure_eff (error_reply lib req (state_rid ''unknown'' s) e) s)"

section \<open>The access log and the metrics\<close>

definition inc_inprogress :: "'w http_state \<Rightarrow> 'w http_state" where
  "inc_inprogress s = s\<lparr>inprogress := inprogress s + 1\<rparr>"

definition dec_inprogress :: "'w http_state \<Rightarrow> 'w http_state" where
  "dec_inprogress s = s\<lparr>inprogress := inprogress s - 1\<rparr>"

definition observe_http_request :: "request \<Rightarrow> int \<Rightarrow> real \<Rightarrow> 'w http_state \<Rightarrow> 'w http_state" where
  "observe_http_request req status seconds s =
     s\<lparr>observed := observed s @ [(req_method req, req_path req, show_int status, seconds)]\<rparr>"

definition write_log :: "log_line \<Rightarrow> 'w http_state \<Rightarrow> 'w http_state" where
  "write_log l s = s\<lparr>access_log := access_log s @ [l]\<rparr>"

definition slow_request_threshold_ms :: real where
  "slow_request_threshold_ms = 500"

definition access_dispatch :: "'w http_lib \<Rightarrow> 'w http_state endpoint \<Rightarrow> 'w http_state endpoint" where
  "access_dispatch lib call_next req s =
     (let start = perf_counter lib (hs_world s);
          trace_id = state_rid ''-'' s
      in case call_next req (inc_inprogress s) of
           (Inl e, s1) \<Rightarrow>
             let duration_ms = (perf_counter lib (hs_world s1) - start) * 1000;
                 s2 = write_log \<lparr>log_level_name = ''error'', log_status = 500, log_trace_id = trace_id,
                                 log_error = Some (exn_str e)\<rparr> s1
             in (Inl e, dec_inprogress (observe_http_request req 500 (duration_ms / 1000) s2))
         | (Inr r, s1) \<Rightarrow>
             let duration_ms = (perf_counter lib (hs_world s1) - start) * 1000;
                 s2 = dec_inprogress (observe_http_request req (reply_status r) (duration_ms / 1000) s1)
             in (Inr r, write_log
                   \<lparr>log_level_name = (if duration_ms > slow_request_threshold_ms then ''warning'' else ''info''),
                    log_status = reply_status r, log_trace_id = trace_id, log_error = None\<rparr> s2))"

section \<open>The request id\<close>

definition request_id_dispatch :: "'w http_lib \<Rightarrow> 'w http_state endpoint \<Rightarrow> 'w http_state endpoint" where
  "request_id_dispatch lib call_next req s =
     (let (rid, w) =
            (case map_of (req_headers req) ''x-request-id'' of
               Some h \<Rightarrow> if h \<noteq> [] then (h, hs_world s) else new_uuid lib (hs_world s)
             | None \<Rightarrow> new_uuid lib (hs_world s))
      in bindE (call_next req)
           (\<lambda>r. ret (r\<lparr>reply_headers := dict_set ''x-request-id'' rid (reply_headers r)\<rparr>))
           (s\<lparr>hs_world := w, request_id := Some rid\<rparr>))"

section \<open>The application's exception handlers\<close>

text \<open>\<open>_http_exception_handler\<close>; every \<open>detail\<close> the code raises is a string.\<close>

definition http_problem :: "'w http_lib \<Rightarrow> request \<Rightarrow> string \<Rightarrow> int \<Rightarrow> exn \<Rightarrow> reply" where
  "http_problem lib req rid status e =
     (let headers = exc_headers lib e
      in \<lparr>reply_status = status,
          reply_headers =
            (if map_of headers ''x-request-id'' = None then dict_set ''x-request-id'' rid headers else headers),
          reply_body = JObj [(''type'', JStr ''/problems/http-error''), (''title'', JStr (exn_str e)),
            (''status'', JInt status), (''detail'', JStr (exn_str e)), (''instance'', JStr (req_path req)),
            (''request_id'', JStr rid)]\<rparr>)"

text \<open>\<open>_validation_handler\<close>.\<close>

definition validation_problem :: "'w http_lib \<Rightarrow> request \<Rightarrow> string \<Rightarrow> exn \<Rightarrow> reply" where
  "validation_problem lib req rid e =
     \<lparr>reply_status = 422, reply_headers = [(''x-request-id'', rid)],
      reply_body = JObj [(''type'', JStr ''/problems/validation-error''), (''title'', JStr ''Validation Error''),
        (''status'', JInt 422), (''detail'', JStr ''request validation failed''),
        (''instance'', JStr (req_path req)), (''request_id'', JStr rid), (''errors'', exc_errors lib e)]\<rparr>"

text \<open>\<open>app.add_exception_handler\<close> for the three exception classes, around an endpoint.\<close>

definition handled :: "'w http_lib \<Rightarrow> 'w endpoint \<Rightarrow> 'w http_state endpoint" where
  "handled lib ep req s =
     (case ep req (hs_world s) of
        (out, w) \<Rightarrow>
          let s' = s\<lparr>hs_world := w\<rparr>; rid = state_rid ''unknown'' s'
          in (case out of
                Inr r \<Rightarrow> Inr r
              | Inl e \<Rightarrow>
                  (case exc e of
                     HTTPException n \<Rightarrow> Inr (http_problem lib req rid n e)
                   | RequestValidationError \<Rightarrow> Inr (validation_problem lib req rid e)
                   | RateLimitExceeded \<Rightarrow> Inr (limit_reply lib req e)
                   | _ \<Rightarrow> Inl e), s'))"

text \<open>The stack \<open>create_app\<close> builds around an endpoint.\<close>

definition serve :: "'w http_lib \<Rightarrow> 'w endpoint \<Rightarrow> 'w http_state endpoint" where
  "serve lib ep =
     error_dispatch lib (access_dispatch lib (request_id_dispatch lib (handled lib ep)))"

section \<open>What the stack does\<close>

text \<open>The request id a request gets and the world its endpoint starts in.\<close>

definition request_scope :: "'w http_lib \<Rightarrow> request \<Rightarrow> 'w \<Rightarrow> string \<times> 'w" where
  "request_scope lib req w =
     (case map_of (req_headers req) ''x-request-id'' of
        Some h \<Rightarrow> if h \<noteq> [] then (h, w) else new_uuid lib w
      | None \<Rightarrow> new_uuid lib w)"

text \<open>
  The status FastAPI's handlers give an exception, if they take it; the status a client sees;
  and the one the metrics record.
\<close>

definition handled_status :: "exn \<Rightarrow> int option" where
  "handled_status e =
     (case exc e of HTTPException n \<Rightarrow> Some n | RequestValidationError \<Rightarrow> Some 422 | RateLimitExceeded \<Rightarrow> Some 429 | _ \<Rightarrow> None)"

definition domain_status :: "exn \<Rightarrow> int" where
  "domain_status e =
     (if isinstance e TransientError then 503
      else if isinstance e TVListBaseError \<or> isinstance e ValueError then 400
      else if isinstance e PermissionError then 403
      else if isinstance e KeyError then 404 else 500)"

definition client_status :: "exn + reply \<Rightarrow> int" where
  "client_status out =
     (case out of
        Inr r \<Rightarrow> reply_status r
      | Inl e \<Rightarrow> (case handled_status e of Some n \<Rightarrow> n | None \<Rightarrow> domain_status e))"

definition metric_status :: "exn + reply \<Rightarrow> int" where
  "metric_status out =
     (case out of
        Inr r \<Rightarrow> reply_status r
      | Inl e \<Rightarrow> (case handled_status e of Some n \<Rightarrow> n | None \<Rightarrow> 500))"

lemma permanent_base: "is_subclass c PermanentError \<Longrightarrow> is_subclass c TVListBaseError"
  by (erule is_subclass_trans) (simp add: is_subclass_Some)

lemma error_reply_status:
  assumes "current_settings lib = Inr cfg"
  shows "\<exists>r. error_reply lib req rid e = Inr r \<and> reply_status r = domain_status e \<and>
    map_of (reply_headers r) ''x-request-id'' = Some rid"
  using assms permanent_base [of "exc e"]
  by (simp add: error_reply_def domain_status_def problem_def Let_def)

text \<open>slowapi answers 429.\<close>

definition limits_answered :: "'w http_lib \<Rightarrow> bool" where
  "limits_answered lib \<longleftrightarrow> (\<forall>req e. reply_status (limit_reply lib req e) = 429)"

lemma handled_Inl:
  assumes "ep req (hs_world s) = (Inl e, w)" and "limits_answered lib"
  shows "(case handled_status e of
      None \<Rightarrow> handled lib ep req s = (Inl e, s\<lparr>hs_world := w\<rparr>)
    | Some n \<Rightarrow> \<exists>r. handled lib ep req s = (Inr r, s\<lparr>hs_world := w\<rparr>) \<and> reply_status r = n)"
  using assms
  by (cases "exc e")
    (simp_all add: handled_def handled_status_def http_problem_def validation_problem_def limits_answered_def Let_def)

lemma handled_Inr:
  "ep req (hs_world s) = (Inr r, w) \<Longrightarrow> handled lib ep req s = (Inr r, s\<lparr>hs_world := w\<rparr>)"
  by (simp add: handled_def Let_def)

text \<open>
  Below the access log: the reply carries the request id, or an exception no handler takes
  comes through; only the world and the request id have moved.
\<close>

lemma request_id_outcome:
  assumes "request_scope lib req (hs_world s) = (rid, w)" and "ep req w = (out, w')" and "limits_answered lib"
  defines "s' \<equiv> s\<lparr>hs_world := w', request_id := Some rid\<rparr>"
  obtains (replied) r where "request_id_dispatch lib (handled lib ep) req s = (Inr r, s')"
      "map_of (reply_headers r) ''x-request-id'' = Some rid" "reply_status r = metric_status out"
      "client_status out = metric_status out"
    | (escaped) e where "request_id_dispatch lib (handled lib ep) req s = (Inl e, s')"
      "client_status out = domain_status e" "metric_status out = 500"
proof -
  let ?s = "s\<lparr>hs_world := w, request_id := Some rid\<rparr>"
  have start: "request_id_dispatch lib (handled lib ep) req s =
      bindE (handled lib ep req)
        (\<lambda>r. ret (r\<lparr>reply_headers := dict_set ''x-request-id'' rid (reply_headers r)\<rparr>)) ?s"
    using assms(1) unfolding request_id_dispatch_def request_scope_def [symmetric] by simp
  have ep: "ep req (hs_world ?s) = (out, w')" using assms(2) by simp
  have up: "?s\<lparr>hs_world := w'\<rparr> = s'" by (simp add: s'_def)
  show thesis
  proof (cases out)
    case (Inr r)
    with handled_Inr [of ep req ?s r w' lib, unfolded up] ep show ?thesis
      by (intro replied [of "r\<lparr>reply_headers := dict_set ''x-request-id'' rid (reply_headers r)\<rparr>"])
        (simp_all add: start bindE_def metric_status_def client_status_def)
  next
    case (Inl e)
    note h = handled_Inl [of ep req ?s e w' lib, unfolded up, OF _ assms(3)]
    show ?thesis
    proof (cases "handled_status e")
      case None
      with h ep Inl show ?thesis
        by (intro escaped) (simp_all add: start bindE_def metric_status_def client_status_def)
    next
      case (Some n)
      with h ep Inl obtain r where "handled lib ep req ?s = (Inr r, s')" "reply_status r = n" by auto
      with Some Inl show ?thesis
        by (intro replied [of "r\<lparr>reply_headers := dict_set ''x-request-id'' rid (reply_headers r)\<rparr>"]) (simp_all add: start bindE_def metric_status_def client_status_def)
    qed
  qed
qed

text \<open>The access log adds one sample and one line and restores the gauge.\<close>

lemma access_outcome:
  assumes "call_next req (inc_inprogress s) = (out, s1)"
  obtains d l where "access_dispatch lib call_next req s =
      (out, s1\<lparr>inprogress := inprogress s1 - 1,
               observed := observed s1 @ [(req_method req, req_path req, show_int (log_status l), d)],
               access_log := access_log s1 @ [l]\<rparr>)"
    "log_status l = (case out of Inl e \<Rightarrow> 500 | Inr r \<Rightarrow> reply_status r)"
    "log_trace_id l = state_rid ''-'' s"
proof (cases out)
  case (Inl e)
  show ?thesis
    by (rule that [of "\<lparr>log_level_name = ''error'', log_status = 500, log_trace_id = state_rid ''-'' s,
          log_error = Some (exn_str e)\<rparr>" "(perf_counter lib (hs_world s1) - perf_counter lib (hs_world s)) * 1000 / 1000"])
      (simp_all add: access_dispatch_def assms Inl Let_def dec_inprogress_def observe_http_request_def write_log_def)
next
  case (Inr r)
  show ?thesis
    by (rule that [of "\<lparr>log_level_name = (if (perf_counter lib (hs_world s1) - perf_counter lib (hs_world s)) * 1000 >
              slow_request_threshold_ms then ''warning'' else ''info''),
          log_status = reply_status r, log_trace_id = state_rid ''-'' s, log_error = None\<rparr>"
        "(perf_counter lib (hs_world s1) - perf_counter lib (hs_world s)) * 1000 / 1000"])
      (simp_all add: access_dispatch_def assms Inr Let_def dec_inprogress_def observe_http_request_def write_log_def)
qed

text \<open>The whole stack: the reply, the sample and the log line of one request.\<close>

lemma serve_outcome:
  assumes "current_settings lib = Inr cfg" and "request_id s = None"
    and "request_scope lib req (hs_world s) = (rid, w)" and "rid \<noteq> []" and "ep req w = (out, w')"
    and "limits_answered lib"
  shows "\<exists>r s' d l. serve lib ep req s = (Inr r, s') \<and> reply_status r = client_status out \<and>
    map_of (reply_headers r) ''x-request-id'' = Some rid \<and> hs_world s' = w' \<and>
    inprogress s' = inprogress s \<and>
    observed s' = observed s @ [(req_method req, req_path req, show_int (metric_status out), d)] \<and>
    access_log s' = access_log s @ [l] \<and> log_status l = metric_status out \<and> log_trace_id l = ''-''"
proof -
  let ?s = "inc_inprogress s" and ?inner = "request_id_dispatch lib (handled lib ep)"
  have scope: "request_scope lib req (hs_world ?s) = (rid, w)" using assms(3) by (simp add: inc_inprogress_def)
  have dash: "state_rid ''-'' s = ''-''" by (simp add: state_rid_def assms(2))
  show ?thesis
  proof (rule request_id_outcome [where lib = lib and ep = ep, OF scope assms(5,6)])
    fix r assume r: "?inner req ?s = (Inr r, ?s\<lparr>hs_world := w', request_id := Some rid\<rparr>)"
      "map_of (reply_headers r) ''x-request-id'' = Some rid" "reply_status r = metric_status out"
      "client_status out = metric_status out"
    obtain d l where a: "access_dispatch lib ?inner req s = (Inr r, ?s
        \<lparr>hs_world := w', request_id := Some rid, inprogress := inprogress ?s - 1,
         observed := observed s @ [(req_method req, req_path req, show_int (metric_status out), d)],
         access_log := access_log s @ [l]\<rparr>)" "log_status l = metric_status out" "log_trace_id l = ''-''"
      by (rule access_outcome [where call_next = ?inner, OF r(1), of lib]) (use r(3) dash in \<open>simp add: inc_inprogress_def\<close>)
    with r show ?thesis by (simp add: serve_def error_dispatch_def try_except_def inc_inprogress_def)
  next
    fix e assume e: "?inner req ?s = (Inl e, ?s\<lparr>hs_world := w', request_id := Some rid\<rparr>)"
      "client_status out = domain_status e" "metric_status out = 500"
    obtain d l where a: "access_dispatch lib ?inner req s = (Inl e, ?s
        \<lparr>hs_world := w', request_id := Some rid, inprogress := inprogress ?s - 1,
         observed := observed s @ [(req_method req, req_path req, show_int (metric_status out), d)],
         access_log := access_log s @ [l]\<rparr>)" "log_status l = metric_status out" "log_trace_id l = ''-''"
      by (rule access_outcome [where call_next = ?inner, OF e(1), of lib]) (use e(3) dash in \<open>simp add: inc_inprogress_def\<close>)
    obtain r where "error_reply lib req rid e = Inr r" "reply_status r = domain_status e"
        "map_of (reply_headers r) ''x-request-id'' = Some rid"
      using error_reply_status [OF assms(1)] by blast
    with a e assms(4) show ?thesis
      by (simp add: serve_def error_dispatch_def try_except_def inc_inprogress_def state_rid_def)
  qed
qed

section \<open>Properties\<close>

text \<open>
  C24: one reply and one sample for every request.  Whatever the endpoint does, with readable
  settings the stack raises nothing: the client gets a reply whose status follows the table
  \<open>client_status\<close> and whose \<open>x-request-id\<close> is the one sent or generated, the gauge of
  requests in progress is back where it was, and exactly one sample is recorded.  Its status is
  \<open>metric_status\<close>, which is 500 for every exception only the outer error handler maps: a
  domain error the client sees as 503, 400, 403 or 404 counts as a 500 in the metrics.  The
  access log runs outside the request-id middleware and logs the trace id \<open>-\<close> for each
  request.
\<close>

theorem every_request_is_answered:
  assumes "current_settings lib = Inr cfg" and "request_id s = None"
    and "request_scope lib req (hs_world s) = (rid, w)" and "rid \<noteq> []" and "ep req w = (out, w')"
    and "limits_answered lib"
  shows "\<exists>r s' d l. serve lib ep req s = (Inr r, s') \<and> reply_status r = client_status out \<and>
    map_of (reply_headers r) ''x-request-id'' = Some rid \<and> hs_world s' = w' \<and>
    inprogress s' = inprogress s \<and>
    observed s' = observed s @ [(req_method req, req_path req, show_int (metric_status out), d)] \<and>
    access_log s' = access_log s @ [l] \<and> log_status l = metric_status out \<and> log_trace_id l = ''-''"
  using assms by (rule serve_outcome [where ep = ep])

definition demo_lib :: "settings \<Rightarrow> nat http_lib" where
  "demo_lib cfg =
     \<lparr>perf_counter = real, new_uuid = (\<lambda>w. (''rid'', w + 1)), type_name = (\<lambda>_. ''E''),
      key_name = exn_str, exc_headers = (\<lambda>_. []), exc_errors = (\<lambda>_. JNull),
      limit_reply = (\<lambda>_ _. \<lparr>reply_status = 429, reply_headers = [], reply_body = JNull\<rparr>),
      current_settings = Inr cfg\<rparr>"

definition fresh_http_state :: "nat http_state" where
  "fresh_http_state =
     \<lparr>hs_world = 0, request_id = None, inprogress = 0, observed = [], access_log = []\<rparr>"

definition demo_request :: request where
  "demo_request = \<lparr>req_method = ''GET'', req_path = ''/x'', req_headers = []\<rparr>"

theorem every_request_is_answered_witness:
  "\<exists>r s'. serve (demo_lib default_settings) (\<lambda>_. raise (Exn RateLimitError ''slow down'')) demo_request
       fresh_http_state = (Inr r, s') \<and> reply_status r = 503 \<and> map (\<lambda>(_, _, st, _). st) (observed s') = [''500'']"
proof -
  have st: "client_status (Inl (Exn RateLimitError ''slow down'')) = 503"
    "show_int (metric_status (Inl (Exn RateLimitError ''slow down''))) = ''500''" by code_simp+
  have scope: "request_scope (demo_lib default_settings) demo_request (hs_world fresh_http_state) = (''rid'', 1)"
    by (simp add: request_scope_def demo_request_def demo_lib_def fresh_http_state_def)
  show ?thesis
    using every_request_is_answered [OF _ _ scope, of default_settings
        "\<lambda>_. raise (Exn RateLimitError ''slow down'')" "Inl (Exn RateLimitError ''slow down'')" 1]
    by (auto simp: demo_lib_def fresh_http_state_def limits_answered_def st)
qed

text \<open>
  What an unexpected error tells the client.  The handler hides the exception only when
  \<open>app_env\<close> is spelled exactly \<open>production\<close>; in the other environments the configuration
  itself counts as production (\<open>prod\<close>, \<open>staging\<close>, any other spelling of the case) the reply
  carries the exception's type and message.
\<close>

theorem internal_details_shown:
  assumes "current_settings lib = Inr cfg" and "domain_status e = 500"
  shows "\<exists>r. error_reply lib req rid e = Inr r \<and>
    (app_env cfg = ''production'' \<longrightarrow>
       r = problem req rid 500 ''Internal Server Error'' ''internal error'' ''/problems/internal-error'' []) \<and>
    (is_production cfg \<and> app_env cfg \<noteq> ''production'' \<longrightarrow>
       r = problem req rid 500 ''Internal Server Error'' (type_name lib e @ '': '' @ exn_str e)
             ''/problems/internal-error'' [])"
proof -
  have "error_reply lib req rid e = Inr (problem req rid 500 ''Internal Server Error''
      (if app_env cfg \<noteq> ''production'' then type_name lib e @ '': '' @ exn_str e else ''internal error'')
      ''/problems/internal-error'' [])"
  proof -
    have "\<not> isinstance e TransientError" "\<not> isinstance e TVListBaseError" "\<not> isinstance e ValueError"
        "\<not> isinstance e PermissionError" "\<not> isinstance e KeyError"
      using assms(2) by (auto simp: domain_status_def split: if_split_asm)
    moreover from this(2) have "\<not> isinstance e PermanentError" using permanent_base by blast
    ultimately show ?thesis using assms(1) by (simp add: error_reply_def Let_def)
  qed
  then show ?thesis by simp
qed

theorem internal_details_shown_witness:
  "\<exists>r. error_reply (demo_lib (default_settings\<lparr>app_env := ''staging''\<rparr>)) demo_request ''rid''
       (Exn OtherError ''secret'') = Inr r \<and>
     r = problem demo_request ''rid'' 500 ''Internal Server Error'' ''E: secret'' ''/problems/internal-error'' []"
proof -
  let ?cfg = "default_settings\<lparr>app_env := ''staging''\<rparr>"
  have p: "is_production ?cfg" "domain_status (Exn OtherError ''secret'') = 500" by code_simp+
  have l: "current_settings (demo_lib ?cfg) = Inr ?cfg" "type_name (demo_lib ?cfg) (Exn OtherError ''secret'') = ''E''"
    by (simp_all add: demo_lib_def)
  from internal_details_shown [OF l(1) p(2), of demo_request "''rid''"] p(1) l(2) show ?thesis by auto
qed

end
