(* ===== verification/UserRepository.thy ===== *)
theory UserRepository
  imports Session
begin

text \<open>
  \<open>infrastructure/persistence/user_repository_impl.py\<close> over \<open>models.UserRow\<close>, and the port of
  \<open>domain/ports/user_repository.py\<close> with its laws in the locale \<open>user_repository\<close>: \<open>users\<close> is
  the map from user names to users and password hashes a state stands for.
\<close>

section \<open>Rows and operations\<close>

record user_row =
  urow_id :: string
  urow_username :: string
  urow_password_hash :: string
  urow_role :: string
  urow_created_at :: datetime
  urow_disabled :: bool

text \<open>The primary key and the unique user name.\<close>

definition user_clash :: "user_row \<Rightarrow> user_row \<Rightarrow> bool" where
  "user_clash r r' \<longleftrightarrow> urow_id r = urow_id r' \<or> urow_username r = urow_username r'"

definition user_store :: "user_row \<Rightarrow> user_row" where
  "user_store r = r\<lparr>urow_created_at := naive (urow_created_at r)\<rparr>"

lemma user_store_simps [simp]:
  "urow_id (user_store r) = urow_id r" "urow_username (user_store r) = urow_username r"
  "urow_password_hash (user_store r) = urow_password_hash r"
  by (simp_all add: user_store_def)

interpretation user_table: sql_table urow_id user_clash user_store
  by unfold_locales (auto simp: user_clash_def user_store_def)

text \<open>\<open>Role\<close> is a \<open>Literal\<close>: pydantic accepts its two strings and nothing else.\<close>

fun role_value :: "role \<Rightarrow> string" where
  "role_value Admin = ''admin''"
| "role_value User = ''user''"

definition role_of :: "string \<Rightarrow> exn + role" where
  "role_of s =
     (if s = ''admin'' then Inr Admin else if s = ''user'' then Inr User
      else Inl (Exn ValidationError ''validation error''))"

lemma role_of_value [simp]: "role_of (role_value r) = Inr r"
  by (cases r) (simp_all add: role_of_def)

lemma role_of_Inr: "role_of s = Inr r \<longleftrightarrow> s = role_value r"
  by (cases r) (auto simp: role_of_def)

definition user_to_domain :: "user_row \<Rightarrow> exn + user" where
  "user_to_domain r =
     (case role_of (urow_role r) of
        Inl e \<Rightarrow> Inl e
      | Inr ro \<Rightarrow>
          (let u = \<lparr>user_id = urow_id r, username = urow_username r, user_role = ro,
                    user_created_at = urow_created_at r, disabled = urow_disabled r\<rparr>
           in validated (user_ok u) u))"

definition user_from_domain :: "user \<Rightarrow> string \<Rightarrow> user_row" where
  "user_from_domain u password_hash =
     \<lparr>urow_id = user_id u, urow_username = username u, urow_password_hash = password_hash,
      urow_role = role_value (user_role u), urow_created_at = user_created_at u,
      urow_disabled = disabled u\<rparr>"

record 's user_port =
  up_get_by_username :: "string \<Rightarrow> ('s, (user \<times> string) option) eff"
  up_get_by_id :: "string \<Rightarrow> ('s, user option) eff"
  up_add :: "user \<Rightarrow> string \<Rightarrow> ('s, unit) eff"
  up_list_all :: "('s, user list) eff"

definition by_username :: "string \<Rightarrow> user_row query" where
  "by_username n = q_where (\<lambda>r. urow_username r = n) select_all"

definition get_by_username ::
  "('s, user_row) session_api \<Rightarrow> string \<Rightarrow> ('s, (user \<times> string) option) eff" where
  "get_by_username api n =
     bindE (exec_select api (by_username n)) (\<lambda>rows.
     bindE (pure_eff (scalar_one_or_none rows)) (\<lambda>res.
       case res of
         None \<Rightarrow> ret None
       | Some r \<Rightarrow> pure_eff (map_sum id (\<lambda>u. Some (u, urow_password_hash r)) (user_to_domain r))))"

definition get_by_id :: "('s, user_row) session_api \<Rightarrow> string \<Rightarrow> ('s, user option) eff" where
  "get_by_id api i =
     bindE (get_row api i) (\<lambda>res.
       case res of None \<Rightarrow> ret None | Some r \<Rightarrow> pure_eff (map_sum id Some (user_to_domain r)))"

definition user_add :: "('s, user_row) session_api \<Rightarrow> user \<Rightarrow> string \<Rightarrow> ('s, unit) eff" where
  "user_add api u password_hash s = (Inr (), add_row api (user_from_domain u password_hash) s)"

definition list_users :: "('s, user_row) session_api \<Rightarrow> ('s, user list) eff" where
  "list_users api =
     bindE (exec_select api (q_order_by (\<lambda>r. dt_wall (urow_created_at r)) select_all))
       (\<lambda>rows. pure_eff (traverse user_to_domain rows))"

definition SQLAlchemyUserRepository :: "('s, user_row) session_api \<Rightarrow> 's user_port" where
  "SQLAlchemyUserRepository api =
     \<lparr>up_get_by_username = get_by_username api, up_get_by_id = get_by_id api,
      up_add = user_add api, up_list_all = list_users api\<rparr>"

section \<open>The laws of the port\<close>

definition naive_user :: "user \<Rightarrow> user" where
  "naive_user u = u\<lparr>user_created_at := naive (user_created_at u)\<rparr>"

lemma naive_user_simps [simp]:
  "user_id (naive_user u) = user_id u" "username (naive_user u) = username u"
  "user_role (naive_user u) = user_role u" "disabled (naive_user u) = disabled u"
  "user_ok (naive_user u) = user_ok u"
  by (simp_all add: naive_user_def user_ok_def)

locale user_repository =
  fixes urepo :: "'s user_port" and users :: "'s \<Rightarrow> (string \<rightharpoonup> user \<times> string) option"
  assumes get_user: "users s = Some m \<Longrightarrow>
      \<exists>x s'. up_get_by_username urepo n s = (Inr x, s') \<and> users s' = Some m \<and>
        map_option (map_prod naive_user id) x = m n"
    and get_user_by_id: "users s = Some m \<Longrightarrow>
      \<exists>x s'. up_get_by_id urepo i s = (Inr x, s') \<and> users s' = Some m \<and>
        (case x of
           None \<Rightarrow> \<forall>n u h. m n = Some (u, h) \<longrightarrow> user_id u \<noteq> i
         | Some u \<Rightarrow> user_id u = i \<and> (\<exists>h. m (username u) = Some (naive_user u, h)))"
    and add_user: "users s = Some m \<Longrightarrow> m (username u) = None \<Longrightarrow>
      (\<And>n v h. m n = Some (v, h) \<Longrightarrow> user_id v \<noteq> user_id u) \<Longrightarrow> user_ok u \<Longrightarrow>
      \<exists>s'. up_add urepo u h s = (Inr (), s') \<and> users s' = Some (m(username u \<mapsto> (naive_user u, h)))"
    and list_users: "users s = Some m \<Longrightarrow>
      \<exists>us s'. up_list_all urepo s = (Inr us, s') \<and> users s' = Some m \<and>
        naive_user ` set us = fst ` ran m \<and> sorted (map (\<lambda>u. dt_wall (user_created_at u)) us)"

text \<open>The map a table of readable rows stands for.\<close>

definition row_user :: "user_row \<Rightarrow> user \<times> string" where
  "row_user r = (projr (user_to_domain r), urow_password_hash r)"

definition user_map :: "('s \<Rightarrow> user_row set option) \<Rightarrow> 's \<Rightarrow> (string \<rightharpoonup> user \<times> string) option" where
  "user_map view s =
     (case view s of
        None \<Rightarrow> None
      | Some S \<Rightarrow>
          if \<forall>r \<in> S. \<not> isl (user_to_domain r) then Some (keyed urow_username row_user S) else None)"

lemma user_map_Some:
  "user_map view s = Some m \<longleftrightarrow>
     (\<exists>S. view s = Some S \<and> (\<forall>r \<in> S. \<not> isl (user_to_domain r)) \<and> m = keyed urow_username row_user S)"
  by (auto simp: user_map_def split: option.splits)

lemma user_to_domain_store:
  "user_to_domain (user_store r) = map_sum id naive_user (user_to_domain r)"
  by (auto simp: user_to_domain_def user_store_def Let_def validated_def naive_user_def user_ok_def
      split: sum.splits)

lemma user_to_domain_Inr:
  "user_to_domain r = Inr u \<Longrightarrow>
     user_id u = urow_id r \<and> username u = urow_username r \<and> user_created_at u = urow_created_at r"
  by (auto simp: user_to_domain_def Let_def split: sum.splits)

lemma user_to_domain_from_domain: "user_ok u \<Longrightarrow> user_to_domain (user_from_domain u h) = Inr u"
  by (cases u) (auto simp: user_to_domain_def user_from_domain_def Let_def)

lemma user_from_domain_simps [simp]:
  "urow_id (user_from_domain u h) = user_id u" "urow_username (user_from_domain u h) = username u"
  "urow_password_hash (user_from_domain u h) = h"
  by (simp_all add: user_from_domain_def)

locale user_session =
  sql_session urow_id user_clash user_store api view
  for api :: "('s, user_row) session_api" and view :: "'s \<Rightarrow> user_row set option"
begin

lemma inj_username: "view s = Some S \<Longrightarrow> inj_on urow_username S"
  using view_ok by (fastforce simp: table_ok_def user_clash_def intro: inj_onI)

lemma readable_user:
  assumes "\<forall>r \<in> S. \<not> isl (user_to_domain r)" "user_store r \<in> S"
  obtains u where "user_to_domain r = Inr u" "row_user (user_store r) = (naive_user u, urow_password_hash r)"
    "row_user r = (u, urow_password_hash r)"
proof -
  have "\<not> isl (user_to_domain (user_store r))" using assms by blast
  then obtain u where "user_to_domain r = Inr u"
    by (cases "user_to_domain r") (auto simp: user_to_domain_store)
  with that show thesis by (simp add: row_user_def user_to_domain_store)
qed

lemma user_stored: "view s = Some S \<Longrightarrow> r \<in> S \<Longrightarrow> user_store r = r"
  using view_ok by (auto simp: table_ok_def)

end

section \<open>The SQLAlchemy repository implements the port\<close>

sublocale user_session \<subseteq> repo: user_repository "SQLAlchemyUserRepository api" "user_map view"
proof unfold_locales
  fix s m n assume "user_map view s = Some m"
  then obtain S where S: "view s = Some S" "\<forall>r \<in> S. \<not> isl (user_to_domain r)"
      "m = keyed urow_username row_user S" unfolding user_map_Some by blast
  note inj = inj_username [OF S(1)]
  obtain x xs s' where x: "exec_select api (by_username n) s = (Inr xs, s')" "view s' = Some S"
      "scalar_one_or_none xs = Inr x"
      "case x of None \<Rightarrow> \<forall>r \<in> S. \<not> where_clause (by_username n) r
       | Some r \<Rightarrow> user_store r \<in> S \<and> where_clause (by_username n) (user_store r)"
    by (rule select_one [OF S(1), of "by_username n"])
      (auto simp: by_username_def dest: inj_onD [OF inj])
  have m': "user_map view s' = Some m" using S x(2) by (auto simp: user_map_Some)
  show "\<exists>x s'. up_get_by_username (SQLAlchemyUserRepository api) n s = (Inr x, s') \<and>
      user_map view s' = Some m \<and> map_option (map_prod naive_user id) x = m n"
  proof (cases x)
    case None
    with x(4) have "m n = None" by (simp add: S(3) keyed_None by_username_def)
    with None x(1,3) m' show ?thesis
      by (simp add: SQLAlchemyUserRepository_def get_by_username_def bindE_def)
  next
    case (Some r)
    with x(4) have r: "user_store r \<in> S" "urow_username (user_store r) = n"
      by (simp_all add: by_username_def)
    obtain u where u: "user_to_domain r = Inr u" "row_user (user_store r) = (naive_user u, urow_password_hash r)"
      using readable_user [OF S(2) r(1)] .
    have "m n = Some (naive_user u, urow_password_hash r)"
      using keyed_at [OF inj r(1), of row_user] r(2) u(2) by (simp add: S(3))
    with Some x(1,3) u(1) m' show ?thesis
      by (simp add: SQLAlchemyUserRepository_def get_by_username_def bindE_def)
  qed
next
  fix s m i assume "user_map view s = Some m"
  then obtain S where S: "view s = Some S" "\<forall>r \<in> S. \<not> isl (user_to_domain r)"
      "m = keyed urow_username row_user S" unfolding user_map_Some by blast
  note inj = inj_username [OF S(1)]
  obtain x s' where x: "get_row api i s = (Inr x, s')" "view s' = Some S"
      "case x of None \<Rightarrow> \<forall>r \<in> S. urow_id r \<noteq> i | Some r \<Rightarrow> user_store r \<in> S \<and> urow_id r = i"
    using get [OF S(1)] by blast
  have m': "user_map view s' = Some m" using S x(2) by (auto simp: user_map_Some)
  show "\<exists>x s'. up_get_by_id (SQLAlchemyUserRepository api) i s = (Inr x, s') \<and>
      user_map view s' = Some m \<and>
      (case x of None \<Rightarrow> \<forall>n u h. m n = Some (u, h) \<longrightarrow> user_id u \<noteq> i
       | Some u \<Rightarrow> user_id u = i \<and> (\<exists>h. m (username u) = Some (naive_user u, h)))"
  proof (cases x)
    case None
    have "user_id u \<noteq> i" if mn: "m n = Some (u, h)" for n u h
    proof -
      obtain r where r: "r \<in> S" "row_user r = (u, h)"
        using keyed_SomeE [OF mn [unfolded S(3)] inj] by blast
      with readable_user [OF S(2), of r] user_stored [OF S(1) r(1)]
      have "user_to_domain r = Inr u" by (metis Pair_inject)
      from user_to_domain_Inr [OF this] None x(3) r(1) show ?thesis by auto
    qed
    with None x(1) m' show ?thesis
      by (auto simp: SQLAlchemyUserRepository_def get_by_id_def bindE_def)
  next
    case (Some r)
    with x(3) have r: "user_store r \<in> S" "urow_id r = i" by simp_all
    obtain u where u: "user_to_domain r = Inr u" "row_user (user_store r) = (naive_user u, urow_password_hash r)"
      using readable_user [OF S(2) r(1)] .
    have "m (username u) = Some (naive_user u, urow_password_hash r)"
      using keyed_at [OF inj r(1), of row_user] u(2) user_to_domain_Inr [OF u(1)] by (simp add: S(3))
    with Some x(1) u(1) m' r(2) user_to_domain_Inr [OF u(1)] show ?thesis
      by (auto simp: SQLAlchemyUserRepository_def get_by_id_def bindE_def)
  qed
next
  fix s m u h assume a: "user_map view s = Some m" "m (username u) = None" "user_ok u"
    and ids: "\<And>n v h. m n = Some (v, h) \<Longrightarrow> user_id v \<noteq> user_id u"
  then obtain S where S: "view s = Some S" "\<forall>r \<in> S. \<not> isl (user_to_domain r)"
      "m = keyed urow_username row_user S" unfolding user_map_Some by blast
  note inj = inj_username [OF S(1)]
  let ?r = "user_from_domain u h"
  have new: "urow_username r \<noteq> username u \<and> urow_id r \<noteq> user_id u" if rS: "r \<in> S" for r
  proof -
    obtain v where v: "user_to_domain r = Inr v" "row_user r = (v, urow_password_hash r)"
      using readable_user [OF S(2), of r] user_stored [OF S(1) rS] rS by metis
    have "m (urow_username r) = Some (row_user r)" using keyed_at [OF inj rS] by (simp add: S(3))
    with ids v user_to_domain_Inr [OF v(1)] a(2) rS show ?thesis
      by (auto simp: S(3) keyed_None)
  qed
  then have "\<not> (\<exists>r' \<in> S. user_clash ?r r')" by (fastforce simp: user_clash_def)
  then have v: "view (add_row api ?r s) = Some (insert (user_store ?r) S)"
    using add [OF S(1), of ?r] by simp
  have dom: "user_to_domain (user_store ?r) = Inr (naive_user u)"
    using user_to_domain_from_domain [OF a(3)] by (simp add: user_to_domain_store)
  have "keyed urow_username row_user (insert (user_store ?r) S) = m(username u \<mapsto> (naive_user u, h))"
    using keyed_insert [OF inj, of "user_store ?r" row_user] new dom
    by (auto simp: S(3) row_user_def)
  with v S(2) dom have "user_map view (add_row api ?r s) = Some (m(username u \<mapsto> (naive_user u, h)))"
    by (auto simp: user_map_Some)
  then show "\<exists>s'. up_add (SQLAlchemyUserRepository api) u h s = (Inr (), s') \<and>
      user_map view s' = Some (m(username u \<mapsto> (naive_user u, h)))"
    by (simp add: SQLAlchemyUserRepository_def user_add_def)
next
  fix s m assume "user_map view s = Some m"
  then obtain S where S: "view s = Some S" "\<forall>r \<in> S. \<not> isl (user_to_domain r)"
      "m = keyed urow_username row_user S" unfolding user_map_Some by blast
  let ?q = "q_order_by (\<lambda>r. dt_wall (urow_created_at r)) select_all :: user_row query"
  obtain rows s' where r: "exec_select api ?q s = (Inr rows, s')" "view s' = Some S"
      "answers ?q S (map user_store rows)" using select [OF S(1)] by blast
  then have rows: "user_store ` set rows = S" "sorted (map (\<lambda>r. dt_wall (urow_created_at r)) (map user_store rows))"
    using answers_unlimited [of ?q S "map user_store rows"] by (auto simp: answers_def)
  define f where "f r = projr (user_to_domain r)" for r
  have dom: "user_to_domain r = Inr (f r)" "naive_user (f r) = fst (row_user (user_store r))"
      "dt_wall (user_created_at (f r)) = dt_wall (urow_created_at (user_store r))"
    if "r \<in> set rows" for r
  proof -
    have "user_store r \<in> S" using rows(1) that by blast
    then obtain u where u: "user_to_domain r = Inr u"
        "row_user (user_store r) = (naive_user u, urow_password_hash r)"
      using readable_user [OF S(2)] by metis
    with user_to_domain_Inr [OF u(1)] show "user_to_domain r = Inr (f r)"
      "naive_user (f r) = fst (row_user (user_store r))"
      "dt_wall (user_created_at (f r)) = dt_wall (urow_created_at (user_store r))"
      by (simp_all add: f_def user_store_def)
  qed
  have "list_users api s = (Inr (map f rows), s')"
    by (simp add: list_users_def bindE_def r(1) traverse_Inr [OF dom(1)])
  moreover have "naive_user ` set (map f rows) = (\<lambda>r. fst (row_user r)) ` user_store ` set rows"
    using dom(2) by (force simp: image_image)
  then have "naive_user ` set (map f rows) = fst ` ran m"
    by (simp add: rows(1) S(3) ran_keyed [OF inj_username [OF S(1)]] image_image)
  moreover have "map (\<lambda>u. dt_wall (user_created_at u)) (map f rows) =
      map (\<lambda>r. dt_wall (urow_created_at r)) (map user_store rows)"
    using dom(3) by simp
  then have "sorted (map (\<lambda>u. dt_wall (user_created_at u)) (map f rows))" using rows(2) by (simp only:)
  ultimately show "\<exists>us s'. up_list_all (SQLAlchemyUserRepository api) s = (Inr us, s') \<and>
      user_map view s' = Some m \<and> naive_user ` set us = fst ` ran m \<and>
      sorted (map (\<lambda>u. dt_wall (user_created_at u)) us)"
    using r(2) S by (auto simp: SQLAlchemyUserRepository_def user_map_Some)
qed

context user_session
begin

lemma user_port_laws: "user_repository (SQLAlchemyUserRepository api) (user_map view)"
  by (rule repo.user_repository_axioms)

end

abbreviation mem_users :: "(user_row list option, user_row) session_api" where
  "mem_users \<equiv> mem_session urow_id user_clash user_store"

abbreviation mem_users_view :: "user_row list option \<Rightarrow> user_row set option" where
  "mem_users_view \<equiv> mem_view user_clash user_store"

interpretation mem_users: user_session mem_users mem_users_view
  by unfold_locales

end
