(* ===== verification/Auth.thy ===== *)
theory Auth
  imports UserRepository Settings Parsers
begin

text \<open>
  Who may call what: \<open>domain/services/auth_service.py\<close> (passwords), \<open>interfaces/api/security.py\<close>
  (tokens and roles), the two endpoints of \<open>interfaces/api/routers/auth.py\<close>, and the seed users
  of \<open>interfaces/api/app.py\<close>.  passlib, jose, the clock and \<open>uuid4\<close> are parameters; the locale
  \<open>jose\<close> states what the code relies on of tokens, \<open>auth_users\<close> what it relies on of
  passwords and identifiers.
\<close>

section \<open>Passwords and users\<close>

record 's auth_env =
  pwd_hash :: "string \<Rightarrow> ('s, string) eff"
  pwd_verify :: "string \<Rightarrow> string \<Rightarrow> exn + bool"
  au_uuid4 :: "'s \<Rightarrow> string \<times> 's"
  au_now :: "'s \<Rightarrow> datetime"

definition hash_password :: "'s auth_env \<Rightarrow> string \<Rightarrow> ('s, string) eff" where
  "hash_password env plain = pwd_hash env plain"

definition verify_password :: "'s auth_env \<Rightarrow> string \<Rightarrow> string \<Rightarrow> bool" where
  "verify_password env plain hashed =
     (case pwd_verify env plain hashed of Inl _ \<Rightarrow> False | Inr b \<Rightarrow> b)"

definition authenticate ::
  "'s auth_env \<Rightarrow> 's user_port \<Rightarrow> string \<Rightarrow> string \<Rightarrow> ('s, user option) eff" where
  "authenticate env repo name password =
     bindE (up_get_by_username repo name) (\<lambda>record.
       case record of
         None \<Rightarrow> ret None
       | Some (u, password_hash) \<Rightarrow>
           if disabled u then ret None
           else if \<not> verify_password env password password_hash then ret None
           else ret (Some u))"

definition create_user ::
  "'s auth_env \<Rightarrow> 's user_port \<Rightarrow> string \<Rightarrow> string \<Rightarrow> string \<Rightarrow> ('s, user) eff" where
  "create_user env repo name password role s =
     (case au_uuid4 env s of
        (i, s1) \<Rightarrow>
          (case role_of role of
             Inl e \<Rightarrow> (Inl e, s1)
           | Inr ro \<Rightarrow>
               let u = \<lparr>user_id = i, username = name, user_role = ro, user_created_at = au_now env s1,
                        disabled = False\<rparr>
               in bindE (pure_eff (validated (user_ok u) u)) (\<lambda>u.
                  bindE (hash_password env password) (\<lambda>h.
                  bindE (up_add repo u h) (\<lambda>_. ret u))) s1))"

section \<open>Tokens\<close>

text \<open>
  The payload given to \<open>jwt.encode\<close>, and the claims it stands for: jose turns the expiry into
  whole seconds since the epoch.
\<close>

record token_payload =
  pl_sub :: json
  pl_role :: string
  pl_exp :: datetime

definition epoch :: "datetime \<Rightarrow> int" where
  "epoch d = dt_wall d div us_per_second"

type_synonym claims = "(string \<times> json) list"

definition claims_of :: "token_payload \<Rightarrow> claims" where
  "claims_of p =
     [(''sub'', pl_sub p), (''role'', JStr (pl_role p)), (''exp'', JInt (epoch (pl_exp p)))]"

record jwt_lib =
  jwt_encode :: "token_payload \<Rightarrow> string \<Rightarrow> string \<Rightarrow> string"
  jwt_decode :: "datetime \<Rightarrow> string \<Rightarrow> string \<Rightarrow> string list \<Rightarrow> exn + claims"
  jwt_str :: "json \<Rightarrow> string"

text \<open>\<open>ttl_min or s.access_token_ttl_min\<close>.\<close>

definition create_access_token ::
  "jwt_lib \<Rightarrow> exn + settings \<Rightarrow> datetime \<Rightarrow> json \<Rightarrow> string \<Rightarrow> int option \<Rightarrow> exn + string" where
  "create_access_token lib cfg now sub role ttl_min =
     (case cfg of
        Inl e \<Rightarrow> Inl e
      | Inr s \<Rightarrow>
          let ttl = (case ttl_min of
                       Some t \<Rightarrow> if t \<noteq> 0 then t else access_token_ttl_min s
                     | None \<Rightarrow> access_token_ttl_min s)
          in Inr (jwt_encode lib
                \<lparr>pl_sub = sub, pl_role = role, pl_exp = dt_plus now (ttl * 60 * us_per_second)\<rparr>
                (secret_key s) (jwt_algorithm s)))"

definition decode_token ::
  "jwt_lib \<Rightarrow> exn + settings \<Rightarrow> datetime \<Rightarrow> string \<Rightarrow> exn + claims option" where
  "decode_token lib cfg now token =
     (case cfg of
        Inl e \<Rightarrow> Inl e
      | Inr s \<Rightarrow>
          (case jwt_decode lib now token (secret_key s) [jwt_algorithm s] of
             Inr c \<Rightarrow> Inr (Some c)
           | Inl e \<Rightarrow> if isinstance e JWTError then Inr None else Inl e))"

definition require_role ::
  "jwt_lib \<Rightarrow> exn + settings \<Rightarrow> string \<Rightarrow> datetime \<Rightarrow> string \<Rightarrow> exn + claims" where
  "require_role lib cfg required now token =
     (case cfg of
        Inl e \<Rightarrow> Inl e
      | Inr s \<Rightarrow>
          (case jwt_decode lib now token (secret_key s) [jwt_algorithm s] of
             Inl e \<Rightarrow> Inl (if isinstance e JWTError then Exn (HTTPException 401) ''invalid token'' else e)
           | Inr payload \<Rightarrow>
               if json_get payload ''role'' \<in> {JStr required, JStr ''admin''} then Inr payload
               else Inl (Exn (HTTPException 403) ''insufficient role'')))"

section \<open>The endpoints\<close>

record token_reply =
  access_token :: string
  token_type :: string

definition login ::
  "jwt_lib \<Rightarrow> exn + settings \<Rightarrow> 's auth_env \<Rightarrow> 's user_port \<Rightarrow> string \<Rightarrow> string \<Rightarrow>
   ('s, token_reply) eff" where
  "login lib cfg env repo name password =
     bindE (authenticate env repo name password) (\<lambda>u.
       case u of
         None \<Rightarrow> raise (Exn (HTTPException 401) ''invalid credentials'')
       | Some u \<Rightarrow> (\<lambda>s.
           bindE (pure_eff cfg) (\<lambda>c.
           bindE (pure_eff (create_access_token lib cfg (au_now env s) (JStr (user_id u))
                              (role_value (user_role u)) (Some (access_token_ttl_min c)))) (\<lambda>token.
             ret \<lparr>access_token = token, token_type = ''bearer''\<rparr>)) s))"

definition refresh_token ::
  "jwt_lib \<Rightarrow> exn + settings \<Rightarrow> datetime \<Rightarrow> string option \<Rightarrow> exn + token_reply" where
  "refresh_token lib cfg now token =
     (case str_or_none token of
        None \<Rightarrow> Inl (Exn (HTTPException 401) ''missing bearer token'')
      | Some t \<Rightarrow>
          (case decode_token lib cfg now t of
             Inl e \<Rightarrow> Inl e
           | Inr None \<Rightarrow> Inl (Exn (HTTPException 401) ''invalid or expired token'')
           | Inr (Some payload) \<Rightarrow>
               let sub = json_get payload ''sub'';
                   role = json_or (json_get payload ''role'') (JStr ''user'')
               in if \<not> truthy sub then Inl (Exn (HTTPException 401) ''invalid token payload'')
                  else (case cfg of
                          Inl e \<Rightarrow> Inl e
                        | Inr c \<Rightarrow>
                            map_sum id (\<lambda>new_token. \<lparr>access_token = new_token, token_type = ''bearer''\<rparr>)
                              (create_access_token lib cfg now sub (py_str (jwt_str lib) role)
                                 (Some (access_token_ttl_min c))))))"

section \<open>Seed users\<close>

text \<open>\<open>_seed_default_users\<close>; \<open>commit\<close> is \<open>session.commit()\<close> of the session it opens.\<close>

definition seed_parts :: "string \<Rightarrow> (string \<times> string \<times> string) option" where
  "seed_parts entry0 =
     (let entry = strip entry0
      in if entry = [] \<or> CHR '':'' \<notin> set entry then None
         else (case split_on CHR '':'' entry of
                 [name, password, role] \<Rightarrow> Some (name, password, role)
               | _ \<Rightarrow> None))"

definition seed_entry :: "'s auth_env \<Rightarrow> 's user_port \<Rightarrow> string \<Rightarrow> ('s, unit) eff" where
  "seed_entry env repo entry =
     (case seed_parts entry of
        None \<Rightarrow> ret ()
      | Some (name, password, role) \<Rightarrow>
          bindE (up_get_by_username repo name) (\<lambda>existing.
            if existing = None then bindE (create_user env repo name password role) (\<lambda>_. ret ())
            else ret ()))"

definition seed_default_users ::
  "exn + settings \<Rightarrow> 's auth_env \<Rightarrow> 's user_port \<Rightarrow> ('s, unit) eff \<Rightarrow> ('s, unit) eff" where
  "seed_default_users cfg env repo commit =
     bindE (pure_eff cfg) (\<lambda>s.
       if is_production s \<or> seed_users s = [] then ret ()
       else bindE (for_each (seed_entry env repo) (split_on CHR '','' (seed_users s))) (\<lambda>_. commit))"

text \<open>\<open>seed_default_admin\<close>, and the line it logs, if any.\<close>

definition seed_default_admin :: "exn + settings \<Rightarrow> exn + (string \<times> nat) option" where
  "seed_default_admin cfg =
     map_sum id (\<lambda>s.
       if is_production s \<or> seed_users s = [] then None
       else Some (''seed_users.configured'', length (filter (\<lambda>p. p \<noteq> []) (split_on CHR '','' (seed_users s))))) cfg"

text \<open>It announces at least the entries \<open>_seed_default_users\<close> takes for users.\<close>

lemma seed_default_admin_count:
  assumes "seed_default_admin (Inr c) = Inr (Some (msg, n))"
  shows "length (filter (\<lambda>e. seed_parts e \<noteq> None) (split_on CHR '','' (seed_users c))) \<le> n"
proof -
  have e: "e \<noteq> []" if "seed_parts e \<noteq> None" for e
    using that by (auto simp: seed_parts_def strip_def lstrip_def rstrip_def)
  have "length (filter (\<lambda>e. seed_parts e \<noteq> None) xs) \<le> length (filter (\<lambda>e. e \<noteq> []) xs)" for xs
    using e by (induction xs) auto
  moreover have "n = length (filter (\<lambda>e. e \<noteq> []) (split_on CHR '','' (seed_users c)))"
    using assms by (simp add: seed_default_admin_def split: if_splits)
  ultimately show ?thesis by (simp only:)
qed

section \<open>What the code relies on of jose\<close>

text \<open>
  A token decodes under its own key and algorithm to its claims until the second of its expiry
  has passed, a token that does not decode raises \<open>JWTError\<close>, and no token is empty.
\<close>

definition hmac_algorithms :: "string set" where
  "hmac_algorithms = {''HS256'', ''HS384'', ''HS512''}"

definition jose_ok :: "jwt_lib \<Rightarrow> bool" where
  "jose_ok lib \<longleftrightarrow>
     (\<forall>now p i k a. pl_sub p = JStr i \<longrightarrow> a \<in> hmac_algorithms \<longrightarrow>
        jwt_decode lib now (jwt_encode lib p k a) k [a] =
          (if epoch now \<le> epoch (pl_exp p) then Inr (claims_of p)
           else Inl (Exn JWTError ''Signature has expired.''))) \<and>
     (\<forall>now tok k as e. jwt_decode lib now tok k as = Inl e \<longrightarrow> exc e = JWTError) \<and>
     (\<forall>p k a. jwt_encode lib p k a \<noteq> [])"

text \<open>A token that names \<open>i\<close> with a role and decodes up to the second \<open>limit\<close> and no longer.\<close>

definition live_token ::
  "jwt_lib \<Rightarrow> settings \<Rightarrow> string \<Rightarrow> string \<Rightarrow> int \<Rightarrow> string \<Rightarrow> bool" where
  "live_token lib s i role limit tok \<longleftrightarrow> tok \<noteq> [] \<and>
     (\<exists>c. json_get c ''sub'' = JStr i \<and> json_get c ''role'' = JStr role \<and>
        (\<forall>now. decode_token lib (Inr s) now tok = Inr (if epoch now \<le> limit then Some c else None)))"

lemma epoch_plus: "epoch (dt_plus d (n * us_per_second)) = epoch d + n"
  by (simp add: epoch_def dt_plus_def us_per_second_def)

lemma created_token_live:
  assumes "jose_ok lib" "jwt_algorithm s \<in> hmac_algorithms"
  shows "\<exists>tok. create_access_token lib (Inr s) now (JStr i) role (Some (access_token_ttl_min s)) = Inr tok \<and>
    live_token lib s i role (epoch now + access_token_ttl_min s * 60) tok"
proof -
  let ?p = "\<lparr>pl_sub = JStr i, pl_role = role, pl_exp = dt_plus now (access_token_ttl_min s * 60 * us_per_second)\<rparr>"
  have e: "is_subclass JWTError JWTError" by simp
  have "decode_token lib (Inr s) t (jwt_encode lib ?p (secret_key s) (jwt_algorithm s)) =
      Inr (if epoch t \<le> epoch now + access_token_ttl_min s * 60 then Some (claims_of ?p) else None)" for t
    using assms by (simp add: jose_ok_def decode_token_def epoch_plus e)
  moreover have "json_get (claims_of ?p) ''sub'' = JStr i" "json_get (claims_of ?p) ''role'' = JStr role"
    by (simp_all add: claims_of_def json_get_def)
  ultimately show ?thesis
    using assms(1) unfolding create_access_token_def live_token_def jose_ok_def by (simp add: Let_def) blast
qed

lemma require_role_live:
  assumes "jose_ok lib" "live_token lib s i role limit tok"
  shows "(limit < epoch now \<longrightarrow>
      require_role lib (Inr s) required now tok = Inl (Exn (HTTPException 401) ''invalid token'')) \<and>
    (epoch now \<le> limit \<longrightarrow>
      (if required = role \<or> role = ''admin'' then \<exists>c. require_role lib (Inr s) required now tok = Inr c
       else require_role lib (Inr s) required now tok = Inl (Exn (HTTPException 403) ''insufficient role'')))"
proof -
  obtain c where c: "json_get c ''role'' = JStr role"
      "\<And>now. decode_token lib (Inr s) now tok = Inr (if epoch now \<le> limit then Some c else None)"
    using assms(2) unfolding live_token_def by blast
  have err: "exc e = JWTError" if "jwt_decode lib now tok (secret_key s) [jwt_algorithm s] = Inl e" for e
    using assms(1) that unfolding jose_ok_def by blast
  show ?thesis
    using c(1) c(2) [of now] err
    by (cases "jwt_decode lib now tok (secret_key s) [jwt_algorithm s]")
      (auto simp: decode_token_def require_role_def split: if_splits)
qed

lemma refresh_live:
  assumes "jose_ok lib" "jwt_algorithm s \<in> hmac_algorithms" "live_token lib s i role limit tok"
    and "epoch now \<le> limit" "i \<noteq> []" "role \<noteq> []"
  shows "\<exists>r. refresh_token lib (Inr s) now (Some tok) = Inr r \<and>
    live_token lib s i role (epoch now + access_token_ttl_min s * 60) (access_token r)"
proof -
  obtain c where c: "json_get c ''sub'' = JStr i" "json_get c ''role'' = JStr role"
      "decode_token lib (Inr s) now tok = Inr (Some c)" "tok \<noteq> []"
    using assms(3,4) unfolding live_token_def by auto
  obtain tok' where "create_access_token lib (Inr s) now (JStr i) role (Some (access_token_ttl_min s)) = Inr tok'"
      "live_token lib s i role (epoch now + access_token_ttl_min s * 60) tok'"
    using created_token_live [OF assms(1,2)] by blast
  then show ?thesis
    using c assms(5,6) by (simp add: refresh_token_def str_or_none_def json_or_def Let_def)
qed

section \<open>Users and passwords\<close>

definition accepts :: "'s auth_env \<Rightarrow> (string \<rightharpoonup> user \<times> string) \<Rightarrow> string \<Rightarrow> string \<Rightarrow> bool" where
  "accepts env m name password \<longleftrightarrow>
     (\<exists>u h. m name = Some (u, h) \<and> \<not> disabled u \<and> verify_password env password h)"

text \<open>
  What seeding from the entries \<open>es\<close> may make of the users \<open>m\<close>: nobody is changed, exactly the
  named users are there, and a new one has the password and role of an entry that names it.
\<close>

definition seeded ::
  "'s auth_env \<Rightarrow> (string \<rightharpoonup> user \<times> string) \<Rightarrow> string list \<Rightarrow> (string \<rightharpoonup> user \<times> string) \<Rightarrow> bool" where
  "seeded env m es m' \<longleftrightarrow>
     m \<subseteq>\<^sub>m m' \<and> dom m' = dom m \<union> {n. \<exists>p r. Some (n, p, r) \<in> seed_parts ` set es} \<and>
     (\<forall>n. m n = None \<and> m' n \<noteq> None \<longrightarrow>
        (\<exists>p r u h. Some (n, p, r) \<in> seed_parts ` set es \<and> m' n = Some (u, h) \<and>
           accepts env m' n p \<and> role_value (user_role u) = r))"

definition seed_ok :: "(string \<Rightarrow> bool) \<Rightarrow> string \<Rightarrow> bool" where
  "seed_ok hashable e \<longleftrightarrow>
     (case seed_parts e of
        None \<Rightarrow> True
      | Some (n, p, r) \<Rightarrow> str_between 1 64 n \<and> hashable p \<and> (r = ''admin'' \<or> r = ''user''))"

lemma seeded_Nil: "seeded env m [] m"
  by (auto simp: seeded_def)

lemma accepts_mono: "accepts env m n p \<Longrightarrow> m \<subseteq>\<^sub>m m' \<Longrightarrow> accepts env m' n p"
  unfolding accepts_def map_le_def by (metis domI)

lemma seeded_Cons:
  assumes "seeded env m [e] m1" "seeded env m1 es m2"
  shows "seeded env m (e # es) m2"
proof -
  have le: "m \<subseteq>\<^sub>m m1" "m1 \<subseteq>\<^sub>m m2" using assms by (simp_all add: seeded_def)
  have new: "\<exists>p r u h. Some (n, p, r) \<in> seed_parts ` set (e # es) \<and> m2 n = Some (u, h) \<and>
      accepts env m2 n p \<and> role_value (user_role u) = r" if n: "m n = None" "m2 n \<noteq> None" for n
  proof (cases "m1 n")
    case None
    with n(2) assms(2) obtain p r u h where "Some (n, p, r) \<in> seed_parts ` set es" "m2 n = Some (u, h)"
        "accepts env m2 n p" "role_value (user_role u) = r"
      unfolding seeded_def by blast
    then show ?thesis by auto
  next
    case (Some v)
    then have eq: "m2 n = m1 n" using le(2) unfolding map_le_def by (metis domI)
    from Some n(1) assms(1) obtain p r u h where "Some (n, p, r) \<in> seed_parts ` set [e]"
        "m1 n = Some (u, h)" "accepts env m1 n p" "role_value (user_role u) = r"
      unfolding seeded_def by blast
    with eq accepts_mono [OF _ le(2)] show ?thesis by fastforce
  qed
  moreover have "{n. \<exists>p r. Some (n, p, r) \<in> seed_parts ` set (e # es)} =
      {n. \<exists>p r. Some (n, p, r) \<in> seed_parts ` set [e]} \<union> {n. \<exists>p r. Some (n, p, r) \<in> seed_parts ` set es}"
    unfolding list.set image_insert by blast
  then have "dom m2 = dom m \<union> {n. \<exists>p r. Some (n, p, r) \<in> seed_parts ` set (e # es)}"
    using assms unfolding seeded_def by (simp only: Un_assoc)
  ultimately show ?thesis using map_le_trans [OF le] unfolding seeded_def by blast
qed

text \<open>
  \<open>hashable\<close> says which passwords bcrypt takes (not, say, one with a zero byte); a new
  identifier is the identifier of no user.
\<close>

locale auth_users = user_repository urepo users
  for urepo :: "'s user_port" and users :: "'s \<Rightarrow> (string \<rightharpoonup> user \<times> string) option" +
  fixes env :: "'s auth_env" and hashable :: "string \<Rightarrow> bool"
  assumes hash: "hashable p \<Longrightarrow> \<exists>h s'. pwd_hash env p s = (Inr h, s') \<and> users s' = users s \<and>
      verify_password env p h"
    and new_id: "users s = Some m \<Longrightarrow> au_uuid4 env s = (i, s') \<Longrightarrow> users s' = Some m \<and>
      (\<forall>n v h. m n = Some (v, h) \<longrightarrow> user_id v \<noteq> i)"
begin

lemma create_user_known:
  assumes "users s = Some m" "m name = None" "str_between 1 64 name" "hashable password"
  shows "\<exists>u h s'. create_user env urepo name password (role_value r) s = (Inr u, s') \<and>
    users s' = Some (m(name \<mapsto> (naive_user u, h))) \<and> verify_password env password h \<and>
    user_role u = r \<and> \<not> disabled u \<and> username u = name"
proof -
  obtain i s1 where i: "au_uuid4 env s = (i, s1)" by fastforce
  note id = new_id [OF assms(1) i]
  let ?u = "\<lparr>user_id = i, username = name, user_role = r, user_created_at = au_now env s1, disabled = False\<rparr>"
  have ok: "user_ok ?u" using assms(3) by (simp add: user_ok_def)
  obtain h s2 where h: "pwd_hash env password s1 = (Inr h, s2)" "users s2 = Some m" "verify_password env password h"
    using hash [OF assms(4), of s1] id by auto
  obtain s3 where "up_add urepo ?u h s2 = (Inr (), s3)" "users s3 = Some (m(username ?u \<mapsto> (naive_user ?u, h)))"
    using add_user [OF h(2), of ?u h] assms(2) id ok by auto
  with h ok show ?thesis
    by (auto simp: create_user_def i Let_def bindE_def hash_password_def validated_def)
qed

lemma seed_one:
  assumes "users s = Some m" "seed_ok hashable e"
  shows "\<exists>s' m'. seed_entry env urepo e s = (Inr (), s') \<and> users s' = Some m' \<and> seeded env m [e] m'"
proof (cases "seed_parts e")
  case None
  with assms(1) show ?thesis by (auto simp: seed_entry_def seeded_def)
next
  case (Some npr)
  then obtain n p r where e: "seed_parts e = Some (n, p, r)" by (cases npr) auto
  obtain x s1 where x: "up_get_by_username urepo n s = (Inr x, s1)" "users s1 = Some m"
      "map_option (map_prod naive_user id) x = m n"
    using get_user [OF assms(1)] by blast
  show ?thesis
  proof (cases "m n")
    case (Some v)
    with x e have "seed_entry env urepo e s = (Inr (), s1)" by (auto simp: seed_entry_def bindE_def)
    with x(2) Some e show ?thesis by (auto simp: seeded_def)
  next
    case None
    have "r = role_value Admin \<or> r = role_value User" using assms(2) e by (simp add: seed_ok_def)
    then obtain ro where ro: "r = role_value ro" by blast
    obtain u h s2 where c: "create_user env urepo n p (role_value ro) s1 = (Inr u, s2)"
        "users s2 = Some (m(n \<mapsto> (naive_user u, h)))" "verify_password env p h" "user_role u = ro"
        "\<not> disabled u"
      using create_user_known [OF x(2) None, of p ro] assms(2) e by (auto simp: seed_ok_def)
    have "seed_entry env urepo e s = (Inr (), s2)"
      using x None c(1) e ro by (auto simp: seed_entry_def bindE_def)
    moreover have "seeded env m [e] (m(n \<mapsto> (naive_user u, h)))"
      using None e c(3-5) ro by (auto simp: seeded_def accepts_def map_le_def)
    ultimately show ?thesis using c(2) by blast
  qed
qed

lemma seed_all:
  assumes "users s = Some m" "\<forall>e \<in> set es. seed_ok hashable e"
  shows "\<exists>s' m'. for_each (seed_entry env urepo) es s = (Inr (), s') \<and> users s' = Some m' \<and> seeded env m es m'"
  using assms
proof (induction es arbitrary: s m)
  case Nil
  then show ?case by (auto simp: seeded_Nil)
next
  case (Cons e es)
  obtain s1 m1 where 1: "seed_entry env urepo e s = (Inr (), s1)" "users s1 = Some m1" "seeded env m [e] m1"
    using seed_one [OF Cons.prems(1), of e] Cons.prems(2) by auto
  obtain s2 m2 where 2: "for_each (seed_entry env urepo) es s1 = (Inr (), s2)" "users s2 = Some m2"
      "seeded env m1 es m2"
    using Cons.IH [OF 1(2)] Cons.prems(2) by auto
  from 1 2 seeded_Cons [OF 1(3) 2(3)] show ?case by (auto simp: bindE_def)
qed

end

section \<open>Concrete parameters\<close>

text \<open>
  Tokens for the witnesses: the fields of the payload, the key and the algorithm in the clear,
  each after its length in unary, and the expiry in unary too.
\<close>

definition field :: "string \<Rightarrow> string" where
  "field s = replicate (length s) CHR ''1'' @ CHR ''0'' # s"

definition unfield :: "string \<Rightarrow> string \<times> string" where
  "unfield t =
     (let n = length (takeWhile (\<lambda>c. c = CHR ''1'') t); rest = drop (Suc n) t
      in (take n rest, drop n rest))"

lemma unfield_field [simp]: "unfield (field s @ rest) = (s, rest)"
proof -
  have "takeWhile (\<lambda>c. c = CHR ''1'') (field s @ rest) = replicate (length s) CHR ''1''"
    by (induction s) (simp_all add: field_def takeWhile_append)
  then show ?thesis by (simp add: unfield_def Let_def field_def)
qed

definition unary :: "int \<Rightarrow> string" where
  "unary i = (if i < 0 then CHR ''-'' else CHR ''+'') # replicate (nat \<bar>i\<bar>) CHR ''1''"

definition of_unary :: "string \<Rightarrow> int" where
  "of_unary s = (if hd s = CHR ''-'' then - int (length s - 1) else int (length s - 1))"

lemma of_unary_unary [simp]: "of_unary (unary i) = i"
  by (simp add: of_unary_def unary_def)

definition demo_jwt :: jwt_lib where
  "demo_jwt =
     \<lparr>jwt_encode = (\<lambda>p k a. field (case pl_sub p of JStr i \<Rightarrow> i | _ \<Rightarrow> []) @ field (pl_role p) @
        field (unary (epoch (pl_exp p))) @ field k @ field a),
      jwt_decode = (\<lambda>now tok k as.
        case unfield tok of (i, t1) \<Rightarrow> case unfield t1 of (role, t2) \<Rightarrow> case unfield t2 of (ex, t3) \<Rightarrow>
        case unfield t3 of (k', t4) \<Rightarrow> case unfield (t4 @ []) of (a, _) \<Rightarrow>
          if k' \<noteq> k \<or> a \<notin> set as then Inl (Exn JWTError ''Signature verification failed.'')
          else if of_unary ex < epoch now then Inl (Exn JWTError ''Signature has expired.'')
          else Inr [(''sub'', JStr i), (''role'', JStr role), (''exp'', JInt (of_unary ex))]),
      jwt_str = (\<lambda>_. [])\<rparr>"

lemma demo_jwt_ok: "jose_ok demo_jwt"
proof -
  have last: "unfield (field a) = (a, [])" for a using unfield_field [of a "[]"] by simp
  have ne: "field x \<noteq> []" for x by (simp add: field_def)
  show ?thesis
    by (auto simp: jose_ok_def demo_jwt_def last ne claims_of_def split: prod.splits)
qed

text \<open>Passwords are stored as they are, and a new id is longer than every id in use.\<close>

definition demo_auth_env :: "user_row list option auth_env" where
  "demo_auth_env =
     \<lparr>pwd_hash = (\<lambda>p. ret p), pwd_verify = (\<lambda>p h. Inr (p = h)),
      au_uuid4 = (\<lambda>s. (case s of
          None \<Rightarrow> []
        | Some rs \<Rightarrow> replicate (Suc (sum_list (map (\<lambda>r. length (urow_id r)) rs))) CHR ''x'', s)),
      au_now = (\<lambda>_. sample_time)\<rparr>"

lemma demo_user_id_fresh:
  assumes "user_map mem_users_view s = Some m" "m n = Some (v, h)"
  shows "user_id v \<noteq> fst (au_uuid4 demo_auth_env s)"
proof -
  obtain S where S: "mem_users_view s = Some S" "\<forall>r \<in> S. \<not> isl (user_to_domain r)"
      "m = keyed urow_username row_user S" using assms(1) by (auto simp: user_map_Some)
  then obtain rs where rs: "s = Some rs" "set rs = S" by (auto simp: mem_view_eq_Some)
  obtain r where r: "r \<in> S" "row_user r = (v, h)"
    using keyed_SomeE [OF assms(2) [unfolded S(3)] mem_users.inj_username [OF S(1)]] by blast
  then have "user_to_domain r = Inr v"
    using S(2) by (cases "user_to_domain r") (auto simp: row_user_def)
  then have "user_id v = urow_id r" by (simp add: user_to_domain_Inr)
  moreover have "length (urow_id r) \<le> sum_list (map (\<lambda>r. length (urow_id r)) rs)"
    using r(1) rs(2) by (intro member_le_sum_list) auto
  ultimately have "length (user_id v) < length (fst (au_uuid4 demo_auth_env s))"
    by (simp add: demo_auth_env_def rs(1))
  then show ?thesis by auto
qed

interpretation mem_auth: auth_users "SQLAlchemyUserRepository mem_users" "user_map mem_users_view"
  demo_auth_env "\<lambda>_. True"
proof (intro auth_users.intro auth_users_axioms.intro)
  show "user_repository (SQLAlchemyUserRepository mem_users) (user_map mem_users_view)"
    by (rule mem_users.user_port_laws)
  fix p s m i s'
  show "\<exists>h s'. pwd_hash demo_auth_env p s = (Inr h, s') \<and> user_map mem_users_view s' = user_map mem_users_view s \<and>
      verify_password demo_auth_env p h"
    by (simp add: demo_auth_env_def verify_password_def)
  assume a: "user_map mem_users_view s = Some m" "au_uuid4 demo_auth_env s = (i, s')"
  then have "s' = s" "i = fst (au_uuid4 demo_auth_env s)" by (auto simp: demo_auth_env_def)
  with a(1) demo_user_id_fresh [OF a(1)] show "user_map mem_users_view s' = Some m \<and>
      (\<forall>n v h. m n = Some (v, h) \<longrightarrow> user_id v \<noteq> i)" by blast
qed

definition demo_user_rows :: "user_row list" where
  "demo_user_rows = [user_store (user_from_domain
     \<lparr>user_id = ''u1'', username = ''ann'', user_role = User, user_created_at = sample_time, disabled = False\<rparr>
     ''pw'')]"

lemma demo_user_map:
  "\<exists>m u. user_map mem_users_view (Some demo_user_rows) = Some m \<and> accepts demo_auth_env m ''ann'' ''pw'' \<and>
     m ''ann'' = Some (u, ''pw'') \<and> user_role u = User"
proof -
  let ?u = "\<lparr>user_id = ''u1'', username = ''ann'', user_role = User, user_created_at = sample_time, disabled = False\<rparr>"
  let ?r = "user_store (user_from_domain ?u ''pw'')"
  have v: "mem_users_view (Some demo_user_rows) = Some {?r}"
    by (simp add: mem_view_eq_Some mem_ok_def demo_user_rows_def user_table.store_store)
  have d: "user_to_domain ?r = Inr (naive_user ?u)"
    using user_to_domain_from_domain [of ?u] by (simp add: user_to_domain_store user_ok_def str_between_def)
  have "keyed urow_username row_user {?r} ''ann'' = Some (row_user ?r)"
    using keyed_at [of urow_username "{?r}" ?r] by simp
  with v d show ?thesis
    by (auto simp: user_map_Some accepts_def row_user_def demo_auth_env_def verify_password_def)
qed

section \<open>Properties\<close>

lemma authenticate_outcome:
  assumes "user_repository repo users" "users s = Some m"
  shows "\<exists>x s'. authenticate env repo name password s = (Inr x, s') \<and> users s' = Some m \<and>
    (case x of
       None \<Rightarrow> \<not> accepts env m name password
     | Some u \<Rightarrow> accepts env m name password \<and> (\<exists>h. m name = Some (naive_user u, h)))"
proof -
  obtain x s' where x: "up_get_by_username repo name s = (Inr x, s')" "users s' = Some m"
      "map_option (map_prod naive_user id) x = m name"
    using user_repository.get_user [OF assms] by blast
  show ?thesis
  proof (cases x)
    case None
    with x show ?thesis by (auto simp: authenticate_def bindE_def accepts_def)
  next
    case (Some r)
    then obtain u h where r: "x = Some (u, h)" by (cases r) auto
    with x(3) have "m name = Some (naive_user u, h)" by simp
    with x(1,2) r show ?thesis
      by (auto simp: authenticate_def bindE_def accepts_def)
  qed
qed

text \<open>
  C25: what \<open>POST /auth/token\<close> grants.  A user who exists, is not disabled and gives the right
  password gets a token with which every role check passes up to the second its lifetime ends
  for his own role (and for any role when he is an administrator), is refused with 403 for
  another role, and with 401 once the lifetime is over; anybody else gets 401.  The user table
  is not changed.
\<close>

theorem login_outcome:
  assumes "jose_ok lib" and "user_session api view" and "user_map view s = Some m"
    and "jwt_algorithm c \<in> hmac_algorithms"
  shows "\<exists>out s'. login lib (Inr c) env (SQLAlchemyUserRepository api) name password s = (out, s') \<and>
    user_map view s' = Some m \<and>
    (\<not> accepts env m name password \<longrightarrow> out = Inl (Exn (HTTPException 401) ''invalid credentials'')) \<and>
    (accepts env m name password \<longrightarrow>
       (\<exists>u h r. m name = Some (u, h) \<and> out = Inr r \<and>
          (\<forall>now required. epoch now \<le> epoch (au_now env s') + access_token_ttl_min c * 60 \<longrightarrow>
             (if required = role_value (user_role u) \<or> user_role u = Admin
              then \<exists>p. require_role lib (Inr c) required now (access_token r) = Inr p
              else require_role lib (Inr c) required now (access_token r) =
                     Inl (Exn (HTTPException 403) ''insufficient role''))) \<and>
          (\<forall>now required. epoch (au_now env s') + access_token_ttl_min c * 60 < epoch now \<longrightarrow>
             require_role lib (Inr c) required now (access_token r) =
               Inl (Exn (HTTPException 401) ''invalid token''))))"
proof -
  have repo: "user_repository (SQLAlchemyUserRepository api) (user_map view)"
    by (rule user_session.user_port_laws [OF assms(2)])
  obtain x s' where x: "authenticate env (SQLAlchemyUserRepository api) name password s = (Inr x, s')"
      "user_map view s' = Some m"
      "case x of None \<Rightarrow> \<not> accepts env m name password
       | Some u \<Rightarrow> accepts env m name password \<and> (\<exists>h. m name = Some (naive_user u, h))"
    using authenticate_outcome [OF repo assms(3)] by blast
  show ?thesis
  proof (cases x)
    case None
    with x show ?thesis by (simp add: login_def bindE_def)
  next
    case (Some u)
    let ?limit = "epoch (au_now env s') + access_token_ttl_min c * 60" and ?role = "role_value (user_role u)"
    obtain tok where tok: "create_access_token lib (Inr c) (au_now env s') (JStr (user_id u)) ?role
          (Some (access_token_ttl_min c)) = Inr tok" "live_token lib c (user_id u) ?role ?limit tok"
      using created_token_live [OF assms(1,4)] by blast
    let ?r = "\<lparr>access_token = tok, token_type = ''bearer''\<rparr>"
    have "login lib (Inr c) env (SQLAlchemyUserRepository api) name password s = (Inr ?r, s')"
      using x(1) Some tok(1) by (simp add: login_def bindE_def)
    moreover have "?role = ''admin'' \<longleftrightarrow> user_role u = Admin" by (cases "user_role u") simp_all
    moreover note require_role_live [OF assms(1) tok(2)]
    ultimately show ?thesis using x(2,3) Some by fastforce
  qed
qed

theorem login_outcome_witness:
  "\<exists>r s'. login demo_jwt (Inr default_settings) demo_auth_env (SQLAlchemyUserRepository mem_users) ''ann'' ''pw''
      (Some demo_user_rows) = (Inr r, s') \<and>
    require_role demo_jwt (Inr default_settings) ''admin'' sample_time (access_token r) =
      Inl (Exn (HTTPException 403) ''insufficient role'')"
proof -
  obtain m u where m: "user_map mem_users_view (Some demo_user_rows) = Some m" "accepts demo_auth_env m ''ann'' ''pw''"
      "m ''ann'' = Some (u, ''pw'')" "user_role u = User"
    using demo_user_map by blast
  have alg: "jwt_algorithm default_settings \<in> hmac_algorithms"
    by (simp add: default_settings_def hmac_algorithms_def)
  have t: "epoch sample_time \<le> epoch (au_now demo_auth_env s) + access_token_ttl_min default_settings * 60" for s
    by (simp add: demo_auth_env_def default_settings_def)
  show ?thesis
    using login_outcome [OF demo_jwt_ok mem_users.user_session_axioms m(1) alg, of demo_auth_env "''ann''" "''pw''"]
      m(2-4) t by fastforce
qed

text \<open>
  C34: a session that never ends.  \<open>POST /auth/refresh\<close> looks at the token alone: a client
  that refreshes before each token's lifetime is over keeps, through any number of refreshes, a
  live token for the same subject and role, whatever has happened to the account (disabled,
  demoted, deleted) since it logged in.
\<close>

fun refresh_all :: "jwt_lib \<Rightarrow> exn + settings \<Rightarrow> datetime list \<Rightarrow> string \<Rightarrow> exn + string" where
  "refresh_all lib cfg [] tok = Inr tok"
| "refresh_all lib cfg (now # ts) tok =
     (case refresh_token lib cfg now (Some tok) of
        Inl e \<Rightarrow> Inl e | Inr r \<Rightarrow> refresh_all lib cfg ts (access_token r))"

fun timely :: "int \<Rightarrow> int \<Rightarrow> datetime list \<Rightarrow> bool" where
  "timely limit ttl [] = True"
| "timely limit ttl (now # ts) \<longleftrightarrow> epoch now \<le> limit \<and> timely (epoch now + ttl) ttl ts"

theorem refresh_keeps_alive:
  assumes "jose_ok lib" and "jwt_algorithm c \<in> hmac_algorithms" and "i \<noteq> []" and "role \<noteq> []"
    and "live_token lib c i role limit tok" and "timely limit (access_token_ttl_min c * 60) ts"
  shows "\<exists>tok'. refresh_all lib (Inr c) ts tok = Inr tok' \<and>
    live_token lib c i role
      (if ts = [] then limit else epoch (last ts) + access_token_ttl_min c * 60) tok'"
  using assms(5,6)
proof (induction ts arbitrary: limit tok)
  case (Cons now ts)
  obtain r where r: "refresh_token lib (Inr c) now (Some tok) = Inr r"
      "live_token lib c i role (epoch now + access_token_ttl_min c * 60) (access_token r)"
    using refresh_live [OF assms(1,2) Cons.prems(1) _ assms(3,4)] Cons.prems(2) by auto
  from Cons.IH [OF r(2)] Cons.prems(2) r(1) show ?case by auto
qed simp

theorem refresh_keeps_alive_witness:
  "\<exists>tok tok'. refresh_all demo_jwt (Inr default_settings) [sample_time, sample_time] tok = Inr tok' \<and>
     live_token demo_jwt default_settings ''u1'' ''admin'' 3600 tok'"
proof -
  have alg: "jwt_algorithm default_settings \<in> hmac_algorithms" and ttl: "access_token_ttl_min default_settings = 60"
    by (simp_all add: default_settings_def hmac_algorithms_def)
  have z: "epoch sample_time = 0" by (simp add: epoch_def sample_time_def)
  obtain tok where "live_token demo_jwt default_settings ''u1'' ''admin'' (epoch sample_time + 60 * 60) tok"
    using created_token_live [OF demo_jwt_ok alg, of sample_time "''u1''" "''admin''"] ttl by auto
  from refresh_keeps_alive [OF demo_jwt_ok alg _ _ this, of "[sample_time, sample_time]"] ttl z
  show ?thesis by auto
qed



end
