(* ===== verification/SourcesApi.thy ===== *)
theory SourcesApi
  imports SourceRepository Auth
begin

text \<open>
  \<open>interfaces/api/routers/sources.py\<close> with the request and response models of
  \<open>interfaces/api/schemas/source.py\<close>: the endpoints that manage sources.  Each works on one
  session, which it commits itself; a request that raises before its commit leaves nothing
  behind, because the session is closed without one.  FastAPI's parts are modelled by
  \<open>guarded\<close> (the dependency on \<open>require_role(ROLE_ADMIN)\<close>) and \<open>source_out\<close> (validation of
  the reply by \<open>response_model\<close>).  slowapi's request limit is not modelled: it refuses a
  request before the endpoint is called.
\<close>

section \<open>Requests and replies\<close>

lemma bindE_pure: "bindE (pure_eff (Inr x)) f = f x"
  by (simp add: bindE_def pure_eff_def fun_eq_iff)

record source_create =
  sc_id :: "string option"
  sc_name :: string
  sc_type :: source_type
  sc_url :: "string option"
  sc_config :: "(string, json) dict"
  sc_headers :: "(string, string) dict"
  sc_cron :: string
  sc_priority :: int
  sc_parser :: string

text \<open>In \<open>SourceUpdate\<close> a field is absent (\<open>None\<close>), given as null (\<open>Some None\<close>), or given.\<close>

record source_changes =
  su_name :: "string option option"
  su_type :: "source_type option option"
  su_url :: "string option option"
  su_config :: "(string, json) dict option option"
  su_headers :: "(string, string) dict option option"
  su_cron :: "string option option"
  su_priority :: "int option option"
  su_parser :: "string option option"

record source_reply =
  so_id :: string
  so_name :: string
  so_type :: source_type
  so_url :: "string option"
  so_cron :: string
  so_priority :: int
  so_status :: source_status
  so_parser :: string
  so_created_at :: datetime
  so_updated_at :: datetime

text \<open>\<open>ae_http_url\<close> is pydantic's \<open>HttpUrl\<close>: the normalised form of a string it accepts.\<close>

record 's api_env =
  ae_sources :: "'s source_port"
  ae_commit :: "('s, unit) eff"
  ae_now :: "'s \<Rightarrow> datetime"
  ae_uuid4 :: "'s \<Rightarrow> string \<times> 's"
  ae_http_url :: "string \<Rightarrow> string option"

definition not_found :: exn where
  "not_found = Exn (HTTPException 404) ''source not found''"

text \<open>\<open>response_model=SourceOut\<close> on what the endpoint returns.\<close>

definition source_out :: "'s api_env \<Rightarrow> tv_source \<Rightarrow> exn + source_reply" where
  "source_out env x =
     (case optional_url (ae_http_url env) (src_url x) of
        Inl _ \<Rightarrow> Inl (Exn ResponseValidationError ''response validation failed'')
      | Inr u \<Rightarrow>
          Inr \<lparr>so_id = src_id x, so_name = src_name x, so_type = src_type x, so_url = u,
               so_cron = src_cron x, so_priority = src_priority x, so_status = src_status x,
               so_parser = src_parser x, so_created_at = src_created_at x,
               so_updated_at = src_updated_at x\<rparr>)"

section \<open>The endpoints\<close>

definition create_source :: "'s api_env \<Rightarrow> source_create \<Rightarrow> ('s, tv_source) eff" where
  "create_source env p s =
     (let now = ae_now env s;
          (i, s1) = (case str_or_none (sc_id p) of Some i \<Rightarrow> (i, s) | None \<Rightarrow> ae_uuid4 env s);
          src = \<lparr>src_id = i, src_name = sc_name p, src_type = sc_type p, src_url = sc_url p,
                 src_config = sc_config p, src_headers = sc_headers p, src_cron = sc_cron p,
                 src_priority = sc_priority p, src_status = ACTIVE, src_parser = sc_parser p,
                 src_created_at = now, src_updated_at = now\<rparr>
      in bindE (pure_eff (validated (source_ok src) src)) (\<lambda>src.
         bindE (sp_add (ae_sources env) src) (\<lambda>_.
         bindE (ae_commit env) (\<lambda>_. ret src))) s1)"

definition list_sources :: "'s api_env \<Rightarrow> ('s, tv_source list) eff" where
  "list_sources env = sp_list (ae_sources env) None"

definition get_source :: "'s api_env \<Rightarrow> string \<Rightarrow> ('s, tv_source) eff" where
  "get_source env k =
     bindE (sp_get (ae_sources env) k) (\<lambda>x. case x of None \<Rightarrow> raise not_found | Some y \<Rightarrow> ret y)"

definition delete_source :: "'s api_env \<Rightarrow> string \<Rightarrow> ('s, unit) eff" where
  "delete_source env k = bindE (sp_delete (ae_sources env) k) (\<lambda>_. ae_commit env)"

definition switch_source :: "source_status \<Rightarrow> 's api_env \<Rightarrow> string \<Rightarrow> ('s, unit) eff" where
  "switch_source st env k =
     bindE (get_source env k) (\<lambda>x.
     bindE (sp_update (ae_sources env) (x\<lparr>src_status := st\<rparr>)) (\<lambda>_. ae_commit env))"

definition enable_source :: "'s api_env \<Rightarrow> string \<Rightarrow> ('s, unit) eff" where
  "enable_source = switch_source ACTIVE"

definition disable_source :: "'s api_env \<Rightarrow> string \<Rightarrow> ('s, unit) eff" where
  "disable_source = switch_source DISABLED"

text \<open>
  \<open>setattr\<close> for every field given, without validation.  A null for \<open>config\<close> or \<open>headers\<close> is
  stored as JSON null, which reads back as the empty dict.  A null for a column that takes none
  raises: for \<open>type\<close> when \<open>update\<close> reads \<open>.value\<close>, for the others when the commit flushes; both
  come after the look-up and before anything is committed.
\<close>

definition given :: "'a option option \<Rightarrow> 'a \<Rightarrow> 'a" where
  "given c old = (case c of Some (Some v) \<Rightarrow> v | _ \<Rightarrow> old)"

definition given_or_empty :: "'a list option option \<Rightarrow> 'a list \<Rightarrow> 'a list" where
  "given_or_empty c old = (case c of None \<Rightarrow> old | Some None \<Rightarrow> [] | Some (Some v) \<Rightarrow> v)"

definition apply_changes :: "source_changes \<Rightarrow> tv_source \<Rightarrow> tv_source" where
  "apply_changes p x =
     x\<lparr>src_name := given (su_name p) (src_name x), src_type := given (su_type p) (src_type x),
       src_url := (case su_url p of None \<Rightarrow> src_url x | Some u \<Rightarrow> u),
       src_config := given_or_empty (su_config p) (src_config x),
       src_headers := given_or_empty (su_headers p) (src_headers x),
       src_cron := given (su_cron p) (src_cron x),
       src_priority := given (su_priority p) (src_priority x),
       src_parser := given (su_parser p) (src_parser x)\<rparr>"

definition null_error :: "source_changes \<Rightarrow> exn option" where
  "null_error p =
     (if su_type p = Some None then Some (Exn AttributeError ''NoneType object has no attribute value'')
      else if su_name p = Some None \<or> su_cron p = Some None \<or> su_priority p = Some None \<or>
              su_parser p = Some None
           then Some (Exn IntegrityError ''NOT NULL constraint failed'') else None)"

definition update_source :: "'s api_env \<Rightarrow> string \<Rightarrow> source_changes \<Rightarrow> ('s, tv_source) eff" where
  "update_source env k p =
     bindE (get_source env k) (\<lambda>x.
       case null_error p of
         Some e \<Rightarrow> raise e
       | None \<Rightarrow> (\<lambda>s.
           let y = (apply_changes p x)\<lparr>src_updated_at := ae_now env s\<rparr>
           in bindE (sp_update (ae_sources env) y) (\<lambda>_. bindE (ae_commit env) (\<lambda>_. ret y)) s))"

text \<open>The guard of the endpoints that change something, and an endpoint with its reply model.\<close>

definition guarded ::
  "jwt_lib \<Rightarrow> exn + settings \<Rightarrow> ('s \<Rightarrow> datetime) \<Rightarrow> string \<Rightarrow> ('s, 'a) eff \<Rightarrow> ('s, 'a) eff" where
  "guarded lib cfg now token ep s =
     (case require_role lib cfg ''admin'' (now s) token of Inl e \<Rightarrow> (Inl e, s) | Inr _ \<Rightarrow> ep s)"

definition post_source :: "'s api_env \<Rightarrow> source_create \<Rightarrow> ('s, source_reply) eff" where
  "post_source env p = bindE (create_source env p) (\<lambda>x. pure_eff (source_out env x))"

definition get_sources :: "'s api_env \<Rightarrow> ('s, source_reply list) eff" where
  "get_sources env = bindE (list_sources env) (\<lambda>xs. pure_eff (traverse (source_out env) xs))"

definition put_source :: "'s api_env \<Rightarrow> string \<Rightarrow> source_changes \<Rightarrow> ('s, source_reply) eff" where
  "put_source env k p = bindE (update_source env k p) (\<lambda>x. pure_eff (source_out env x))"

section \<open>A repository with commits\<close>

text \<open>
  The unit of work the endpoints rely on: what the repository's calls followed by a commit do
  to the stored sources.
\<close>

locale source_unit_of_work = source_repository repo sources valid
  for repo :: "'s source_port" and sources :: "'s \<Rightarrow> (string \<rightharpoonup> tv_source) option"
    and valid :: "tv_source \<Rightarrow> bool" +
  fixes commit :: "('s, unit) eff"
  assumes add_commit: "sources s = Some m \<Longrightarrow> m (src_id x) = None \<Longrightarrow> valid x \<Longrightarrow>
      \<exists>s'. bindE (sp_add repo x) (\<lambda>_. commit) s = (Inr (), s') \<and>
        sources s' = Some (m(src_id x \<mapsto> naive_source x))"
    and add_duplicate: "sources s = Some m \<Longrightarrow> m (src_id x) \<noteq> None \<Longrightarrow>
      \<exists>e s'. bindE (sp_add repo x) (\<lambda>_. commit) s = (Inl e, s') \<and> exc e = IntegrityError"
    and delete_commit: "sources s = Some m \<Longrightarrow>
      \<exists>s'. bindE (sp_delete repo k) (\<lambda>_. commit) s = (Inr (), s') \<and> sources s' = Some (m(k := None))"
    and commit_ok: "sources s = Some m \<Longrightarrow> \<exists>s'. commit s = (Inr (), s') \<and> sources s' = Some m"
begin

lemma get_known:
  assumes "sources s = Some m" "m k = Some x" "ae_sources env = repo"
  obtains y s' where "get_source env k s = (Inr y, s')" "sources s' = Some m" "naive_source y = x" "src_id y = k"
proof -
  obtain z s' where "sp_get repo k s = (Inr z, s')" "sources s' = Some m" "map_option naive_source z = m k"
    using get [OF assms(1)] by blast
  with assms(2,3) obtain y where y: "get_source env k s = (Inr y, s')" "sources s' = Some m" "naive_source y = x"
    by (cases z) (auto simp: get_source_def bindE_def)
  with stored [OF assms(1,2)] show thesis using that by auto
qed

lemma get_unknown:
  assumes "sources s = Some m" "m k = None" "ae_sources env = repo"
  obtains s' where "get_source env k s = (Inl not_found, s')" "sources s' = Some m"
  using get [OF assms(1), of k] assms(2,3) that by (auto simp: get_source_def bindE_def)

lemma update_commit:
  assumes "sources s = Some m" "m (src_id y) = Some old" "valid y"
  obtains t s' where "bindE (sp_update repo y) (\<lambda>_. commit) s = (Inr (), s')"
    "sources s' = Some (m(src_id y \<mapsto> touched (src_created_at old) t y))"
proof -
  obtain s1 t where 1: "sp_update repo y s = (Inr (), s1)"
      "sources s1 = Some (m(src_id y \<mapsto> touched (src_created_at old) t y))"
    using update [OF assms] by blast
  with commit_ok [OF 1(2)] that show thesis by (auto simp: bindE_def)
qed

end

text \<open>The commit of a session: a flush whose changes last.\<close>

locale source_commit = source_session api view now
  for api :: "('s, source_row) session_api" and view :: "'s \<Rightarrow> source_row set option"
    and now :: "'s \<Rightarrow> datetime" +
  fixes commit :: "('s, unit) eff"
  assumes commits: "flush api s = (Inr (), s') \<Longrightarrow> \<exists>s''. commit s = (Inr (), s'') \<and> view s'' = view s'"
    and commit_fails: "flush api s = (Inl e, s') \<Longrightarrow> \<exists>s''. commit s = (Inl e, s'')"

lemma keyed_delete: "keyed key f {r \<in> S. key r \<noteq> k} = (keyed key f S)(k := None)"
proof
  fix x
  have "{r \<in> {r \<in> S. key r \<noteq> k}. key r = x} = (if x = k then {} else {r \<in> S. key r = x})" by auto
  then show "keyed key f {r \<in> S. key r \<noteq> k} x = ((keyed key f S)(k := None)) x" by (simp add: keyed_def)
qed

sublocale source_commit \<subseteq> uow: source_unit_of_work
  "SQLAlchemySourceRepository api now" "source_map view" assignable commit
proof (intro source_unit_of_work.intro source_unit_of_work_axioms.intro)
  show "source_repository (SQLAlchemySourceRepository api now) (source_map view) assignable" by (rule port)
  fix s m x k assume m: "source_map view s = Some m"
  obtain S where S: "view s = Some S" "\<forall>r \<in> S. readable r" "m = keyed srow_id row_source S"
    by (rule source_mapE [OF m])
  let ?r = "source_from_domain x"
  have id: "srow_id ?r = src_id x" by (simp add: source_from_domain_def)
  have add_is: "bindE (sp_add (SQLAlchemySourceRepository api now) x) (\<lambda>_. commit) s = commit (add_row api ?r s)"
    by (simp add: SQLAlchemySourceRepository_def source_add_def bindE_def)
  show "\<exists>s'. bindE (sp_add (SQLAlchemySourceRepository api now) x) (\<lambda>_. commit) s = (Inr (), s') \<and>
      source_map view s' = Some (m(src_id x \<mapsto> naive_source x))" if a: "m (src_id x) = None" "assignable x"
  proof -
    have new: "\<forall>r \<in> S. srow_id r \<noteq> src_id x" using a(1) by (simp add: S(3) keyed_None)
    then have v: "view (add_row api ?r s) = Some (insert (source_store ?r) S)"
      using add [OF S(1), of ?r] id by (auto simp: source_clash_def)
    obtain s1 where "flush api (add_row api ?r s) = (Inr (), s1)" "view s1 = Some (insert (source_store ?r) S)"
      using flush_ok [OF v] by blast
    then obtain s2 where s2: "commit (add_row api ?r s) = (Inr (), s2)" "view s2 = Some (insert (source_store ?r) S)"
      using commits by metis
    have row: "readable (source_store ?r)" "row_source (source_store ?r) = naive_source x"
      using source_to_domain_from_domain [OF a(2)] a(2)
      by (auto simp: readable_def row_source_def source_to_domain_store source_from_domain_def str_or_none_def)
    then have "source_map view s2 = Some (keyed srow_id row_source (insert (source_store ?r) S))"
      using s2(2) S(2) by (auto simp: source_map_Some)
    also have "keyed srow_id row_source (insert (source_store ?r) S) = m(src_id x \<mapsto> naive_source x)"
      using keyed_insert [OF inj_id [OF S(1)], of "source_store ?r" row_source] new id row(2) by (simp add: S(3))
    finally show ?thesis using s2(1) add_is by auto
  qed
  show "\<exists>e s'. bindE (sp_add (SQLAlchemySourceRepository api now) x) (\<lambda>_. commit) s = (Inl e, s') \<and>
      exc e = IntegrityError" if a: "m (src_id x) \<noteq> None"
  proof -
    obtain r where "r \<in> S" "srow_id r = src_id x" using a by (auto simp: S(3) keyed_None)
    then obtain e s' where "flush api (add_row api ?r s) = (Inl e, s')" "exc e = IntegrityError"
      using conflict [OF S(1), of r ?r] id by (auto simp: source_clash_def)
    then show ?thesis using commit_fails add_is by metis
  qed
  show "\<exists>s'. commit s = (Inr (), s') \<and> source_map view s' = Some m"
    using flush_ok [OF S(1)] commits S(2,3) by (metis source_map_Some)
  obtain y s1 where y: "get_row api k s = (Inr y, s1)" "view s1 = Some S"
      "case y of None \<Rightarrow> \<forall>r \<in> S. srow_id r \<noteq> k | Some r \<Rightarrow> source_store r \<in> S \<and> srow_id r = k"
    using get [OF S(1)] by blast
  obtain t where t: "(case y of None \<Rightarrow> s1 | Some _ \<Rightarrow> delete_row api k s1) = t" by blast
  obtain s2 where "flush api t = (Inr (), s2)" "view s2 = Some {r \<in> S. srow_id r \<noteq> k}"
  proof (cases y)
    case None
    then have "{r \<in> S. srow_id r \<noteq> k} = S" using y(3) by auto
    with flush_ok [OF y(2)] None t that show thesis by auto
  next
    case (Some r)
    with delete [OF y(2)] t that show thesis by auto
  qed
  then obtain s3 where s3: "commit t = (Inr (), s3)" "view s3 = Some {r \<in> S. srow_id r \<noteq> k}"
    using commits by metis
  have "source_map view s3 = Some (m(k := None))"
    using s3(2) S(2) by (auto simp: source_map_Some S(3) keyed_delete)
  moreover have "bindE (sp_delete (SQLAlchemySourceRepository api now) k) (\<lambda>_. commit) s = (Inr (), s3)"
    using y(1,3) t s3(1)
    by (auto simp: SQLAlchemySourceRepository_def source_delete_def bindE_def split: option.splits)
  ultimately show "\<exists>s'. bindE (sp_delete (SQLAlchemySourceRepository api now) k) (\<lambda>_. commit) s = (Inr (), s') \<and>
      source_map view s' = Some (m(k := None))" by blast
qed

context source_commit
begin

lemma uow_laws: "source_unit_of_work (SQLAlchemySourceRepository api now) (source_map view) assignable commit"
  by (rule uow.source_unit_of_work_axioms)

end

interpretation mem_source_commit: source_commit mem_sources mem_sources_view "\<lambda>_. sample_time" "flush mem_sources"
  by unfold_locales auto

section \<open>Properties\<close>

context source_unit_of_work
begin

lemma update_source_known:
  assumes "sources s = Some m" "m k = Some x" "ae_sources env = repo" "ae_commit env = commit"
    and "null_error p = None" "\<And>y t. naive_source y = x \<Longrightarrow> valid ((apply_changes p y)\<lparr>src_updated_at := t\<rparr>)"
  shows "\<exists>y s' t'. update_source env k p s = (Inr y, s') \<and>
    sources s' = Some (m(k \<mapsto> touched (src_created_at x) t' (apply_changes p x)))"
proof -
  obtain y s1 where y: "get_source env k s = (Inr y, s1)" "sources s1 = Some m" "naive_source y = x" "src_id y = k"
    by (rule get_known [OF assms(1-3)])
  let ?z = "(apply_changes p y)\<lparr>src_updated_at := ae_now env s1\<rparr>"
  have id: "src_id ?z = k" using y(4) by (simp add: apply_changes_def)
  have "m (src_id ?z) = Some x" using id assms(2) by simp
  from update_commit [OF y(2) this assms(6) [OF y(3)]]
  obtain t' s2 where "bindE (sp_update repo ?z) (\<lambda>_. commit) s1 = (Inr (), s2)"
      "sources s2 = Some (m(src_id ?z \<mapsto> touched (src_created_at x) t' ?z))"
    by blast
  moreover have "touched (src_created_at x) t' ?z = touched (src_created_at x) t' (apply_changes p x)" for t'
    unfolding y(3) [symmetric] by (simp add: touched_def apply_changes_def naive_source_def split: option.splits)
  ultimately show ?thesis
    using y(1) assms(3-5) id
    by (auto simp: update_source_def bindE_def Let_def split: prod.splits sum.splits)
qed

end

text \<open>
  Partial update of a source.  \<open>PUT /sources/{id}\<close> answers 404 for an unknown source and
  raises for a null in a field that needs a value, in both cases leaving every stored source as
  it was; otherwise, when the result can be read back, exactly the given fields of exactly this
  source are replaced (and its time of update), and the change is committed.
\<close>

theorem update_source_outcome:
  assumes "source_commit api view commit" and "source_map view s = Some m"
    and "ae_sources env = SQLAlchemySourceRepository api now" and "ae_commit env = commit"
  shows "(m k = None \<longrightarrow> (\<exists>s'. update_source env k p s = (Inl not_found, s') \<and> source_map view s' = Some m)) \<and>
    (\<forall>x e. m k = Some x \<and> null_error p = Some e \<longrightarrow>
       (\<exists>s'. update_source env k p s = (Inl e, s') \<and> source_map view s' = Some m)) \<and>
    (\<forall>x. m k = Some x \<and> null_error p = None \<and> assignable (apply_changes p x) \<longrightarrow>
       (\<exists>y s' t. update_source env k p s = (Inr y, s') \<and>
          source_map view s' = Some (m(k \<mapsto> touched (src_created_at x) t (apply_changes p x)))))"
proof (intro conjI allI impI)
  note uow = source_commit.uow_laws [OF assms(1), of now]
  show "\<exists>s'. update_source env k p s = (Inl not_found, s') \<and> source_map view s' = Some m" if "m k = None"
    by (rule source_unit_of_work.get_unknown [OF uow assms(2) that assms(3)])
      (auto simp: update_source_def bindE_def)
  fix x e
  show "\<exists>s'. update_source env k p s = (Inl e, s') \<and> source_map view s' = Some m"
    if a: "m k = Some x \<and> null_error p = Some e"
    by (rule source_unit_of_work.get_known [OF uow assms(2) conjunct1 [OF a] assms(3)])
      (use a in \<open>auto simp: update_source_def bindE_def\<close>)
  show "\<exists>y s' t. update_source env k p s = (Inr y, s') \<and>
      source_map view s' = Some (m(k \<mapsto> touched (src_created_at x) t (apply_changes p x)))"
    if a: "m k = Some x \<and> null_error p = None \<and> assignable (apply_changes p x)"
  proof (rule source_unit_of_work.update_source_known [OF uow assms(2) _ assms(3,4)])
    show "assignable ((apply_changes p y)\<lparr>src_updated_at := t\<rparr>)" if "naive_source y = x" for y t
      using a that by (auto simp: assignable_def source_ok_def apply_changes_def naive_source_def
          split: option.splits)
  qed (use a in auto)
qed

definition demo_api_env :: "source_row list option api_env" where
  "demo_api_env =
     \<lparr>ae_sources = mem_source_port, ae_commit = flush mem_sources, ae_now = (\<lambda>_. sample_time),
      ae_uuid4 = (\<lambda>s. (''new'', s)),
      ae_http_url = (\<lambda>u. if startswith u ''http'' then Some u else None)\<rparr>"

definition no_changes :: source_changes where
  "no_changes = \<lparr>su_name = None, su_type = None, su_url = None, su_config = None, su_headers = None,
     su_cron = None, su_priority = None, su_parser = None\<rparr>"

lemma demo_api_env_simps [simp]:
  "ae_sources demo_api_env = mem_source_port" "ae_commit demo_api_env = flush mem_sources"
  by (simp_all add: demo_api_env_def)

theorem update_source_outcome_witness:
  "\<exists>y s' m'. update_source demo_api_env ''a'' (no_changes\<lparr>su_priority := Some (Some 9)\<rparr>)
       (Some [source_row_of (sample_source ''a'')]) = (Inr y, s') \<and>
     source_map mem_sources_view s' = Some m' \<and> map_option src_priority (m' ''a'') = Some 9"
proof -
  obtain m where m: "source_map mem_sources_view (Some [source_row_of (sample_source ''a'')]) = Some m"
      "m ''a'' = Some (naive_source (sample_source ''a''))"
    using mem_source_map [of "[sample_source ''a'']"] by auto
  let ?p = "no_changes\<lparr>su_priority := Some (Some 9)\<rparr>"
  let ?x = "naive_source (sample_source ''a'')"
  have p: "src_priority (apply_changes ?p ?x) = 9" "null_error ?p = None"
    by (simp_all add: no_changes_def apply_changes_def given_def null_error_def)
  have "assignable (apply_changes ?p ?x)"
    by (simp add: no_changes_def apply_changes_def given_def given_or_empty_def assignable_def source_ok_def
        str_between_def naive_source_def)
  with update_source_outcome [OF mem_source_commit.source_commit_axioms m(1) demo_api_env_simps, of "''a''" ?p] m(2) p
  show ?thesis by fastforce
qed

text \<open>
  C26: one bad URL takes the source list down.  \<open>SourceCreate\<close> takes any string as URL and the
  endpoint commits it before the reply model, which wants a valid HTTP URL, is applied: the
  request fails, but the source is stored; from then on \<open>GET /sources\<close> fails for everybody,
  and repeating the request with the same client-chosen id fails with \<open>IntegrityError\<close>.
\<close>

theorem bad_url_breaks_listing:
  assumes "source_commit api view commit" and "source_map view s = Some m"
    and "ae_sources env = SQLAlchemySourceRepository api now" and "ae_commit env = commit"
    and "sc_id p = Some i" and "i \<noteq> []" and "m i = None"
    and "str_between 1 255 (sc_name p)" and "0 \<le> sc_priority p" and "sc_priority p \<le> 10"
    and "sc_url p = Some u" and "u \<noteq> []" and "ae_http_url env u = None"
  shows "\<exists>e y s'. post_source env p s = (Inl e, s') \<and> exc e = ResponseValidationError \<and>
    source_map view s' = Some (m(i \<mapsto> y)) \<and> src_url y = Some u \<and>
    (\<exists>e1 s1. get_sources env s' = (Inl e1, s1) \<and> exc e1 = ResponseValidationError) \<and>
    (\<exists>e2 s2. post_source env p s' = (Inl e2, s2) \<and> exc e2 = IntegrityError)"
proof -
  note uow = source_commit.uow_laws [OF assms(1), of now]
  define x where "x t = \<lparr>src_id = i, src_name = sc_name p, src_type = sc_type p, src_url = sc_url p,
      src_config = sc_config p, src_headers = sc_headers p, src_cron = sc_cron p, src_priority = sc_priority p,
      src_status = ACTIVE, src_parser = sc_parser p, src_created_at = ae_now env t, src_updated_at = ae_now env t\<rparr>" for t
  have x: "src_id (x t) = i" "src_url (x t) = Some u" "source_ok (x t)" "assignable (x t)" for t
    using assms(8-12) by (simp_all add: x_def source_ok_def assignable_def)
  have create: "create_source env p t = bindE (bindE (sp_add (SQLAlchemySourceRepository api now) (x t)) (\<lambda>_. commit))
      (\<lambda>_. ret (x t)) t" for t
    using assms(3-6) x(3) [of t]
    by (simp add: create_source_def str_or_none_def x_def Let_def bindE_assoc validated_def bindE_pure)
  have bad: "source_out env z = Inl (Exn ResponseValidationError ''response validation failed'')"
    if "src_url z = Some u" for z
    using that assms(13) by (simp add: source_out_def optional_url_def)
  have "m (src_id (x s)) = None" using assms(7) x(1) by simp
  from source_unit_of_work.add_commit [OF uow assms(2) this x(4)] obtain s' where
      s': "bindE (sp_add (SQLAlchemySourceRepository api now) (x s)) (\<lambda>_. commit) s = (Inr (), s')"
      "source_map view s' = Some (m(i \<mapsto> naive_source (x s)))" unfolding x(1) by blast
  then have post: "post_source env p s = (Inl (Exn ResponseValidationError ''response validation failed''), s')"
    using create [of s] bad [OF x(2)] by (simp add: post_source_def bindE_def)
  let ?m = "m(i \<mapsto> naive_source (x s))"
  obtain xs s1 where xs: "sp_list (SQLAlchemySourceRepository api now) None s' = (Inr xs, s1)"
      "naive_source ` set xs = {y \<in> ran ?m. None = None \<or> None = Some [] \<or>
         None = Some (source_status_value (src_status y))}"
    using source_repository.list [OF source_unit_of_work.axioms(1) [OF uow] s'(2), of None] by blast
  have "naive_source (x s) \<in> naive_source ` set xs" unfolding xs(2) by (auto simp: ran_def)
  then obtain z where z: "z \<in> set xs" "naive_source z = naive_source (x s)" by (metis imageE)
  have "src_url z = Some u" using arg_cong [OF z(2), of src_url] x(2) by simp
  from traverse_Inl [where f = "source_out env", OF z(1) bad [OF this]] obtain e1 where e1: "traverse (source_out env) xs = Inl e1"
      "\<exists>z'. source_out env z' = Inl e1" by blast
  have "exc e = ResponseValidationError" if "source_out env y = Inl e" for y e
    using that by (cases "optional_url (ae_http_url env) (src_url y)") (auto simp: source_out_def)
  then have "exc e1 = ResponseValidationError" using e1(2) by blast
  with e1(1) xs(1) assms(3) have "\<exists>e1 s1. get_sources env s' = (Inl e1, s1) \<and> exc e1 = ResponseValidationError"
    by (simp add: get_sources_def list_sources_def bindE_def)
  moreover have "?m (src_id (x s')) \<noteq> None" using x(1) by simp
  from source_unit_of_work.add_duplicate [OF uow s'(2) this]
  have "\<exists>e2 s2. post_source env p s' = (Inl e2, s2) \<and> exc e2 = IntegrityError"
    using create [of s'] by (auto simp: post_source_def bindE_def)
  moreover have "src_url (naive_source (x s)) = Some u" using x(2) by simp
  moreover have "exc (Exn ResponseValidationError ''response validation failed'') = ResponseValidationError" by simp
  ultimately show ?thesis using post s'(2) by blast
qed

definition demo_bad_source :: source_create where
  "demo_bad_source =
     \<lparr>sc_id = Some ''b'', sc_name = ''x'', sc_type = RSS, sc_url = Some ''not a url'', sc_config = [],
      sc_headers = [], sc_cron = ''*'', sc_priority = 5, sc_parser = ''auto''\<rparr>"

theorem bad_url_breaks_listing_witness:
  "\<exists>e s'. post_source demo_api_env demo_bad_source (Some []) = (Inl e, s') \<and>
     (\<exists>e1 s1. get_sources demo_api_env s' = (Inl e1, s1))"
proof -
  obtain m where m: "source_map mem_sources_view (Some []) = Some m"
    using mem_source_map [of "[]"] by auto
  then have "m ''b'' = None" by (auto simp: source_map_Some mem_view_eq_Some)
  moreover have "ae_http_url demo_api_env ''not a url'' = None" by code_simp
  ultimately show ?thesis
    using bad_url_breaks_listing [OF mem_source_commit.source_commit_axioms m demo_api_env_simps,
        of demo_bad_source "''b''" "''not a url''"]
    by (auto simp: demo_bad_source_def str_between_def)
qed

text \<open>
  Changing sources needs an administrator.  With a token of another role, or one that has
  expired, all five endpoints that change sources answer 401 or 403 and leave the state exactly
  as it was.
\<close>

theorem mutations_need_admin:
  assumes "jose_ok lib" and "live_token lib c i role limit tok"
    and "role \<noteq> ''admin'' \<or> limit < epoch (now s)"
  shows "\<exists>e. exc e \<in> {HTTPException 401, HTTPException 403} \<and>
    guarded lib (Inr c) now tok (post_source env new) s = (Inl e, s) \<and>
    guarded lib (Inr c) now tok (put_source env k changes) s = (Inl e, s) \<and>
    guarded lib (Inr c) now tok (delete_source env k) s = (Inl e, s) \<and>
    guarded lib (Inr c) now tok (enable_source env k) s = (Inl e, s) \<and>
    guarded lib (Inr c) now tok (disable_source env k) s = (Inl e, s)"
proof -
  have "\<exists>e. exc e \<in> {HTTPException 401, HTTPException 403} \<and>
      require_role lib (Inr c) ''admin'' (now s) tok = Inl e"
    using require_role_live [OF assms(1,2), of "now s" "''admin''"] assms(3)
    by (cases "limit < epoch (now s)") auto
  then show ?thesis by (auto simp: guarded_def)
qed

theorem mutations_need_admin_witness:
  "\<exists>tok e. guarded demo_jwt (Inr default_settings) (\<lambda>_. sample_time) tok (delete_source demo_api_env ''a'')
      (Some []) = (Inl e, Some [])"
proof -
  have "jwt_algorithm default_settings \<in> hmac_algorithms" by (simp add: default_settings_def hmac_algorithms_def)
  from created_token_live [OF demo_jwt_ok this, of sample_time "''u1''" "''user''"] obtain tok limit where
    "live_token demo_jwt default_settings ''u1'' ''user'' limit tok" by blast
  from mutations_need_admin [OF demo_jwt_ok this, of "\<lambda>_. sample_time" "Some []" demo_api_env demo_bad_source "''a''" no_changes]
  show ?thesis by auto
qed

end
