(* ===== verification/Lifespan.thy ===== *)
theory Lifespan
  imports Aggregation HealthCheck Sources SourcesApi LLM
begin

text \<open>
  What \<open>interfaces/api/app.py\<close> wires together in its lifespan, and the endpoints of
  \<open>interfaces/api/routers/admin.py\<close> that run it: the plugin registry, the aggregator factory,
  the scheduled health check.  Each opens a session of its own; \<open>session_life\<close> holds what
  \<open>async with session_factory() as session\<close> does at its ends.  What a session has not
  committed is lost when it is closed; \<open>disk\<close> in the locales is what has been committed.
\<close>

section \<open>Sessions\<close>

record 's session_life =
  sl_open :: "'s \<Rightarrow> 's"
  sl_commit :: "('s, unit) eff"
  sl_rollback :: "'s \<Rightarrow> 's"
  sl_close :: "'s \<Rightarrow> 's"

definition with_session :: "'s session_life \<Rightarrow> ('s, 'a) eff \<Rightarrow> ('s, 'a) eff" where
  "with_session life body s = (case body (sl_open life s) of (x, s') \<Rightarrow> (x, sl_close life s'))"

lemma with_session_frame:
  assumes "\<And>s. v (sl_open life s) = v s" "\<And>s. v (sl_close life s) = v s" "\<And>s. v (snd (body s)) = v s"
  shows "v (snd (with_session life body s)) = v s"
  using assms(1) [of s] assms(3) [of "sl_open life s"] assms(2)
  by (cases "body (sl_open life s)") (simp add: with_session_def)

section \<open>The plugin registry\<close>

text \<open>
  The adapters \<open>build_registry\<close> puts in; a factory is kept as the adapter it makes, with the
  parsers an HTML source tries in turn.
\<close>

datatype parser_plugin = JSONParser | HTMLParser | LLMParser

datatype source_plugin =
  HTTPSource parser_plugin | RSSSource parser_plugin | HTMLScrapeSource "parser_plugin list" | M3USource

definition build_registry :: "(source_plugin, parser_plugin) plugin_registry" where
  "build_registry =
     (let parser = JSONParser;
          reg = register_source ''http_json'' (HTTPSource parser) PluginRegistry;
          reg = register_source ''rss'' (RSSSource parser) reg;
          reg = register_source ''html_scrape'' (HTMLScrapeSource [HTMLParser, LLMParser]) reg;
          reg = register_source ''m3u'' M3USource reg;
          reg = register_parser ''json'' parser reg;
          reg = register_parser ''html'' HTMLParser reg
      in register_parser ''llm'' LLMParser reg)"

lemma build_registry_source:
  "build_source id (source_type_value ty) build_registry =
     (case ty of
        HTTP_JSON \<Rightarrow> Inr (HTTPSource JSONParser) | RSS \<Rightarrow> Inr (RSSSource JSONParser)
      | HTML_SCRAPE \<Rightarrow> Inr (HTMLScrapeSource [HTMLParser, LLMParser]) | M3U \<Rightarrow> Inr M3USource
      | CUSTOM \<Rightarrow> Inl (Exn KeyError ''unknown source type: custom''))"
  by (cases ty; hypsubst; code_simp)

lemma build_registry_parser: "get_parser ''json'' build_registry = Inr JSONParser"
  by code_simp

section \<open>The aggregator factory and the crawl endpoints\<close>

text \<open>
  \<open>_AggFactory.run_once\<close>; \<open>service\<close> builds the \<open>AggregationService\<close> on the session from the
  parser the registry gives for \<open>json\<close>.
\<close>

definition agg_factory_run_once ::
  "'s session_life \<Rightarrow> (source_plugin, parser_plugin) plugin_registry \<Rightarrow> (parser_plugin \<Rightarrow> 's aggregator) \<Rightarrow>
   tv_source \<Rightarrow> ('s, crawl_job) eff" where
  "agg_factory_run_once life reg service src =
     with_session life (bindE (pure_eff (get_parser ''json'' reg)) (\<lambda>p. run_once (service p) src))"

text \<open>\<open>app.state.agg\<close> and \<open>app.state.registry\<close> may be missing.\<close>

definition list_plugins :: "('f, 'p) plugin_registry option \<Rightarrow> exn + json" where
  "list_plugins registry =
     (case registry of
        None \<Rightarrow> Inl (Exn (HTTPException 503) ''registry not initialized'')
      | Some reg \<Rightarrow>
          Inr (JObj [(''source_types'', JList (map JStr (list_source_types reg))),
                     (''parsers'', JList (map JStr (list_parsers reg)))]))"

definition trigger_crawl ::
  "(tv_source \<Rightarrow> ('s, crawl_job) eff) option \<Rightarrow> 's source_port \<Rightarrow> ('s, unit) eff \<Rightarrow> string \<Rightarrow> ('s, json) eff" where
  "trigger_crawl agg repo commit k =
     (case agg of
        None \<Rightarrow> raise (Exn (HTTPException 503) ''aggregator not initialized'')
      | Some run \<Rightarrow>
          bindE (sp_get repo k) (\<lambda>x.
            case x of
              None \<Rightarrow> raise not_found
            | Some src \<Rightarrow>
                bindE (run src) (\<lambda>job.
                bindE (commit) (\<lambda>_.
                  ret (JObj [(''ok'', JBool True), (''job_id'', JStr (job_id job)),
                             (''status'', JStr (job_status_value (job_status job)))])))))"

text \<open>The body of the loop: the entry of one source, whatever its crawl raises.\<close>

definition crawl_entry :: "(tv_source \<Rightarrow> ('s, crawl_job) eff) \<Rightarrow> tv_source \<Rightarrow> ('s, json) eff" where
  "crawl_entry run src =
     try_except
       (bindE (run src) (\<lambda>job.
          ret (JObj [(''source_id'', JStr (src_id src)), (''ok'', JBool True), (''job_id'', JStr (job_id job)),
                     (''status'', JStr (job_status_value (job_status job)))])))
       (\<lambda>_. True)
       (\<lambda>e. ret (JObj [(''source_id'', JStr (src_id src)), (''ok'', JBool False), (''error'', JStr (exn_str e))]))"

text \<open>What the entry says, and that making it never raises.\<close>

definition crawl_report :: "tv_source \<Rightarrow> exn + crawl_job \<Rightarrow> json" where
  "crawl_report x r =
     (case r of
        Inl e \<Rightarrow> JObj [(''source_id'', JStr (src_id x)), (''ok'', JBool False), (''error'', JStr (exn_str e))]
      | Inr job \<Rightarrow> JObj [(''source_id'', JStr (src_id x)), (''ok'', JBool True), (''job_id'', JStr (job_id job)),
                      (''status'', JStr (job_status_value (job_status job)))])"

lemma crawl_entry_total: "\<exists>r s'. crawl_entry run x s = (Inr r, s') \<and> (\<exists>t. r = crawl_report x (fst (run x t)))"
  by (cases rule: eff_cases [of "run x s"])
    (auto simp: crawl_entry_def try_except_def bindE_def crawl_report_def intro!: exI [of _ s])

definition trigger_crawl_all ::
  "(tv_source \<Rightarrow> ('s, crawl_job) eff) option \<Rightarrow> 's source_port \<Rightarrow> ('s, unit) eff \<Rightarrow> ('s, json) eff" where
  "trigger_crawl_all agg repo commit =
     (case agg of
        None \<Rightarrow> raise (Exn (HTTPException 503) ''aggregator not initialized'')
      | Some run \<Rightarrow>
          bindE (sp_list repo (Some ''active'')) (\<lambda>sources.
          bindE (collect (crawl_entry run) sources) (\<lambda>results.
          bindE commit (\<lambda>_.
            ret (JObj [(''total'', JInt (int (length sources))), (''results'', JList results)])))))"

section \<open>The scheduled health check\<close>

text \<open>\<open>_health_tick\<close>; its session carries both repositories.\<close>

definition health_tick ::
  "'s session_life \<Rightarrow> 's health_env \<Rightarrow> nat \<Rightarrow> 's source_port \<Rightarrow> 's health_port \<Rightarrow> ('s, unit) eff" where
  "health_tick life env threshold source_repo health_repo =
     with_session life
       (try_except
          (bindE (health_check_loop env threshold source_repo source_repo health_repo) (\<lambda>_. sl_commit life))
          (\<lambda>_. True) (\<lambda>e s. (Inr (), sl_rollback life s)))"

section \<open>Crawls that are not committed\<close>

text \<open>
  The database under the crawl endpoints: \<open>disk\<close> is what is committed, the program and the job
  table.  A session that opens sees it.  \<open>pending\<close> says that the request's own session has
  changes to commit; the factory's session is another one.
\<close>

locale crawl_service = crawl_tables papi pview japi jview env now agg
  for papi :: "('s, program_row) session_api" and pview :: "'s \<Rightarrow> program_row set option"
    and japi :: "('s, job_row) session_api" and jview :: "'s \<Rightarrow> job_row set option"
    and env :: repo_env and now :: "'s \<Rightarrow> datetime" and agg :: "'s aggregator" +
  fixes life :: "'s session_life" and disk :: "'s \<Rightarrow> program_row set \<times> job_row set"
    and pending :: "'s \<Rightarrow> bool" and srepo :: "'s source_port" and commit :: "('s, unit) eff"
  assumes outside: "session_frame papi disk" "session_frame japi disk" "world_keeps agg disk"
      "session_frame papi pending" "session_frame japi pending" "world_keeps agg pending"
    and open_sees: "pview (sl_open life s) = Some (fst (disk s))" "jview (sl_open life s) = Some (snd (disk s))"
    and open_keeps: "disk (sl_open life s) = disk s" "pending (sl_open life s) = pending s"
    and close_keeps: "disk (sl_close life s) = disk s" "pending (sl_close life s) = pending s"
    and reads: "disk (snd (sp_get srepo k s)) = disk s" "pending (snd (sp_get srepo k s)) = pending s"
      "disk (snd (sp_list srepo st s)) = disk s" "pending (snd (sp_list srepo st s)) = pending s"
    and commit_clean: "\<not> pending s \<Longrightarrow> \<exists>s'. commit s = (Inr (), s') \<and> disk s' = disk s"
begin

lemma agg_keeps_disk: "agg_keeps agg disk" "agg_keeps agg pending"
  using outside
  by (simp_all add: agg_keeps_def upsert_is jobs_is SQLAlchemyJobRepository_def upsert_frame job_frames)

lemma factory_keeps:
  "disk (snd (agg_factory_run_once life reg (\<lambda>_. agg) src s)) = disk s"
  "pending (snd (agg_factory_run_once life reg (\<lambda>_. agg) src s)) = pending s"
  unfolding agg_factory_run_once_def
  by (intro with_session_frame snd_bindE; simp add: open_keeps close_keeps run_once_frame [OF agg_keeps_disk(1)]
      run_once_frame [OF agg_keeps_disk(2)])+

lemma crawl_keeps:
  assumes "\<not> pending s"
  shows "disk (snd (trigger_crawl (Some (agg_factory_run_once life reg (\<lambda>_. agg))) srepo commit k s)) = disk s"
proof (cases rule: eff_cases [of "sp_get srepo k s"])
  case (raised e s1)
  with reads(1) [of k s] show ?thesis by (simp add: trigger_crawl_def bindE_def)
next
  case (returned x s1)
  with reads(1,2) [of k s] have s1: "disk s1 = disk s" "\<not> pending s1" using assms by simp_all
  show ?thesis
  proof (cases x)
    case (Some src)
    let ?run = "agg_factory_run_once life reg (\<lambda>_. agg) src s1"
    show ?thesis
    proof (cases rule: eff_cases [of ?run])
      case (raised e s2)
      with returned Some s1(1) factory_keeps(1) [of reg src s1] show ?thesis
        by (simp add: trigger_crawl_def bindE_def)
    next
      case run: (returned job s2)
      then have "disk s2 = disk s" "\<not> pending s2" using factory_keeps [of reg src s1] s1 by simp_all
      with commit_clean [of s2] obtain s3 where "commit s2 = (Inr (), s3)" "disk s3 = disk s" by auto
      with returned Some run show ?thesis by (simp add: trigger_crawl_def bindE_def)
    qed
  qed (use returned s1 in \<open>simp add: trigger_crawl_def bindE_def\<close>)
qed

lemma crawl_all_keeps:
  assumes "\<not> pending s"
  shows "disk (snd (trigger_crawl_all (Some (agg_factory_run_once life reg (\<lambda>_. agg))) srepo commit s)) = disk s"
proof -
  let ?entry = "crawl_entry (agg_factory_run_once life reg (\<lambda>_. agg))"
  have entry: "disk (snd (?entry src s)) = disk s" "pending (snd (?entry src s)) = pending s" for src s
    unfolding crawl_entry_def by (intro snd_try_except snd_bindE; simp add: factory_keeps)+
  show ?thesis
  proof (cases rule: eff_cases [of "sp_list srepo (Some ''active'') s"])
    case (raised e s1)
    with reads(3) [of "Some ''active''" s] show ?thesis by (simp add: trigger_crawl_all_def bindE_def)
  next
    case (returned xs s1)
    with reads(3,4) [of "Some ''active''" s] have s1: "disk s1 = disk s" "\<not> pending s1" using assms by simp_all
    show ?thesis
    proof (cases rule: eff_cases [of "collect ?entry xs s1"])
      case (raised e s2)
      with returned s1(1) snd_collect [where v = disk and f = ?entry, OF entry(1), of xs s1] show ?thesis
        by (simp add: trigger_crawl_all_def bindE_def)
    next
      case run: (returned ys s2)
      then have "disk s2 = disk s" "\<not> pending s2"
        using snd_collect [where v = disk and f = ?entry, OF entry(1), of xs s1]
          snd_collect [where v = pending and f = ?entry, OF entry(2), of xs s1] s1 by simp_all
      with commit_clean [of s2] obtain s3 where "commit s2 = (Inr (), s3)" "disk s3 = disk s" by auto
      with returned run show ?thesis by (simp add: trigger_crawl_all_def bindE_def)
    qed
  qed
qed

lemma crawl_reports_success:
  assumes "\<not> pending s" "fst (sp_get srepo k s) = Inr (Some src)" "has_url src"
    and "get_parser ''json'' reg = Inr p"
    and "catalogue env (\<lambda>s. Some (fst (disk s))) s = Some m" "job_map (\<lambda>s. Some (snd (disk s))) s = Some jm"
    and "\<And>u h t s. \<exists>x. fst (ag_fetch agg u h t s) = Inr x"
    and "\<And>b i s. fst (ag_parse agg b i s) = Inr parsed"
    and "\<And>p. p \<in> set (merge (map apply_norm parsed)) \<Longrightarrow> m (identity_key p) \<noteq> None \<and> program_ok p"
  shows "\<exists>jid s'. trigger_crawl (Some (agg_factory_run_once life reg (\<lambda>_. agg))) srepo commit k s =
      (Inr (JObj [(''ok'', JBool True), (''job_id'', JStr jid), (''status'', JStr ''success'')]), s') \<and>
    jm jid = None"
proof -
  obtain s1 where s1: "sp_get srepo k s = (Inr (Some src), s1)" using assms(2) by (metis prod.exhaust_sel)
  then have d1: "disk s1 = disk s" "\<not> pending s1" using reads(1,2) [of k s] assms(1) by simp_all
  have maps: "catalogue env pview (sl_open life s1) = Some m" "job_map jview (sl_open life s1) = Some jm"
    using assms(5,6) by (simp_all add: catalogue_def job_map_def open_sees d1)
  from recrawl [OF maps assms(3,7,8,9)] obtain j s2 where j: "run_once agg src (sl_open life s1) = (Inr j, s2)"
      "job_status j = SUCCESS" "jm (job_id j) = None" by blast
  then have run: "agg_factory_run_once life reg (\<lambda>_. agg) src s1 = (Inr j, sl_close life s2)"
    by (simp add: agg_factory_run_once_def with_session_def bindE_pure assms(4))
  have "\<not> pending (sl_close life s2)" using factory_keeps(2) [of reg src s1] run d1(2) by simp
  with commit_clean obtain s3 where "commit (sl_close life s2) = (Inr (), s3)" by blast
  with s1 run j(2,3) show ?thesis by (simp add: trigger_crawl_def bindE_def)
qed

end

section \<open>Health checks that are committed\<close>

locale health_service = health_tables sapi sview hapi hview now env up
  for sapi :: "('s, source_row) session_api" and sview :: "'s \<Rightarrow> source_row set option"
    and hapi :: "('s, health_row) session_api" and hview :: "'s \<Rightarrow> health_row set option"
    and now :: "'s \<Rightarrow> datetime" and env :: "'s health_env"
    and up :: "string \<Rightarrow> (string, string) dict option \<Rightarrow> bool" +
  fixes life :: "'s session_life" and disk :: "'s \<Rightarrow> source_row set \<times> health_row set"
  assumes outside: "session_frame sapi disk" "session_frame hapi disk"
      "disk (snd (he_fetch env u h t s)) = disk s"
    and open_sees: "sview (sl_open life s) = Some (fst (disk s))" "hview (sl_open life s) = Some (snd (disk s))"
    and ends_keep: "disk (sl_open life s) = disk s" "disk (sl_close life s) = disk s" "disk (sl_rollback life s) = disk s"
    and commit_ok: "sview s = Some S \<Longrightarrow> hview s = Some H \<Longrightarrow>
      \<exists>s'. sl_commit life s = (Inr (), s') \<and> disk s' = (S, H)"
    and commit_fails: "sl_commit life s = (Inl e, s') \<Longrightarrow> disk s' = disk s"
begin

lemma check_keeps: "disk (snd (check env x s)) = disk s"
proof (cases rule: eff_cases [of "he_fetch env (the (src_url x)) (headers_or_none x) 10 s"])
  case (raised e s')
  with outside(3) [of "the (src_url x)" "headers_or_none x" 10 s] show ?thesis by (simp add: check_def Let_def)
next
  case (returned r s')
  with outside(3) [of "the (src_url x)" "headers_or_none x" 10 s] show ?thesis by (simp add: check_def Let_def)
qed

lemma loop_keeps:
  "disk (snd (health_check_loop env threshold (SQLAlchemySourceRepository sapi now)
     (SQLAlchemySourceRepository sapi now) (SQLAlchemySourceHealthRepository hapi now) s)) = disk s"
  unfolding health_check_loop_def probe_def registry_active_def
  by (intro snd_bindE snd_for_each)
    (auto simp: SQLAlchemySourceRepository_def source_frames [OF outside(1)] health_frames [OF outside(2)]
      check_keeps intro!: snd_bindE)

lemma tick_commits:
  assumes "source_map (\<lambda>s. Some (fst (disk s))) s = Some m" and "streak_map (\<lambda>s. Some (snd (disk s))) s = Some f"
  shows "\<exists>s' m' f'.
    health_tick life env threshold (SQLAlchemySourceRepository sapi now) (SQLAlchemySourceHealthRepository hapi now) s =
      (Inr (), s') \<and>
    source_map (\<lambda>s. Some (fst (disk s))) s' = Some m' \<and> streak_map (\<lambda>s. Some (snd (disk s))) s' = Some f' \<and>
    (\<forall>k. (case m k of
        None \<Rightarrow> m' k = None \<and> f' k = f k
      | Some x \<Rightarrow>
          if src_status x \<noteq> ACTIVE then m' k = Some x \<and> f' k = f k
          else f' k = next_streak (alive up x) (f k) \<and>
            (if pause_due threshold (alive up x) (f k)
             then \<exists>y. m' k = Some y \<and> paused x y else m' k = Some x)))"
proof -
  have maps: "source_map sview (sl_open life s) = Some m" "streak_map hview (sl_open life s) = Some f"
    using assms by (simp_all add: source_map_def streak_map_def open_sees)
  obtain s1 m' f' where s1: "health_check_loop env threshold (SQLAlchemySourceRepository sapi now)
      (SQLAlchemySourceRepository sapi now) (SQLAlchemySourceHealthRepository hapi now) (sl_open life s) = (Inr (), s1)"
    "source_map sview s1 = Some m'" "streak_map hview s1 = Some f'"
    "\<forall>k. (case m k of
        None \<Rightarrow> m' k = None \<and> f' k = f k
      | Some x \<Rightarrow>
          if src_status x \<noteq> ACTIVE then m' k = Some x \<and> f' k = f k
          else f' k = next_streak (alive up x) (f k) \<and>
            (if pause_due threshold (alive up x) (f k)
             then \<exists>y. m' k = Some y \<and> paused x y else m' k = Some x))"
    using run [OF maps, of threshold] by (elim exE conjE) (rule that)
  obtain S H where views: "sview s1 = Some S" "hview s1 = Some H"
    using s1(2,3) by (auto simp: source_map_def streak_map_def split: option.splits)
  obtain s2 where s2: "sl_commit life s1 = (Inr (), s2)" "disk s2 = (S, H)"
    using commit_ok [OF views] by blast
  have "health_tick life env threshold (SQLAlchemySourceRepository sapi now) (SQLAlchemySourceHealthRepository hapi now) s =
      (Inr (), sl_close life s2)"
    by (simp add: health_tick_def with_session_def try_except_def bindE_def s1(1) s2(1))
  moreover have "source_map (\<lambda>s. Some (fst (disk s))) (sl_close life s2) = Some m'"
    "streak_map (\<lambda>s. Some (snd (disk s))) (sl_close life s2) = Some f'"
    using s1(2,3) by (simp_all add: source_map_def streak_map_def views s2(2) ends_keep)
  ultimately show ?thesis using s1(4) by blast
qed

lemma tick_rolls_back:
  assumes "fst (health_check_loop env threshold (SQLAlchemySourceRepository sapi now)
    (SQLAlchemySourceRepository sapi now) (SQLAlchemySourceHealthRepository hapi now) (sl_open life s)) = Inl e"
  shows "disk (snd (health_tick life env threshold (SQLAlchemySourceRepository sapi now)
    (SQLAlchemySourceHealthRepository hapi now) s)) = disk s"
proof -
  obtain s1 where s1: "health_check_loop env threshold (SQLAlchemySourceRepository sapi now)
      (SQLAlchemySourceRepository sapi now) (SQLAlchemySourceHealthRepository hapi now) (sl_open life s) = (Inl e, s1)"
    using assms by (metis prod.exhaust_sel)
  then have "disk s1 = disk s" using loop_keeps [of threshold "sl_open life s"] by (simp add: ends_keep)
  then show ?thesis by (simp add: health_tick_def with_session_def try_except_def bindE_def s1 ends_keep)
qed

end

lemma health_tick_total: "fst (health_tick life env threshold srepo hrepo s) = Inr ()"
  by (auto simp: health_tick_def with_session_def try_except_def split: prod.splits sum.splits)

section \<open>An in-memory database with sessions\<close>

text \<open>
  Two tables and what is committed of them.  Opening a session reads the committed rows,
  committing writes them back, closing drops them.
\<close>

type_synonym ('a, 'b) mem_db = "('a list option \<times> 'b list option) \<times> 'a list \<times> 'b list"

definition mem_clean :: "('r \<Rightarrow> 'r \<Rightarrow> bool) \<Rightarrow> ('r \<Rightarrow> 'r) \<Rightarrow> 'r list \<Rightarrow> 'r list" where
  "mem_clean clash store rs = (if mem_ok clash store rs then rs else [])"

definition mem_life ::
  "('a \<Rightarrow> 'a \<Rightarrow> bool) \<Rightarrow> ('a \<Rightarrow> 'a) \<Rightarrow> ('b \<Rightarrow> 'b \<Rightarrow> bool) \<Rightarrow> ('b \<Rightarrow> 'b) \<Rightarrow> ('a, 'b) mem_db session_life" where
  "mem_life c1 s1 c2 s2 =
     \<lparr>sl_open = (\<lambda>(_, a, b). ((Some (mem_clean c1 s1 a), Some (mem_clean c2 s2 b)), a, b)),
      sl_commit = (\<lambda>((x, y), a, b).
        case (mem_rows c1 s1 x, mem_rows c2 s2 y) of
          (Some a', Some b') \<Rightarrow> (Inr (), ((x, y), a', b'))
        | _ \<Rightarrow> (Inl (Exn IntegrityError ''UNIQUE constraint failed''), ((x, y), a, b))),
      sl_rollback = (\<lambda>(_, d). ((None, None), d)), sl_close = (\<lambda>(_, d). ((None, None), d))\<rparr>"

definition mem_disk ::
  "('a \<Rightarrow> 'a \<Rightarrow> bool) \<Rightarrow> ('a \<Rightarrow> 'a) \<Rightarrow> ('b \<Rightarrow> 'b \<Rightarrow> bool) \<Rightarrow> ('b \<Rightarrow> 'b) \<Rightarrow> ('a, 'b) mem_db \<Rightarrow> 'a set \<times> 'b set" where
  "mem_disk c1 s1 c2 s2 s = (set (mem_clean c1 s1 (fst (snd s))), set (mem_clean c2 s2 (snd (snd s))))"

lemma mem_view_clean: "mem_view c st (Some (mem_clean c st rs)) = Some (set (mem_clean c st rs))"
  by (auto simp: mem_view_eq_Some mem_clean_def mem_ok_def)

lemma mem_life_laws:
  "mem_view c1 s1 (fst (fst (sl_open (mem_life c1 s1 c2 s2) s))) = Some (fst (mem_disk c1 s1 c2 s2 s))"
  "mem_view c2 s2 (snd (fst (sl_open (mem_life c1 s1 c2 s2) s))) = Some (snd (mem_disk c1 s1 c2 s2 s))"
  "mem_disk c1 s1 c2 s2 (sl_open (mem_life c1 s1 c2 s2) s) = mem_disk c1 s1 c2 s2 s"
  "mem_disk c1 s1 c2 s2 (sl_close (mem_life c1 s1 c2 s2) s) = mem_disk c1 s1 c2 s2 s"
  "mem_disk c1 s1 c2 s2 (sl_rollback (mem_life c1 s1 c2 s2) s) = mem_disk c1 s1 c2 s2 s"
  by (simp_all add: mem_life_def mem_disk_def mem_view_clean split: prod.splits)

lemma mem_commit:
  "mem_view c1 s1 (fst (fst s)) = Some S \<Longrightarrow> mem_view c2 s2 (snd (fst s)) = Some H \<Longrightarrow>
     \<exists>s'. sl_commit (mem_life c1 s1 c2 s2) s = (Inr (), s') \<and> mem_disk c1 s1 c2 s2 s' = (S, H)"
  "sl_commit (mem_life c1 s1 c2 s2) s = (Inl e, s') \<Longrightarrow> mem_disk c1 s1 c2 s2 s' = mem_disk c1 s1 c2 s2 s"
  by (auto simp: mem_life_def mem_disk_def mem_clean_def mem_view_def mem_rows_def
      split: prod.splits option.splits if_splits)

text \<open>A session on the first component keeps what it kept.\<close>

lemma session_frame_fst: "session_frame api v \<Longrightarrow> session_frame (on_fst api) (\<lambda>s. v (fst s))"
  by (auto simp: session_frame_def on_fst_def split: prod.splits)

lemma session_frame_const: "session_frame api (\<lambda>_. c)"
  by (simp add: session_frame_def)

text \<open>The database of the health check, with the fetcher of \<open>demo_health_env\<close>.\<close>

type_synonym health_db = "(source_row, health_row) mem_db"

abbreviation health_life :: "health_db session_life" where
  "health_life \<equiv> mem_life source_clash source_store health_clash health_store"

definition health_db_env :: "string list \<Rightarrow> health_db health_env" where
  "health_db_env answered =
     \<lparr>he_fetch = (\<lambda>u h t (s, d). map_prod id (\<lambda>s'. (s', d)) (he_fetch (demo_health_env answered) u h t s)),
      he_monotonic = (\<lambda>_. 0), he_now = (\<lambda>_. sample_time)\<rparr>"

interpretation mem_health_service: health_service
  "on_fst (on_fst mem_sources)" "\<lambda>s. mem_sources_view (fst (fst s))"
  "on_fst (on_snd mem_health)" "\<lambda>s. mem_health_view (snd (fst s))" "\<lambda>_. sample_time"
  "health_db_env answered" "\<lambda>u h. u \<in> set answered" health_life
  "mem_disk source_clash source_store health_clash health_store" for answered
proof (intro health_service.intro health_tables.intro health_tables_axioms.intro health_service_axioms.intro)
  show "source_session (on_fst (on_fst mem_sources)) (\<lambda>s :: health_db. mem_sources_view (fst (fst s)))"
    unfolding source_session_def by (intro sql_session_on_fst) (rule source_table.mem.sql_session_axioms)
  show "health_session (on_fst (on_snd mem_health)) (\<lambda>s :: health_db. mem_health_view (snd (fst s)))"
    unfolding health_session_def
    by (rule sql_session_on_fst [where view = "\<lambda>s. mem_health_view (snd s)"], rule sql_session_on_snd)
      (rule health_table.mem.sql_session_axioms)
  show "shares_session (on_fst (on_fst mem_sources)) (\<lambda>s :: health_db. mem_sources_view (fst (fst s))) (\<lambda>s. mem_health_view (snd (fst s)))"
    by (rule session_frame_shares, rule session_frame_fst [where v = "\<lambda>s. mem_health_view (snd s)"], rule session_frame_on_fst)
  show "shares_session (on_fst (on_snd mem_health)) (\<lambda>s :: health_db. mem_health_view (snd (fst s))) (\<lambda>s. mem_sources_view (fst (fst s)))"
    by (rule session_frame_shares, rule session_frame_fst [where v = "\<lambda>s. mem_sources_view (fst s)"], rule session_frame_on_snd)
  show "session_frame (on_fst (on_fst mem_sources)) (mem_disk source_clash source_store health_clash health_store :: health_db \<Rightarrow> _)"
    "session_frame (on_fst (on_snd mem_health)) (mem_disk source_clash source_store health_clash health_store :: health_db \<Rightarrow> _)"
    unfolding mem_disk_def by (rule session_frame_on_fst)+
  show "mem_disk source_clash source_store health_clash health_store (snd (he_fetch (health_db_env answered) u h t s)) =
      mem_disk source_clash source_store health_clash health_store s" for u h t s
    by (cases s) (simp add: health_db_env_def demo_health_env_def mem_disk_def)
qed (auto simp: mem_life_laws health_db_env_def demo_health_env_def split: prod.splits dest: mem_commit)

text \<open>The database of the crawl endpoints, beside the session of the request.\<close>

type_synonym crawl_db = "(program_row, job_row) mem_db \<times> source_row list option"

abbreviation crawl_disk :: "crawl_db \<Rightarrow> program_row set \<times> job_row set" where
  "crawl_disk \<equiv> \<lambda>s. mem_disk program_clash program_store job_clash job_store (fst s)"

definition crawl_life :: "crawl_db session_life" where
  "crawl_life =
     (let life = mem_life program_clash program_store job_clash job_store in
      \<lparr>sl_open = map_prod (sl_open life) id,
       sl_commit = (\<lambda>(s, r). map_prod id (\<lambda>s'. (s', r)) (sl_commit life s)),
       sl_rollback = map_prod (sl_rollback life) id, sl_close = map_prod (sl_close life) id\<rparr>)"

definition crawl_db_aggregator :: "tv_program list \<Rightarrow> crawl_db aggregator" where
  "crawl_db_aggregator parsed =
     sql_aggregator (on_fst (on_fst (on_fst mem_programs))) (on_fst (on_fst (on_snd mem_jobs))) demo_env
       (\<lambda>_. sample_time)
       (\<lambda>u h t s. (Inr \<lparr>res_url = u, res_status_code = 200, res_body = [], res_headers = [],
                         res_elapsed_ms = 1\<rparr>, s))
       (\<lambda>b i s. (Inr parsed, s)) (\<lambda>s. (fst (demo_uuid4 (fst (fst s))), s))
       (Some \<lparr>tx_begin = ret (), tx_commit = ret (), tx_rollback = id\<rparr>)"

abbreviation request_sources :: "crawl_db source_port" where
  "request_sources \<equiv> SQLAlchemySourceRepository (on_snd mem_sources) (\<lambda>_. sample_time)"

lemma mem_reads:
  "snd (exec_select (mem_session pk clash store) q s) = s" "snd (get_row (mem_session pk clash store) k s) = s"
  by (auto simp: mem_session_def bindE_def mem_flush_def split: option.splits)

lemma request_reads:
  "snd (sp_get request_sources k s) = s" "snd (sp_list request_sources st s) = s"
proof -
  have reads: "snd (get_row (on_snd mem_sources) k s) = s" "snd (exec_select (on_snd mem_sources) q s) = s"
    for k q and s :: crawl_db
    by (cases s; simp add: on_snd_def mem_reads split: prod.splits)+
  have "snd (source_get (on_snd mem_sources) k s) = s"
    unfolding source_get_def
    by (rule snd_bindE [where v = "\<lambda>s. s"], rule reads) (auto simp: bindE_def split: option.splits sum.splits)
  moreover have "snd (source_list (on_snd mem_sources) st s) = s"
    unfolding source_list_def by (rule snd_bindE [where v = "\<lambda>s. s"], rule reads) simp
  ultimately show "snd (sp_get request_sources k s) = s" "snd (sp_list request_sources st s) = s"
    by (simp_all add: SQLAlchemySourceRepository_def)
qed

interpretation mem_crawl_service: crawl_service
  "on_fst (on_fst (on_fst mem_programs))" "\<lambda>s. mem_programs_view (fst (fst (fst s)))"
  "on_fst (on_fst (on_snd mem_jobs))" "\<lambda>s. mem_jobs_view (snd (fst (fst s)))"
  demo_env "\<lambda>_. sample_time" "crawl_db_aggregator parsed" crawl_life crawl_disk
  "\<lambda>s. mem_sources_view (snd s) = None" request_sources "flush (on_snd mem_sources)" for parsed
proof (intro crawl_service.intro crawl_tables.intro crawl_tables_axioms.intro crawl_service_axioms.intro)
  show "program_session (on_fst (on_fst (on_fst mem_programs))) (\<lambda>s :: crawl_db. mem_programs_view (fst (fst (fst s))))"
    unfolding program_session_def by (intro sql_session_on_fst) (rule program_table.mem.sql_session_axioms)
  show "job_session (on_fst (on_fst (on_snd mem_jobs))) (\<lambda>s :: crawl_db. mem_jobs_view (snd (fst (fst s))))"
    unfolding job_session_def
    by (rule sql_session_on_fst [where view = "\<lambda>s. mem_jobs_view (snd (fst s))"],
        rule sql_session_on_fst [where view = "\<lambda>s. mem_jobs_view (snd s)"], rule sql_session_on_snd)
      (rule job_table.mem.sql_session_axioms)
  show "shares_session (on_fst (on_fst (on_fst mem_programs))) (\<lambda>s :: crawl_db. mem_programs_view (fst (fst (fst s)))) (\<lambda>s. mem_jobs_view (snd (fst (fst s))))"
    by (rule session_frame_shares, rule session_frame_fst [where v = "\<lambda>s. mem_jobs_view (snd (fst s))"],
        rule session_frame_fst [where v = "\<lambda>s. mem_jobs_view (snd s)"], rule session_frame_on_fst)
  show "shares_session (on_fst (on_fst (on_snd mem_jobs))) (\<lambda>s :: crawl_db. mem_jobs_view (snd (fst (fst s)))) (\<lambda>s. mem_programs_view (fst (fst (fst s))))"
    by (rule session_frame_shares, rule session_frame_fst [where v = "\<lambda>s. mem_programs_view (fst (fst s))"],
        rule session_frame_fst [where v = "\<lambda>s. mem_programs_view (fst s)"], rule session_frame_on_snd)
  show "session_frame (on_fst (on_fst (on_fst mem_programs))) crawl_disk"
    "session_frame (on_fst (on_fst (on_snd mem_jobs))) crawl_disk"
    unfolding mem_disk_def
    by (rule session_frame_fst [where v = "\<lambda>s. (set (mem_clean program_clash program_store (fst (snd s))),
          set (mem_clean job_clash job_store (snd (snd s))))"], rule session_frame_on_fst)+
  show "session_frame (on_fst (on_fst (on_fst mem_programs))) (\<lambda>s :: crawl_db. mem_sources_view (snd s) = None)"
    "session_frame (on_fst (on_fst (on_snd mem_jobs))) (\<lambda>s :: crawl_db. mem_sources_view (snd s) = None)"
    by (rule session_frame_on_fst)+
  show "jm (fst (ag_uuid4 (crawl_db_aggregator parsed) s)) = None"
    if "job_map (\<lambda>s. mem_jobs_view (snd (fst (fst s)))) s = Some jm" for s jm
    using demo_uuid4_fresh [of "fst (fst s)" jm] that by (simp add: crawl_db_aggregator_def job_map_def)
  show "\<exists>s'. flush (on_snd mem_sources) s = (Inr (), s') \<and> crawl_disk s' = crawl_disk s"
    if view: "mem_sources_view (snd s) \<noteq> None" for s :: crawl_db
  proof -
    obtain S where "mem_sources_view (snd s) = Some S" using view by blast
    from source_table.mem.flush_ok [OF this] show ?thesis by (cases s) (auto simp: on_snd_def)
  qed
qed (auto simp: crawl_db_aggregator_def world_keeps_def crawl_life_def Let_def mem_life_laws request_reads
    split: prod.splits)

section \<open>Properties\<close>

text \<open>
  C16: a crawl started through the API is reported and lost.  \<open>_AggFactory\<close> opens a session for
  each run and never commits it, and the request's own commit has nothing to write: whatever
  the sources, the fetcher and the parser do, \<open>POST /admin/crawl/{id}\<close> and
  \<open>POST /admin/crawl-all\<close> leave the committed programmes and jobs exactly as they were.  The
  client is still told otherwise: when the run succeeds the reply is \<open>ok\<close> with the status
  \<open>success\<close> and the id of a job that no later request will find.
\<close>

theorem crawl_success_is_lost:
  assumes "crawl_service papi pview japi jview env now agg life disk pending srepo commit" and "\<not> pending s"
  shows "disk (snd (trigger_crawl (Some (agg_factory_run_once life reg (\<lambda>_. agg))) srepo commit k s)) = disk s \<and>
    disk (snd (trigger_crawl_all (Some (agg_factory_run_once life reg (\<lambda>_. agg))) srepo commit s)) = disk s \<and>
    (\<forall>src p m jm parsed.
       fst (sp_get srepo k s) = Inr (Some src) \<and> has_url src \<and> get_parser ''json'' reg = Inr p \<and>
       catalogue env (\<lambda>s. Some (fst (disk s))) s = Some m \<and> job_map (\<lambda>s. Some (snd (disk s))) s = Some jm \<and>
       (\<forall>u h t s. \<exists>x. fst (ag_fetch agg u h t s) = Inr x) \<and> (\<forall>b i s. fst (ag_parse agg b i s) = Inr parsed) \<and>
       (\<forall>p \<in> set (merge (map apply_norm parsed)). m (identity_key p) \<noteq> None \<and> program_ok p) \<longrightarrow>
       (\<exists>jid s'. trigger_crawl (Some (agg_factory_run_once life reg (\<lambda>_. agg))) srepo commit k s =
          (Inr (JObj [(''ok'', JBool True), (''job_id'', JStr jid), (''status'', JStr ''success'')]), s') \<and>
          jm jid = None))"
proof (intro conjI allI impI)
  fix src p m jm parsed
  assume a: "fst (sp_get srepo k s) = Inr (Some src) \<and> has_url src \<and> get_parser ''json'' reg = Inr p \<and>
       catalogue env (\<lambda>s. Some (fst (disk s))) s = Some m \<and> job_map (\<lambda>s. Some (snd (disk s))) s = Some jm \<and>
       (\<forall>u h t s. \<exists>x. fst (ag_fetch agg u h t s) = Inr x) \<and> (\<forall>b i s. fst (ag_parse agg b i s) = Inr parsed) \<and>
       (\<forall>p \<in> set (merge (map apply_norm parsed)). m (identity_key p) \<noteq> None \<and> program_ok p)"
  show "\<exists>jid s'. trigger_crawl (Some (agg_factory_run_once life reg (\<lambda>_. agg))) srepo commit k s =
      (Inr (JObj [(''ok'', JBool True), (''job_id'', JStr jid), (''status'', JStr ''success'')]), s') \<and> jm jid = None"
    by (rule crawl_service.crawl_reports_success [OF assms, where src = src and p = p and m = m and parsed = parsed])
      (use a in blast)+
qed (rule crawl_service.crawl_keeps [OF assms], rule crawl_service.crawl_all_keeps [OF assms])

theorem crawl_success_is_lost_witness:
  "\<exists>jid s'. trigger_crawl (Some (agg_factory_run_once crawl_life build_registry
        (\<lambda>_. crawl_db_aggregator [sample_program ''k'' ''b'']))) request_sources (flush (on_snd mem_sources)) ''b''
      (((None, None), [sample_row ''k'' ''a''], []), Some [source_row_of (sample_source ''b'')]) =
      (Inr (JObj [(''ok'', JBool True), (''job_id'', JStr jid), (''status'', JStr ''success'')]), s') \<and>
    crawl_disk s' = ({sample_row ''k'' ''a''}, {})"
proof -
  let ?s = "(((None, None), [sample_row ''k'' ''a''], []), Some [source_row_of (sample_source ''b'')]) :: crawl_db"
  let ?agg = "crawl_db_aggregator [sample_program ''k'' ''b'']"
  have c: "catalogue demo_env mem_programs_view (Some [sample_row ''k'' ''a'']) = Some [''k'' \<mapsto> (''News'', [''a''], 1)]"
    using mem_catalogue_single [of "sample_row ''k'' ''a''"] by (simp add: from_domain_valid)
  then have view: "mem_programs_view (Some [sample_row ''k'' ''a'']) = Some {sample_row ''k'' ''a''}"
    by (auto simp: catalogue_def mem_view_eq_Some split: option.splits)
  then have disk: "crawl_disk ?s = ({sample_row ''k'' ''a''}, {})"
    by (auto simp: mem_disk_def mem_clean_def mem_view_eq_Some mem_ok_def)
  have maps: "catalogue demo_env (\<lambda>s. Some (fst (crawl_disk s))) ?s = Some [''k'' \<mapsto> (''News'', [''a''], 1)]"
    "job_map (\<lambda>s. Some (snd (crawl_disk s))) ?s = Some Map.empty"
    using c view unfolding catalogue_def job_map_def disk by simp_all
  obtain m where m: "source_map mem_sources_view (Some [source_row_of (sample_source ''b'')]) = Some m"
      "m ''b'' = Some (naive_source (sample_source ''b''))"
    using mem_source_map [of "[sample_source ''b'']"] by auto
  then have open_request: "\<not> mem_sources_view (snd ?s) = None" by (auto simp: source_map_Some)
  have sess: "source_session (on_snd mem_sources) (\<lambda>s :: crawl_db. mem_sources_view (snd s))"
    unfolding source_session_def by (rule sql_session_on_snd) (rule source_table.mem.sql_session_axioms)
  have "source_map (\<lambda>s :: crawl_db. mem_sources_view (snd s)) ?s = Some m" using m(1) by (simp add: source_map_def)
  from source_repository.get [OF source_session.port [OF sess, of "\<lambda>_. sample_time"] this, of "''b''"] m(2)
  obtain src where src: "fst (sp_get request_sources ''b'' ?s) = Inr (Some src)"
      "naive_source src = naive_source (sample_source ''b'')" by auto
  have url: "has_url src" using arg_cong [OF src(2), of src_url] by (simp add: has_url_def)
  note lost = crawl_success_is_lost [OF mem_crawl_service.crawl_service_axioms open_request,
      where parsed1 = "[sample_program ''k'' ''b'']" and reg = build_registry and k = "''b''"]
  show ?thesis
    using lost src(1) url build_registry_parser maps disk
    by (auto simp: crawl_db_aggregator_def)
qed

text \<open>
  C17: the scheduled health check is one transaction.  It never raises, so the scheduler goes on.
  When the committed sources can be read, what is committed afterwards is exactly one round of
  the check: every active source that answers has the streak zero, every other active one a
  streak one higher and is paused exactly when that reaches the threshold, and nothing else has
  changed.  When the round raises at any point (one unreadable source is enough), nothing of it
  is committed.
\<close>

theorem health_tick_commits:
  assumes "health_service sapi sview hapi hview env up life disk"
    and "source_map (\<lambda>s. Some (fst (disk s))) s = Some m" and "streak_map (\<lambda>s. Some (snd (disk s))) s = Some f"
  shows "(\<exists>s' m' f'.
      health_tick life env threshold (SQLAlchemySourceRepository sapi now) (SQLAlchemySourceHealthRepository hapi now) s =
        (Inr (), s') \<and>
      source_map (\<lambda>s. Some (fst (disk s))) s' = Some m' \<and> streak_map (\<lambda>s. Some (snd (disk s))) s' = Some f' \<and>
      (\<forall>k. case m k of
          None \<Rightarrow> m' k = None \<and> f' k = f k
        | Some x \<Rightarrow>
            if src_status x \<noteq> ACTIVE then m' k = Some x \<and> f' k = f k
            else f' k = (if alive up x then 0 else f k + 1) \<and>
              (if \<not> alive up x \<and> f k + 1 \<ge> int threshold
               then \<exists>t. m' k = Some (touched (src_created_at x) t (x\<lparr>src_status := PAUSED\<rparr>))
               else m' k = Some x))) \<and>
    (\<forall>t. fst (health_tick life env threshold (SQLAlchemySourceRepository sapi now)
           (SQLAlchemySourceHealthRepository hapi now) t) = Inr ()) \<and>
    (\<forall>t e. fst (health_check_loop env threshold (SQLAlchemySourceRepository sapi now)
           (SQLAlchemySourceRepository sapi now) (SQLAlchemySourceHealthRepository hapi now) (sl_open life t)) = Inl e \<longrightarrow>
       disk (snd (health_tick life env threshold (SQLAlchemySourceRepository sapi now)
         (SQLAlchemySourceHealthRepository hapi now) t)) = disk t)"
proof (intro conjI allI impI)
  obtain s' m' f' where r:
    "health_tick life env threshold (SQLAlchemySourceRepository sapi now) (SQLAlchemySourceHealthRepository hapi now) s =
      (Inr (), s')"
    "source_map (\<lambda>s. Some (fst (disk s))) s' = Some m'" "streak_map (\<lambda>s. Some (snd (disk s))) s' = Some f'"
    "\<forall>k. (case m k of
        None \<Rightarrow> m' k = None \<and> f' k = f k
      | Some x \<Rightarrow>
          if src_status x \<noteq> ACTIVE then m' k = Some x \<and> f' k = f k
          else f' k = next_streak (alive up x) (f k) \<and>
            (if pause_due threshold (alive up x) (f k)
             then \<exists>y. m' k = Some y \<and> paused x y else m' k = Some x))"
    using health_service.tick_commits [OF assms, where threshold = threshold and now = now]
    by (elim exE conjE) (rule that)
  show "\<exists>s' m' f'.
      health_tick life env threshold (SQLAlchemySourceRepository sapi now) (SQLAlchemySourceHealthRepository hapi now) s =
        (Inr (), s') \<and>
      source_map (\<lambda>s. Some (fst (disk s))) s' = Some m' \<and> streak_map (\<lambda>s. Some (snd (disk s))) s' = Some f' \<and>
      (\<forall>k. case m k of
          None \<Rightarrow> m' k = None \<and> f' k = f k
        | Some x \<Rightarrow>
            if src_status x \<noteq> ACTIVE then m' k = Some x \<and> f' k = f k
            else f' k = (if alive up x then 0 else f k + 1) \<and>
              (if \<not> alive up x \<and> f k + 1 \<ge> int threshold
               then \<exists>t. m' k = Some (touched (src_created_at x) t (x\<lparr>src_status := PAUSED\<rparr>))
               else m' k = Some x))"
    using r(1-3) health_round_explicit [OF r(4)] by blast
qed (rule health_tick_total, erule health_service.tick_rolls_back [OF assms(1)])

theorem health_tick_commits_witness:
  "\<exists>s' m'. health_tick health_life (health_db_env []) 1
      (SQLAlchemySourceRepository (on_fst (on_fst mem_sources)) (\<lambda>_. sample_time))
      (SQLAlchemySourceHealthRepository (on_fst (on_snd mem_health)) (\<lambda>_. sample_time))
      ((None, None), [source_row_of (sample_source ''a'')], []) = (Inr (), s') \<and>
    source_map (\<lambda>s. Some (fst (mem_disk source_clash source_store health_clash health_store s))) s' = Some m' \<and>
    map_option src_status (m' ''a'') = Some PAUSED"
proof -
  let ?s = "((None, None), [source_row_of (sample_source ''a'')], []) :: health_db"
  let ?disk = "mem_disk source_clash source_store health_clash health_store :: health_db \<Rightarrow> _"
  obtain m where m: "source_map mem_sources_view (Some [source_row_of (sample_source ''a'')]) = Some m"
      "m ''a'' = Some (naive_source (sample_source ''a''))"
    using mem_source_map [of "[sample_source ''a'']"] by auto
  then have view: "mem_sources_view (Some [source_row_of (sample_source ''a'')]) = Some {source_row_of (sample_source ''a'')}"
    by (auto simp: source_map_Some mem_view_eq_Some)
  then have disk: "?disk ?s = ({source_row_of (sample_source ''a'')}, {})"
    by (auto simp: mem_disk_def mem_clean_def mem_view_eq_Some mem_ok_def)
  have maps: "source_map (\<lambda>s. Some (fst (?disk s))) ?s = Some m"
    "streak_map (\<lambda>s. Some (snd (?disk s))) ?s = Some (\<lambda>_. 0)"
    using m(1) view unfolding source_map_def streak_map_def disk by simp_all
  obtain s' m' and f' :: "string \<Rightarrow> int" where r:
    "health_tick health_life (health_db_env []) 1
      (SQLAlchemySourceRepository (on_fst (on_fst mem_sources)) (\<lambda>_. sample_time))
      (SQLAlchemySourceHealthRepository (on_fst (on_snd mem_health)) (\<lambda>_. sample_time)) ?s = (Inr (), s')"
    "source_map (\<lambda>s. Some (fst (?disk s))) s' = Some m'"
    "\<forall>k. case m k of
        None \<Rightarrow> m' k = None \<and> f' k = 0
      | Some x \<Rightarrow>
          if src_status x \<noteq> ACTIVE then m' k = Some x \<and> f' k = 0
          else f' k = (if alive (\<lambda>u h. u \<in> set []) x then 0 else 0 + 1) \<and>
            (if \<not> alive (\<lambda>u h. u \<in> set []) x \<and> 0 + 1 \<ge> int 1
             then \<exists>t. m' k = Some (touched (src_created_at x) t (x\<lparr>src_status := PAUSED\<rparr>))
             else m' k = Some x)"
    using conjunct1 [OF health_tick_commits [OF mem_health_service.health_service_axioms [of "[]"] maps,
        where threshold = 1 and now = "\<lambda>_. sample_time"]] by (elim exE conjE) (rule that)
  from spec [OF r(3), of "''a''"] m(2) have "map_option src_status (m' ''a'') = Some PAUSED"
    by (auto simp: alive_def)
  with r(1,2) show ?thesis by blast
qed

lemma active_status: "''active'' = source_status_value st \<longleftrightarrow> st = ACTIVE"
  by (cases st) simp_all

text \<open>
  C18: crawling every source comes to an end.  Whatever each run raises, the loop goes through
  the active sources to the last one: the reply counts all of them and has one entry for each,
  in the order of the list, which is the job of its run or the text of what it raised.  Only the
  commit that follows can still fail.
\<close>

theorem crawl_all_ends:
  assumes "source_repository repo sources valid" and "sources s = Some m"
  shows "\<exists>xs rs s'. naive_source ` set xs = {x \<in> ran m. src_status x = ACTIVE} \<and> distinct (map src_id xs) \<and>
    list_all2 (\<lambda>x r. \<exists>t. r = (case fst (run x t) of
        Inl e \<Rightarrow> JObj [(''source_id'', JStr (src_id x)), (''ok'', JBool False), (''error'', JStr (exn_str e))]
      | Inr job \<Rightarrow> JObj [(''source_id'', JStr (src_id x)), (''ok'', JBool True), (''job_id'', JStr (job_id job)),
                      (''status'', JStr (job_status_value (job_status job)))])) xs rs \<and>
    trigger_crawl_all (Some run) repo commit s =
      (case commit s' of
         (Inl e, s'') \<Rightarrow> (Inl e, s'')
       | (Inr _, s'') \<Rightarrow>
           (Inr (JObj [(''total'', JInt (int (length xs))), (''results'', JList rs)]), s''))"
proof -
  obtain xs s1 where xs: "sp_list repo (Some ''active'') s = (Inr xs, s1)"
      "naive_source ` set xs = {x \<in> ran m. src_status x = ACTIVE}" "distinct (map src_id xs)"
    using source_repository.list [OF assms, of "Some ''active''"] by (auto simp: active_status)
  obtain rs s' where rs: "collect (crawl_entry run) xs s1 = (Inr rs, s')"
      "list_all2 (\<lambda>x r. \<exists>t. r = crawl_report x (fst (run x t))) xs rs"
    using collect_total [where f = "crawl_entry run" and P = "\<lambda>x r. \<exists>t. r = crawl_report x (fst (run x t))",
        OF crawl_entry_total] by blast
  have "trigger_crawl_all (Some run) repo commit s =
      (case commit s' of
         (Inl e, s'') \<Rightarrow> (Inl e, s'')
       | (Inr _, s'') \<Rightarrow>
           (Inr (JObj [(''total'', JInt (int (length xs))), (''results'', JList rs)]), s''))"
    by (simp add: trigger_crawl_all_def bindE_def xs(1) rs(1) split: prod.splits sum.splits)
  with xs(2,3) rs(2) show ?thesis unfolding crawl_report_def by blast
qed

theorem crawl_all_ends_witness:
  "\<exists>rs s'. trigger_crawl_all (Some (\<lambda>x. raise (Exn SourceUnavailableError ''down'')))
      (SQLAlchemySourceRepository mem_sources (\<lambda>_. sample_time)) (ret ())
      (Some [source_row_of (sample_source ''a''), source_row_of (sample_source ''b'')]) =
      (Inr (JObj [(''total'', JInt 2), (''results'', JList rs)]), s') \<and>
    length rs = 2 \<and>
    JObj [(''source_id'', JStr ''a''), (''ok'', JBool False), (''error'', JStr ''down'')] \<in> set rs"
proof -
  let ?s = "Some [source_row_of (sample_source ''a''), source_row_of (sample_source ''b'')]"
  let ?run = "\<lambda>x :: tv_source. raise (Exn SourceUnavailableError ''down'') :: (source_row list option, crawl_job) eff"
  let ?A = "naive_source (sample_source ''a'')" and ?B = "naive_source (sample_source ''b'')"
  obtain m where m: "source_map mem_sources_view ?s = Some m" "m ''a'' = Some ?A" "m ''b'' = Some ?B"
    using mem_source_map [of "[sample_source ''a'', sample_source ''b'']"] by auto
  then have "m k = None \<longleftrightarrow> k \<noteq> ''a'' \<and> k \<noteq> ''b''" for k
    by (auto simp: source_map_Some mem_view_eq_Some keyed_None source_from_domain_def)
  then have "m k = [''a'' \<mapsto> ?A, ''b'' \<mapsto> ?B] k" for k
    using m(2,3) by (cases "k = ''a''"; cases "k = ''b''") simp_all
  then have "m = [''a'' \<mapsto> ?A, ''b'' \<mapsto> ?B]" by (rule ext)
  then have ran: "{x \<in> ran m. src_status x = ACTIVE} = {?A, ?B}" by auto
  let ?entry = "\<lambda>x. JObj [(''source_id'', JStr (src_id x)), (''ok'', JBool False), (''error'', JStr ''down'')]"
  obtain xs rs s' where r: "naive_source ` set xs = {?A, ?B}" "distinct (map src_id xs)"
    "list_all2 (\<lambda>x r. r = ?entry x) xs rs"
    "trigger_crawl_all (Some ?run) (SQLAlchemySourceRepository mem_sources (\<lambda>_. sample_time)) (ret ()) ?s =
      (Inr (JObj [(''total'', JInt (int (length xs))), (''results'', JList rs)]), s')"
    using crawl_all_ends [OF source_session.port [OF mem_sources.source_session_axioms, of "\<lambda>_. sample_time"] m(1),
      of ?run "ret ()"] unfolding ran by (elim exE conjE) (rule that, auto)
  have rs: "rs = map ?entry xs" using r(3) by (induction rule: list_all2_induct) auto
  have "src_id ` naive_source ` set xs = {''a'', ''b''}" unfolding r(1) by simp
  then have ids: "set (map src_id xs) = {''a'', ''b''}" by (simp add: image_image)
  with distinct_card [OF r(2)] have "length xs = 2" by simp
  then have "trigger_crawl_all (Some ?run) (SQLAlchemySourceRepository mem_sources (\<lambda>_. sample_time)) (ret ()) ?s =
      (Inr (JObj [(''total'', JInt 2), (''results'', JList rs)]), s') \<and> length rs = 2"
    using r(4) rs by simp
  moreover have "?entry x \<in> set rs" if "x \<in> set xs" for x using that rs by simp
  moreover from ids obtain x where "x \<in> set xs" "src_id x = ''a''" by (metis (no_types) imageE insertI1 set_map)
  ultimately show ?thesis by metis
qed

end
