(* ===== verification/Seed.thy ===== *)
theory Seed
  imports Lifespan Settings
begin

text \<open>
  \<open>interfaces/api/seed.py\<close>, the demo rows an empty database is filled with, and the endpoints
  of \<open>routers/admin.py\<close> that ask for them.  Titles and names are Chinese, outside the
  characters of this development, so they are a parameter (\<open>seed_text\<close>); so are
  \<open>isoformat\<close>, the successive readings of the clock and the successive \<open>uuid4().hex\<close>.
\<close>

section \<open>The rows\<close>

record seed_text =
  st_titles :: "string \<Rightarrow> string list"
  st_channel_name :: "string \<Rightarrow> string"
  st_source_name :: "string \<Rightarrow> string"
  st_describe :: "string \<Rightarrow> string \<Rightarrow> string"

record seed_env =
  se_text :: seed_text
  se_isoformat :: "datetime \<Rightarrow> string"
  se_now :: "nat \<Rightarrow> datetime"
  se_hex :: "nat \<Rightarrow> string"

text \<open>\<open>_id\<close>, given the hexadecimal digits of the UUID it draws.\<close>

definition seed_id :: "string \<Rightarrow> string \<Rightarrow> string" where
  "seed_id pre hex = (if pre \<noteq> [] then pre @ take 12 hex else hex)"

definition minutes :: "int \<Rightarrow> int" where
  "minutes n = n * 60 * us_per_second"

definition sample_source_of :: "seed_text \<Rightarrow> datetime \<Rightarrow> string \<Rightarrow> source_type \<Rightarrow> string \<Rightarrow> tv_source" where
  "sample_source_of txt now i ty url =
     \<lparr>src_id = i, src_name = st_source_name txt i, src_type = ty, src_url = Some url, src_config = [],
      src_headers = [], src_cron = ''*/15 * * * *'', src_priority = 5, src_status = ACTIVE,
      src_parser = ''auto'', src_created_at = now, src_updated_at = now\<rparr>"

definition build_sample_sources :: "seed_text \<Rightarrow> datetime \<Rightarrow> tv_source list" where
  "build_sample_sources txt now =
     [sample_source_of txt now ''src_demo_iqiyi'' HTTP_JSON ''https://demo.example.com/iqiyi/epg.json'',
      sample_source_of txt now ''src_demo_cctv'' RSS ''https://demo.example.com/cctv/schedule.xml'',
      sample_source_of txt now ''src_demo_iptv'' M3U ''https://demo.example.com/iptv/playlist.m3u'']"

text \<open>The channels with their categories.\<close>

definition channel_defs :: "(string \<times> string) list" where
  "channel_defs =
     [(''ch_cctv1'', ''news''), (''ch_cctv4'', ''doc''), (''ch_zjjs'', ''drama''), (''ch_aqzws'', ''variety''),
      (''ch_bbc1'', ''drama''), (''ch_bbc2'', ''doc''), (''ch_skynews'', ''news''), (''ch_skyarts'', ''variety''),
      (''ch_m3u_movie'', ''movie''), (''ch_m3u_kids'', ''kids''), (''ch_m3u_sport'', ''sports''), (''ch_m3u_doc'', ''doc'')]"

definition slot_minutes :: "string \<Rightarrow> int" where
  "slot_minutes cat = (if cat \<in> {''news'', ''kids'', ''sports''} then 30 else 60)"

definition slot_count :: "string \<Rightarrow> nat" where
  "slot_count cat = nat ((48 * 60) div slot_minutes cat)"

definition country_of :: "string \<Rightarrow> string" where
  "country_of ch =
     (if startswith ch ''ch_'' \<and> \<not> startswith ch ''ch_bbc'' \<and> \<not> startswith ch ''ch_sky'' then ''CN'' else ''GB'')"

definition language_of :: "nat \<Rightarrow> string" where
  "language_of idx = (if idx < 8 then ''zh-CN'' else ''en-GB'')"

text \<open>The body of the inner loop: the \<open>i\<close>-th slot of the \<open>idx\<close>-th channel.\<close>

definition sample_row_of ::
  "seed_text \<Rightarrow> (datetime \<Rightarrow> string) \<Rightarrow> datetime \<Rightarrow> string list \<Rightarrow> string \<Rightarrow> nat \<Rightarrow> string \<Rightarrow> string \<Rightarrow> nat \<Rightarrow> program_row" where
  "sample_row_of txt isofmt now source_split hex idx ch_id cat i =
     (let sid = source_split ! (idx mod length source_split);
          titles = st_titles txt cat;
          start = dt_plus now (- minutes (2 * 60));
          slot_start = dt_plus start (minutes (slot_minutes cat * int i));
          slot_end = dt_plus slot_start (minutes (slot_minutes cat));
          ti = titles ! (i mod length titles)
      in \<lparr>prow_id = seed_id ''prog_'' hex, prow_title = ti,
          prow_description = Some (st_describe txt ti (st_channel_name txt ch_id)),
          prow_channel_id = ch_id, prow_channel_name = st_channel_name txt ch_id, prow_channel_logo = None,
          prow_channel_country = Some (country_of ch_id), prow_channel_language = Some (language_of idx),
          prow_start_at = slot_start, prow_end_at = slot_end, prow_timezone = ''UTC'',
          prow_tags = [JObj [(''label'', JStr cat), (''category'', JStr ''genre'')]],
          prow_source_ids = [sid], prow_identity_key = ch_id @ ''|'' @ isofmt slot_start,
          prow_version = 1, prow_created_at = now, prow_updated_at = now\<rparr>)"

text \<open>The iterations of the two loops, and the rows they append; the \<open>n\<close>-th row draws the \<open>n\<close>-th UUID.\<close>

definition sample_slots :: "(nat \<times> string \<times> string \<times> nat) list" where
  "sample_slots =
     concat (map (\<lambda>(idx, ch_id, cat). map (\<lambda>i. (idx, ch_id, cat, i)) [0..<slot_count cat])
       (enumerate 0 channel_defs))"

definition build_sample_programs ::
  "seed_text \<Rightarrow> (datetime \<Rightarrow> string) \<Rightarrow> datetime \<Rightarrow> (nat \<Rightarrow> string) \<Rightarrow> tv_source list \<Rightarrow> program_row list" where
  "build_sample_programs txt isofmt now hex sources =
     (let source_split = [src_id (sources ! 0), src_id (sources ! 1), src_id (sources ! 2)]
      in map (\<lambda>(n, idx, ch_id, cat, i). sample_row_of txt isofmt now source_split (hex n) idx ch_id cat i)
           (enumerate 0 sample_slots))"

definition job_specs :: "(nat \<times> job_status \<times> int \<times> nat \<times> nat \<times> string option) list" where
  "job_specs =
     [(0, SUCCESS, 5, 142, 138, None), (1, SUCCESS, 35, 96, 95, None), (2, SUCCESS, 65, 312, 310, None),
      (0, FAILED, 125, 0, 0, Some ''connection timeout after 30s''), (2, SUCCESS, 180, 280, 278, None),
      (1, RUNNING, 0, 12, 0, None)]"

definition build_sample_jobs :: "datetime \<Rightarrow> (nat \<Rightarrow> string) \<Rightarrow> tv_source list \<Rightarrow> job_row list" where
  "build_sample_jobs now hex sources =
     map (\<lambda>(n, src_idx, status, mins_ago, fetched, saved, err).
       let started = dt_plus now (- minutes mins_ago);
           finished = (if status = RUNNING then None else Some (dt_plus started (8 * us_per_second)))
       in \<lparr>jrow_id = seed_id ''job_'' (hex (2 * n)), jrow_source_id = src_id (sources ! src_idx),
           jrow_status = job_status_value status, jrow_started_at = started, jrow_finished_at = finished,
           jrow_items_fetched = fetched, jrow_items_saved = saved, jrow_error = err,
           jrow_trace_id = Some (seed_id ''tr_'' (hex (2 * n + 1)))\<rparr>)
     (enumerate 0 job_specs)"

section \<open>Filling the database\<close>

text \<open>The session of each table, all three on one connection, and \<open>DELETE\<close> of all its rows.\<close>

record 's seed_db =
  sd_sources :: "('s, source_row) session_api"
  sd_programs :: "('s, program_row) session_api"
  sd_jobs :: "('s, job_row) session_api"
  sd_clear_sources :: "('s, unit) eff"
  sd_clear_programs :: "('s, unit) eff"
  sd_clear_jobs :: "('s, unit) eff"

definition add_all :: "('s, 'r) session_api \<Rightarrow> 'r list \<Rightarrow> 's \<Rightarrow> 's" where
  "add_all api rs s = foldl (\<lambda>s r. add_row api r s) s rs"

definition seed_insert ::
  "'s session_life \<Rightarrow> 's seed_db \<Rightarrow> tv_source list \<Rightarrow> program_row list \<Rightarrow> job_row list \<Rightarrow> ('s, json) eff" where
  "seed_insert life db sources programs jobs s =
     bindE (sl_commit life)
       (\<lambda>_. ret (JObj [(''skipped'', JBool False), (''sources'', JInt (int (length sources))),
                       (''programs'', JInt (int (length programs))), (''jobs'', JInt (int (length jobs)))]))
       (add_all (sd_jobs db) jobs
         (add_all (sd_programs db) programs
           (add_all (sd_sources db) (map source_from_domain sources) s)))"

definition seed_if_empty :: "'s session_life \<Rightarrow> 's seed_db \<Rightarrow> seed_env \<Rightarrow> ('s, json) eff" where
  "seed_if_empty life db env =
     with_session life
       (bindE (exec_select (sd_sources db) select_all) (\<lambda>existing_sources.
          case existing_sources of
            _ # _ \<Rightarrow> ret (JObj [(''skipped'', JBool True), (''reason'', JStr ''db not empty'')])
          | [] \<Rightarrow>
              let sources = build_sample_sources (se_text env) (se_now env 0);
                  programs = build_sample_programs (se_text env) (se_isoformat env) (se_now env 1) (se_hex env) sources;
                  jobs = build_sample_jobs (se_now env 2) (\<lambda>n. se_hex env (length programs + n)) sources
              in seed_insert life db sources programs jobs))"

definition reset_and_seed :: "'s session_life \<Rightarrow> 's seed_db \<Rightarrow> seed_env \<Rightarrow> ('s, json) eff" where
  "reset_and_seed life db env =
     bindE
       (with_session life
         (bindE (sd_clear_programs db) (\<lambda>_. bindE (sd_clear_jobs db) (\<lambda>_.
          bindE (sd_clear_sources db) (\<lambda>_. sl_commit life)))))
       (\<lambda>_. seed_if_empty life db env)"

text \<open>The endpoints; \<open>app.state.session_factory\<close> may be missing.\<close>

definition seed_data :: "settings \<Rightarrow> 's session_life option \<Rightarrow> 's seed_db \<Rightarrow> seed_env \<Rightarrow> ('s, json) eff" where
  "seed_data st session_factory db env =
     (if is_production st then raise (Exn (HTTPException 403) ''seed endpoint disabled in production'')
      else case session_factory of
        None \<Rightarrow> raise (Exn (HTTPException 503) ''session_factory not initialized'')
      | Some life \<Rightarrow> seed_if_empty life db env)"

definition reseed_data :: "settings \<Rightarrow> 's session_life option \<Rightarrow> 's seed_db \<Rightarrow> seed_env \<Rightarrow> ('s, json) eff" where
  "reseed_data st session_factory db env =
     (if is_production st then raise (Exn (HTTPException 403) ''reseed endpoint disabled in production'')
      else case session_factory of
        None \<Rightarrow> raise (Exn (HTTPException 503) ''session_factory not initialized'')
      | Some life \<Rightarrow> reset_and_seed life db env)"

section \<open>The rows do not clash\<close>

text \<open>Adding rows that clash neither with each other nor with the table.\<close>

context sql_session
begin

lemma view_add_all:
  assumes "view s = Some S" "\<And>r r'. r \<in> set rs \<Longrightarrow> r' \<in> S \<Longrightarrow> \<not> clash r r'"
    and "sorted_wrt (\<lambda>r r'. \<not> clash r r') rs"
  shows "view (add_all api rs s) = Some (S \<union> store ` set rs)"
  using assms
proof (induction rs arbitrary: s S)
  case (Cons r rs)
  have "\<not> (\<exists>r' \<in> S. clash r r')" using Cons.prems(2) by auto
  then have "view (add_row api r s) = Some (insert (store r) S)" using add [OF Cons.prems(1), of r] by simp
  moreover have "\<not> clash r' x" if "r' \<in> set rs" "x \<in> insert (store r) S" for r' x
    using that Cons.prems(2,3) clash_sym [of r' r] by auto
  ultimately have "view (add_all api rs (add_row api r s)) = Some (insert (store r) S \<union> store ` set rs)"
    using Cons.prems(3) by (intro Cons.IH) auto
  then show ?case by (simp add: add_all_def)
qed (simp add: add_all_def)

lemma add_all_shares:
  assumes v: "shares_session api view v"
    and "view s = Some S" "\<And>r r'. r \<in> set rs \<Longrightarrow> r' \<in> S \<Longrightarrow> \<not> clash r r'"
    and "sorted_wrt (\<lambda>r r'. \<not> clash r r') rs"
  shows "v (add_all api rs s) = v s"
  using assms(2-)
proof (induction rs arbitrary: s S)
  case (Cons r rs)
  have "\<not> (\<exists>r' \<in> S. clash r r')" using Cons.prems(2) by auto
  then have t: "view (add_row api r s) = Some (insert (store r) S)" using add [OF Cons.prems(1), of r] by simp
  moreover have "\<not> clash r' x" if "r' \<in> set rs" "x \<in> insert (store r) S" for r' x
    using that Cons.prems(2,3) clash_sym [of r' r] by auto
  ultimately have "v (add_all api rs (add_row api r s)) = v (add_row api r s)"
    using Cons.prems(3) by (intro Cons.IH) auto
  then show ?case using shares_sessionD(3) [OF v Cons.prems(1) t] by (simp add: add_all_def)
qed (simp add: add_all_def)

end

context sql_table
begin

lemma card_apart:
  assumes "sorted_wrt (\<lambda>r r'. \<not> clash r r') rs"
  shows "card (store ` set rs) = length rs"
proof -
  have "distinct (map pk rs)"
    using assms by (induction rs) (auto dest: pk_clash)
  then have "length rs = card (pk ` store ` set rs)"
    using distinct_card [of "map pk rs"] by (simp add: image_image)
  also have "\<dots> \<le> card (store ` set rs)" by (simp add: card_image_le)
  finally show ?thesis
    using card_image_le [of "set rs" store] card_length [of rs] by simp
qed

end

lemma channel_ids_distinct: "distinct (map fst channel_defs)"
  by code_simp

lemma sample_slots_distinct: "distinct sample_slots"
  unfolding sample_slots_def channel_defs_def by (auto simp: distinct_map inj_on_def)

lemma length_sample_slots: "length sample_slots = 768"
  by (simp add: sample_slots_def channel_defs_def slot_count_def slot_minutes_def)

lemma set_sample_slots:
  "(idx, ch, cat, i) \<in> set sample_slots \<longleftrightarrow>
     idx < length channel_defs \<and> channel_defs ! idx = (ch, cat) \<and> i < slot_count cat"
proof -
  have "(idx, ch, cat, i) \<in> set sample_slots \<longleftrightarrow>
      (\<exists>p \<in> set (enumerate 0 channel_defs). p = (idx, ch, cat) \<and> i < slot_count cat)"
    unfolding sample_slots_def set_concat set_map UN_iff bex_simps image_iff case_prod_beta
    by (auto intro!: bexI [of _ "(idx, ch, cat)"])
  then show ?thesis by (simp add: in_set_enumerate_eq)
qed

text \<open>A channel id holds no bar, so a key tells its channel and its time.\<close>

lemma bar_split: "CHR ''|'' \<notin> set a \<Longrightarrow> CHR ''|'' \<notin> set b \<Longrightarrow> a @ CHR ''|'' # x = b @ CHR ''|'' # y \<Longrightarrow> a = b \<and> x = y"
proof (induction a arbitrary: b)
  case Nil
  then show ?case by (cases b) auto
next
  case (Cons c a)
  then show ?case by (cases b) auto
qed

lemma channel_no_bar: "list_all (\<lambda>c. CHR ''|'' \<notin> set (fst c)) channel_defs"
  by code_simp

lemma slot_key:
  assumes "inj fmt" "(idx, ch, cat, i) \<in> set sample_slots" "(idx', ch', cat', i') \<in> set sample_slots"
    and "ch @ ''|'' @ fmt (dt_plus t (minutes (slot_minutes cat * int i))) =
      ch' @ ''|'' @ fmt (dt_plus t (minutes (slot_minutes cat' * int i')))"
  shows "(idx, ch, cat, i) = (idx', ch', cat', i')"
proof -
  have mem: "idx < length channel_defs" "channel_defs ! idx = (ch, cat)"
      "idx' < length channel_defs" "channel_defs ! idx' = (ch', cat')"
    using assms(2,3) by (simp_all add: set_sample_slots)
  then have "(ch, cat) \<in> set channel_defs" "(ch', cat') \<in> set channel_defs" by (metis nth_mem)+
  then have "CHR ''|'' \<notin> set ch" "CHR ''|'' \<notin> set ch'"
    using channel_no_bar unfolding list_all_iff by (metis fst_conv)+
  with assms(4) have eq: "ch = ch'" "fmt (dt_plus t (minutes (slot_minutes cat * int i))) =
      fmt (dt_plus t (minutes (slot_minutes cat' * int i')))"
    using bar_split [of ch ch'] by auto
  have "map fst channel_defs ! idx = map fst channel_defs ! idx'" using mem eq(1) by simp
  then have idx: "idx = idx'"
    using nth_eq_iff_index_eq [OF channel_ids_distinct] mem(1,3) by simp
  then have cat: "cat = cat'" using mem by simp
  have "slot_minutes cat * int i = slot_minutes cat * int i'"
    using injD [OF assms(1) eq(2)] cat by (simp add: dt_plus_def minutes_def us_per_second_def)
  then have "i = i'" by (simp add: slot_minutes_def split: if_splits)
  with idx eq(1) cat show ?thesis by simp
qed

text \<open>UUIDs whose first twelve digits differ.\<close>

definition hex_ok :: "(nat \<Rightarrow> string) \<Rightarrow> bool" where
  "hex_ok hex \<longleftrightarrow> inj_on (\<lambda>n. take 12 (hex n)) {..<780}"

lemma programs_apart:
  assumes "inj fmt" "hex_ok hex"
  shows "sorted_wrt (\<lambda>r r'. \<not> program_clash r r') (build_sample_programs txt fmt now hex sources)"
proof -
  let ?rows = "build_sample_programs txt fmt now hex sources"
  let ?split = "[src_id (sources ! 0), src_id (sources ! 1), src_id (sources ! 2)]"
  let ?t = "dt_plus now (- minutes (2 * 60))"
  have len: "length ?rows = 768" by (simp add: build_sample_programs_def length_sample_slots)
  have row: "\<exists>idx ch cat i. sample_slots ! n = (idx, ch, cat, i) \<and> (idx, ch, cat, i) \<in> set sample_slots \<and>
      prow_id (?rows ! n) = ''prog_'' @ take 12 (hex n) \<and>
      prow_identity_key (?rows ! n) = ch @ ''|'' @ fmt (dt_plus ?t (minutes (slot_minutes cat * int i)))"
    if "n < 768" for n
  proof -
    obtain idx ch cat i where s: "sample_slots ! n = (idx, ch, cat, i)" by (metis surj_pair)
    moreover have "(idx, ch, cat, i) \<in> set sample_slots"
      using s nth_mem [of n sample_slots] that by (simp add: length_sample_slots)
    ultimately show ?thesis using that
      by (simp add: build_sample_programs_def Let_def nth_enumerate_eq length_sample_slots sample_row_of_def seed_id_def)
  qed
  have "\<not> program_clash (?rows ! n) (?rows ! m)" if nm: "n < m" "m < 768" for n m
  proof
    assume clash: "program_clash (?rows ! n) (?rows ! m)"
    have n: "n < 768" using nm by simp
    obtain idx ch cat i where a: "sample_slots ! n = (idx, ch, cat, i)" "(idx, ch, cat, i) \<in> set sample_slots"
        "prow_id (?rows ! n) = ''prog_'' @ take 12 (hex n)"
        "prow_identity_key (?rows ! n) = ch @ ''|'' @ fmt (dt_plus ?t (minutes (slot_minutes cat * int i)))"
      using row [OF n] by blast
    obtain idx' ch' cat' i' where b: "sample_slots ! m = (idx', ch', cat', i')" "(idx', ch', cat', i') \<in> set sample_slots"
        "prow_id (?rows ! m) = ''prog_'' @ take 12 (hex m)"
        "prow_identity_key (?rows ! m) = ch' @ ''|'' @ fmt (dt_plus ?t (minutes (slot_minutes cat' * int i')))"
      using row [OF nm(2)] by blast
    have "take 12 (hex n) \<noteq> take 12 (hex m)"
      using inj_onD [OF assms(2) [unfolded hex_ok_def], of n m] nm by auto
    then have "prow_identity_key (?rows ! n) = prow_identity_key (?rows ! m)"
      using clash a(3) b(3) by (simp add: program_clash_def)
    then have "sample_slots ! n = sample_slots ! m"
      using slot_key [OF assms(1) a(2) b(2), of ?t] a(1,4) b(1,4) by simp
    then show False
      using nth_eq_iff_index_eq [OF sample_slots_distinct] nm by (simp add: length_sample_slots)
  qed
  with len show ?thesis by (simp add: sorted_wrt_iff_nth_less)
qed

lemma jobs_apart:
  assumes "hex_ok hex"
  shows "sorted_wrt (\<lambda>r r'. \<not> job_clash r r') (build_sample_jobs now (\<lambda>n. hex (768 + n)) sources)"
proof -
  have "take 12 (hex a) = take 12 (hex b) \<longleftrightarrow> a = b" if "a < 780" "b < 780" for a b
    using inj_on_eq_iff [OF assms [unfolded hex_ok_def], of a b] that by simp
  then show ?thesis
    by (simp add: build_sample_jobs_def job_specs_def job_clash_def seed_id_def Let_def)
qed

section \<open>What seeding leaves in the database\<close>

definition sources_of :: "seed_env \<Rightarrow> tv_source list" where
  "sources_of env = build_sample_sources (se_text env) (se_now env 0)"

definition programs_of :: "seed_env \<Rightarrow> program_row list" where
  "programs_of env =
     build_sample_programs (se_text env) (se_isoformat env) (se_now env 1) (se_hex env) (sources_of env)"

definition jobs_of :: "seed_env \<Rightarrow> job_row list" where
  "jobs_of env = build_sample_jobs (se_now env 2) (\<lambda>n. se_hex env (768 + n)) (sources_of env)"

definition seeded :: "seed_env \<Rightarrow> source_row set \<times> program_row set \<times> job_row set" where
  "seeded env =
     (source_store ` source_from_domain ` set (sources_of env), program_store ` set (programs_of env),
      job_store ` set (jobs_of env))"

lemma lengths: "length (sources_of env) = 3" "length (programs_of env) = 768" "length (jobs_of env) = 6"
  by (simp_all add: sources_of_def build_sample_sources_def programs_of_def build_sample_programs_def
      length_sample_slots jobs_of_def build_sample_jobs_def job_specs_def)

lemma sources_apart:
  "sorted_wrt (\<lambda>r r'. \<not> source_clash r r') (map source_from_domain (sources_of env))"
  by (simp add: sources_of_def build_sample_sources_def sample_source_of_def source_from_domain_def source_clash_def)

abbreviation seed_stats :: json where
  "seed_stats \<equiv> JObj [(''skipped'', JBool False), (''sources'', JInt 3), (''programs'', JInt 768), (''jobs'', JInt 6)]"

text \<open>The row of a slot.\<close>

lemma in_programs:
  "r \<in> set (programs_of env) \<longleftrightarrow>
     (\<exists>n idx ch cat i. n < 768 \<and> sample_slots ! n = (idx, ch, cat, i) \<and>
        r = sample_row_of (se_text env) (se_isoformat env) (se_now env 1)
              [''src_demo_iqiyi'', ''src_demo_cctv'', ''src_demo_iptv''] (se_hex env n) idx ch cat i)"
proof -
  have "map src_id (sources_of env) = [''src_demo_iqiyi'', ''src_demo_cctv'', ''src_demo_iptv'']"
    by (simp add: sources_of_def build_sample_sources_def sample_source_of_def)
  then have ids: "[src_id (sources_of env ! 0), src_id (sources_of env ! 1), src_id (sources_of env ! 2)] =
      [''src_demo_iqiyi'', ''src_demo_cctv'', ''src_demo_iptv'']"
    by (simp add: sources_of_def build_sample_sources_def sample_source_of_def)
  show ?thesis
    unfolding programs_of_def build_sample_programs_def Let_def ids set_map image_iff Bex_def in_set_enumerate_eq
    by (simp add: length_sample_slots split_paired_Ex, intro ex_cong1 conj_cong refl) (auto split: prod.splits)
qed

lemma sample_row_simps [simp]:
  "prow_channel_id (sample_row_of txt fmt now sids hex idx ch cat i) = ch"
  "prow_channel_country (sample_row_of txt fmt now sids hex idx ch cat i) = Some (country_of ch)"
  "prow_channel_language (sample_row_of txt fmt now sids hex idx ch cat i) = Some (language_of idx)"
  "prow_source_ids (sample_row_of txt fmt now sids hex idx ch cat i) = [sids ! (idx mod length sids)]"
  "dt_wall (prow_start_at (sample_row_of txt fmt now sids hex idx ch cat i)) =
     dt_wall now - minutes 120 + minutes (slot_minutes cat) * int i"
  "dt_wall (prow_end_at (sample_row_of txt fmt now sids hex idx ch cat i)) =
     dt_wall now - minutes 120 + minutes (slot_minutes cat) * int i + minutes (slot_minutes cat)"
  by (simp_all add: sample_row_of_def Let_def minutes_def)

text \<open>Every channel has exactly one programme at any moment of its 48 hours.\<close>

lemma slots_tile:
  assumes "(ch, cat) \<in> set channel_defs" and "0 \<le> t - w" and "t - w < minutes (48 * 60)"
  shows "\<exists>!n. n < 768 \<and> (\<exists>idx i. sample_slots ! n = (idx, ch, cat, i) \<and>
    w + minutes (slot_minutes cat) * int i \<le> t \<and> t < w + minutes (slot_minutes cat) * int i + minutes (slot_minutes cat))"
proof -
  let ?D = "minutes (slot_minutes cat)"
  have D: "0 < ?D" "?D * int (slot_count cat) = minutes (48 * 60)"
    by (simp_all add: minutes_def slot_minutes_def slot_count_def us_per_second_def)
  define i where "i = nat ((t - w) div ?D)"
  have nn: "0 \<le> (t - w) div ?D" using assms(2) D(1) by (simp add: pos_imp_zdiv_nonneg_iff)
  have "?D * int i = (t - w) - (t - w) mod ?D" using nn by (simp add: i_def minus_mod_eq_mult_div)
  then have q: "?D * int i \<le> t - w" "t - w < ?D * int i + ?D"
    using pos_mod_sign [OF D(1), of "t - w"] pos_mod_bound [OF D(1), of "t - w"] by linarith+
  then have "?D * int i < ?D * int (slot_count cat)" using assms(3) D(2) by simp
  then have i: "i < slot_count cat" using D(1) by (simp add: mult_less_cancel_left_pos)
  have at: "w + ?D * int j \<le> t \<and> t < w + ?D * int j + ?D \<longleftrightarrow> j = i" for j
  proof
    assume "w + ?D * int j \<le> t \<and> t < w + ?D * int j + ?D"
    then have "(t - w) div ?D = int j" by (intro int_div_pos_eq [of _ _ _ "t - w - ?D * int j"]) auto
    then show "j = i" by (simp add: i_def)
  qed (use q in auto)
  obtain idx where idx: "idx < length channel_defs" "channel_defs ! idx = (ch, cat)"
    using assms(1) by (metis in_set_conv_nth)
  then have "(idx, ch, cat, i) \<in> set sample_slots" using i by (simp add: set_sample_slots)
  then obtain n where n: "n < 768" "sample_slots ! n = (idx, ch, cat, i)"
    by (metis in_set_conv_nth length_sample_slots)
  show ?thesis
  proof (rule ex1I [of _ n])
    show "n < 768 \<and> (\<exists>idx j. sample_slots ! n = (idx, ch, cat, j) \<and> w + ?D * int j \<le> t \<and> t < w + ?D * int j + ?D)"
      using n at by blast
  next
    fix m
    assume "m < 768 \<and> (\<exists>idx j. sample_slots ! m = (idx, ch, cat, j) \<and> w + ?D * int j \<le> t \<and> t < w + ?D * int j + ?D)"
    then obtain idx' where m: "m < 768" "sample_slots ! m = (idx', ch, cat, i)" unfolding at by blast
    then have "(idx', ch, cat, i) \<in> set sample_slots" using nth_mem [of m sample_slots] by (simp add: length_sample_slots)
    then have "idx' < length channel_defs" "channel_defs ! idx' = (ch, cat)" by (simp_all add: set_sample_slots)
    with idx have "idx' = idx"
      using nth_eq_iff_index_eq [OF channel_ids_distinct, of idx' idx] by simp
    with m n show "m = n"
      using nth_eq_iff_index_eq [OF sample_slots_distinct, of m n] by (simp add: length_sample_slots)
  qed
qed

lemma store_end [simp]: "dt_wall (prow_end_at (program_store r)) = dt_wall (prow_end_at r)"
  by (simp add: program_store_def)

lemma seeded_tiles:
  assumes "(ch, cat) \<in> set channel_defs" and "0 \<le> t - (dt_wall (se_now env 1) - minutes 120)"
    and "t - (dt_wall (se_now env 1) - minutes 120) < minutes (48 * 60)"
  shows "\<exists>!r. r \<in> fst (snd (seeded env)) \<and> prow_channel_id r = ch \<and>
    dt_wall (prow_start_at r) \<le> t \<and> t < dt_wall (prow_end_at r)"
proof -
  let ?w = "dt_wall (se_now env 1) - minutes 120" and ?D = "minutes (slot_minutes cat)"
  let ?at = "\<lambda>n. n < 768 \<and> (\<exists>idx i. sample_slots ! n = (idx, ch, cat, i) \<and> ?w + ?D * int i \<le> t \<and> t < ?w + ?D * int i + ?D)"
  let ?row = "\<lambda>n idx ch cat i. sample_row_of (se_text env) (se_isoformat env) (se_now env 1)
    [''src_demo_iqiyi'', ''src_demo_cctv'', ''src_demo_iptv''] (se_hex env n) idx ch cat i"
  have one: "\<exists>!n. ?at n" by (rule slots_tile [OF assms])
  have cat: "cat' = cat" if "n < 768" "sample_slots ! n = (idx, ch, cat', i)" for n idx cat' i
  proof -
    have "(idx, ch, cat', i) \<in> set sample_slots" using that nth_mem [of n sample_slots] by (simp add: length_sample_slots)
    then have "(ch, cat') \<in> set channel_defs" by (metis set_sample_slots nth_mem)
    with assms(1) channel_ids_distinct show ?thesis by (metis eq_key_imp_eq_value)
  qed
  obtain n idx i where n: "?at n" "n < 768" "sample_slots ! n = (idx, ch, cat, i)"
      "?w + ?D * int i \<le> t" "t < ?w + ?D * int i + ?D"
    using one by blast
  show ?thesis
  proof (rule ex1I [of _ "program_store (?row n idx ch cat i)"])
    have "?row n idx ch cat i \<in> set (programs_of env)" unfolding in_programs using n by blast
    then show "program_store (?row n idx ch cat i) \<in> fst (snd (seeded env)) \<and>
        prow_channel_id (program_store (?row n idx ch cat i)) = ch \<and>
        dt_wall (prow_start_at (program_store (?row n idx ch cat i))) \<le> t \<and>
        t < dt_wall (prow_end_at (program_store (?row n idx ch cat i)))"
      using n by (simp add: seeded_def)
  next
    fix r
    assume r: "r \<in> fst (snd (seeded env)) \<and> prow_channel_id r = ch \<and> dt_wall (prow_start_at r) \<le> t \<and> t < dt_wall (prow_end_at r)"
    then obtain r' where r': "r' \<in> set (programs_of env)" "r = program_store r'" by (auto simp: seeded_def)
    then obtain m idx' ch' cat' j where m: "m < 768" "sample_slots ! m = (idx', ch', cat', j)" "r' = ?row m idx' ch' cat' j"
      unfolding in_programs by blast
    with r r' have ch: "ch' = ch" by simp
    with cat m have cat: "cat' = cat" by blast
    have "?at m" using r r'(2) m ch cat by simp
    with one n(1) have "m = n" by blast
    with m n ch cat r'(2) show "r = program_store (?row n idx ch cat i)" by simp
  qed
qed

lemma british_in_chinese:
  "list_all (\<lambda>(idx, ch, cat). country_of ch = ''GB'' \<longrightarrow> language_of idx = ''zh-CN'') (enumerate 0 channel_defs)"
  by code_simp

lemma seeded_program:
  assumes "r \<in> fst (snd (seeded env))"
  shows "set (prow_source_ids r) \<subseteq> srow_id ` fst (seeded env)"
    and "prow_channel_country r = Some ''GB'' \<Longrightarrow> prow_channel_language r = Some ''zh-CN''"
proof -
  obtain n idx ch cat i where r: "n < 768" "sample_slots ! n = (idx, ch, cat, i)"
      "prow_source_ids r = [[''src_demo_iqiyi'', ''src_demo_cctv'', ''src_demo_iptv''] ! (idx mod 3)]"
      "prow_channel_country r = Some (country_of ch)" "prow_channel_language r = Some (language_of idx)"
    using assms by (auto simp: seeded_def in_programs program_store_def)
  have "srow_id ` fst (seeded env) = {''src_demo_iqiyi'', ''src_demo_cctv'', ''src_demo_iptv''}"
    by (auto simp: seeded_def sources_of_def build_sample_sources_def sample_source_of_def source_from_domain_def)
  moreover have "[''src_demo_iqiyi'', ''src_demo_cctv'', ''src_demo_iptv''] ! (idx mod 3) \<in>
      set [''src_demo_iqiyi'', ''src_demo_cctv'', ''src_demo_iptv'']"
    by (rule nth_mem) simp
  ultimately show "set (prow_source_ids r) \<subseteq> srow_id ` fst (seeded env)" using r(3) by simp
  have "(idx, ch, cat, i) \<in> set sample_slots" using r nth_mem [of n sample_slots] by (simp add: length_sample_slots)
  then have "(idx, ch, cat) \<in> set (enumerate 0 channel_defs)" by (simp add: set_sample_slots in_set_enumerate_eq)
  then have "country_of ch = ''GB'' \<longrightarrow> language_of idx = ''zh-CN''"
    using british_in_chinese unfolding list_all_iff by blast
  then show "prow_channel_language r = Some ''zh-CN''" if "prow_channel_country r = Some ''GB''"
    using that r(4,5) by simp
qed

lemma seeded_cards:
  assumes "inj (se_isoformat env)" "hex_ok (se_hex env)"
  shows "card (fst (seeded env)) = 3" "card (fst (snd (seeded env))) = 768" "card (snd (snd (seeded env))) = 6"
  using source_table.card_apart [OF sources_apart, of env] program_table.card_apart [OF programs_apart [OF assms]]
    job_table.card_apart [OF jobs_apart [OF assms(2)]] lengths [of env]
  by (simp_all add: seeded_def programs_of_def jobs_of_def)

text \<open>
  The database seeding works on: three tables in one session, and what of them is committed.
  \<open>DELETE\<close> empties its table.
\<close>

locale seed_service =
  fixes db :: "'s seed_db" and sview :: "'s \<Rightarrow> source_row set option"
    and pview :: "'s \<Rightarrow> program_row set option" and jview :: "'s \<Rightarrow> job_row set option"
    and life :: "'s session_life" and disk :: "'s \<Rightarrow> source_row set \<times> program_row set \<times> job_row set"
  assumes sessions: "source_session (sd_sources db) sview" "program_session (sd_programs db) pview"
      "job_session (sd_jobs db) jview"
    and frames: "shares_session (sd_sources db) sview pview" "shares_session (sd_sources db) sview jview"
      "shares_session (sd_programs db) pview sview" "shares_session (sd_programs db) pview jview"
      "shares_session (sd_jobs db) jview sview" "shares_session (sd_jobs db) jview pview"
    and outside: "session_frame (sd_sources db) disk"
    and open_sees: "sview (sl_open life s) = Some (fst (disk s))" "pview (sl_open life s) = Some (fst (snd (disk s)))"
      "jview (sl_open life s) = Some (snd (snd (disk s)))"
    and ends_keep: "disk (sl_open life s) = disk s" "disk (sl_close life s) = disk s"
    and commit_ok: "sview s = Some S \<Longrightarrow> pview s = Some P \<Longrightarrow> jview s = Some J \<Longrightarrow>
      \<exists>s'. sl_commit life s = (Inr (), s') \<and> disk s' = (S, P, J)"
    and clear: "sview s = Some S \<Longrightarrow> pview s = Some P \<Longrightarrow> jview s = Some J \<Longrightarrow>
        \<exists>s'. sd_clear_sources db s = (Inr (), s') \<and> sview s' = Some {} \<and> pview s' = Some P \<and> jview s' = Some J"
      "sview s = Some S \<Longrightarrow> pview s = Some P \<Longrightarrow> jview s = Some J \<Longrightarrow>
        \<exists>s'. sd_clear_programs db s = (Inr (), s') \<and> sview s' = Some S \<and> pview s' = Some {} \<and> jview s' = Some J"
      "sview s = Some S \<Longrightarrow> pview s = Some P \<Longrightarrow> jview s = Some J \<Longrightarrow>
        \<exists>s'. sd_clear_jobs db s = (Inr (), s') \<and> sview s' = Some S \<and> pview s' = Some P \<and> jview s' = Some {}"
begin

lemmas tables =
  sessions(1) [unfolded source_session_def] sessions(2) [unfolded program_session_def]
  sessions(3) [unfolded job_session_def]

lemma seeds_empty:
  assumes "disk s = ({}, {}, {})" "inj (se_isoformat env)" "hex_ok (se_hex env)"
  shows "\<exists>s'. seed_if_empty life db env s = (Inr seed_stats, s') \<and> disk s' = seeded env"
proof -
  have v: "sview (sl_open life s) = Some {}" "pview (sl_open life s) = Some {}" "jview (sl_open life s) = Some {}"
    by (simp_all add: open_sees assms(1))
  obtain xs s1 where xs: "exec_select (sd_sources db) select_all (sl_open life s) = (Inr xs, s1)"
      "sview s1 = Some {}" "answers select_all {} (map source_store xs)"
    using sql_session.select [OF tables(1) v(1), of select_all] by blast
  then have "xs = []" using answers_unlimited [of select_all "{}"] by fastforce
  have s1: "pview s1 = Some {}" "jview s1 = Some {}"
    using shares_sessionD(1) [OF frames(1) v(1) xs(1)] shares_sessionD(1) [OF frames(2) v(1) xs(1)] v by simp_all
  let ?s2 = "add_all (sd_sources db) (map source_from_domain (sources_of env)) s1"
  let ?s3 = "add_all (sd_programs db) (programs_of env) ?s2"
  let ?s4 = "add_all (sd_jobs db) (jobs_of env) ?s3"
  have sources_keep: "v ?s2 = v s1" if "shares_session (sd_sources db) sview v" for v :: "'s \<Rightarrow> 'v"
    using sql_session.add_all_shares [OF tables(1) that xs(2) _ sources_apart] by simp
  have sv2: "sview ?s2 = Some (fst (seeded env))"
    using sql_session.view_add_all [OF tables(1) xs(2) _ sources_apart] by (simp add: seeded_def image_image)
  have pv2: "pview ?s2 = Some {}" and jv2: "jview ?s2 = Some {}"
    using sources_keep [OF frames(1)] sources_keep [OF frames(2)] s1 by simp_all
  have programs_keep: "v ?s3 = v ?s2" if "shares_session (sd_programs db) pview v" for v :: "'s \<Rightarrow> 'v"
    using sql_session.add_all_shares [OF tables(2) that pv2 _ programs_apart [OF assms(2,3)], of "se_text env" "se_now env 1" "sources_of env"]
    by (simp add: programs_of_def)
  have pv3: "pview ?s3 = Some (fst (snd (seeded env)))"
    using sql_session.view_add_all [OF tables(2) pv2 _ programs_apart [OF assms(2,3)], of "se_text env" "se_now env 1" "sources_of env"]
    by (simp add: seeded_def programs_of_def)
  have sv3: "sview ?s3 = Some (fst (seeded env))" and jv3: "jview ?s3 = Some {}"
    using programs_keep [OF frames(3)] programs_keep [OF frames(4)] sv2 jv2 by simp_all
  have jobs_keep: "v ?s4 = v ?s3" if "shares_session (sd_jobs db) jview v" for v :: "'s \<Rightarrow> 'v"
    using sql_session.add_all_shares [OF tables(3) that jv3 _ jobs_apart [OF assms(3)], of "se_now env 2" "sources_of env"]
    by (simp add: jobs_of_def)
  have jv: "jview ?s4 = Some (snd (snd (seeded env)))"
    using sql_session.view_add_all [OF tables(3) jv3 _ jobs_apart [OF assms(3)], of "se_now env 2" "sources_of env"]
    by (simp add: seeded_def jobs_of_def)
  have sv: "sview ?s4 = Some (fst (seeded env))" and pv: "pview ?s4 = Some (fst (snd (seeded env)))"
    using jobs_keep [OF frames(5)] jobs_keep [OF frames(6)] sv3 pv3 by simp_all
  obtain s5 where s5: "sl_commit life ?s4 = (Inr (), s5)" "disk s5 = seeded env"
    using commit_ok [OF sv pv jv] by auto
  have "seed_insert life db (sources_of env) (programs_of env) (jobs_of env) s1 = (Inr seed_stats, s5)"
    by (simp add: seed_insert_def bindE_def s5(1) lengths)
  then have "seed_if_empty life db env s = (Inr seed_stats, sl_close life s5)"
    using xs(1) \<open>xs = []\<close> lengths(2) [of env]
    by (simp add: seed_if_empty_def with_session_def bindE_def Let_def sources_of_def programs_of_def jobs_of_def)
  with s5(2) show ?thesis by (simp add: ends_keep)
qed

lemma seeds_once:
  assumes "fst (disk s) \<noteq> {}"
  shows "\<exists>s'. seed_if_empty life db env s =
      (Inr (JObj [(''skipped'', JBool True), (''reason'', JStr ''db not empty'')]), s') \<and> disk s' = disk s"
proof -
  obtain xs s1 where xs: "exec_select (sd_sources db) select_all (sl_open life s) = (Inr xs, s1)"
      "answers select_all (fst (disk s)) (map source_store xs)"
    using sql_session.select [OF tables(1) open_sees(1), of select_all s] by blast
  then have "xs \<noteq> []" using answers_unlimited [of select_all "fst (disk s)"] assms by fastforce
  moreover have "disk s1 = disk s"
    using session_frame_simps(1) [OF outside, of select_all "sl_open life s"] xs(1) by (simp add: ends_keep)
  ultimately show ?thesis using xs(1)
    by (cases xs) (simp_all add: seed_if_empty_def with_session_def bindE_def ends_keep)
qed

lemma reset_seeds:
  assumes "inj (se_isoformat env)" "hex_ok (se_hex env)"
  shows "\<exists>s'. reset_and_seed life db env s = (Inr seed_stats, s') \<and> disk s' = seeded env"
proof -
  obtain s1 where s1: "sd_clear_programs db (sl_open life s) = (Inr (), s1)" "sview s1 = Some (fst (disk s))"
      "pview s1 = Some {}" "jview s1 = Some (snd (snd (disk s)))"
    using clear(2) [OF open_sees] by blast
  obtain s2 where s2: "sd_clear_jobs db s1 = (Inr (), s2)" "sview s2 = Some (fst (disk s))"
      "pview s2 = Some {}" "jview s2 = Some {}"
    using clear(3) [OF s1(2-4)] by blast
  obtain s3 where s3: "sd_clear_sources db s2 = (Inr (), s3)" "sview s3 = Some {}" "pview s3 = Some {}" "jview s3 = Some {}"
    using clear(1) [OF s2(2-4)] by blast
  obtain s4 where s4: "sl_commit life s3 = (Inr (), s4)" "disk s4 = ({}, {}, {})"
    using commit_ok [OF s3(2-4)] by blast
  then have "disk (sl_close life s4) = ({}, {}, {})" by (simp add: ends_keep)
  from seeds_empty [OF this assms] obtain s5 where
    "seed_if_empty life db env (sl_close life s4) = (Inr seed_stats, s5)" "disk s5 = seeded env" by blast
  then show ?thesis
    by (simp add: reset_and_seed_def with_session_def bindE_def s1(1) s2(1) s3(1) s4(1))
qed

end

section \<open>The three tables in memory\<close>

type_synonym seed_mem =
  "(source_row list option \<times> program_row list option \<times> job_row list option) \<times>
   source_row list \<times> program_row list \<times> job_row list"

definition seed_life :: "seed_mem session_life" where
  "seed_life =
     \<lparr>sl_open = (\<lambda>(_, a, b, c).
        ((Some (mem_clean source_clash source_store a), Some (mem_clean program_clash program_store b),
          Some (mem_clean job_clash job_store c)), a, b, c)),
      sl_commit = (\<lambda>((x, y, z), a, b, c).
        case (mem_rows source_clash source_store x, mem_rows program_clash program_store y,
              mem_rows job_clash job_store z) of
          (Some a', Some b', Some c') \<Rightarrow> (Inr (), ((x, y, z), a', b', c'))
        | _ \<Rightarrow> (Inl (Exn IntegrityError ''UNIQUE constraint failed''), ((x, y, z), a, b, c))),
      sl_rollback = (\<lambda>(_, d). ((None, None, None), d)), sl_close = (\<lambda>(_, d). ((None, None, None), d))\<rparr>"

definition seed_disk :: "seed_mem \<Rightarrow> source_row set \<times> program_row set \<times> job_row set" where
  "seed_disk s =
     (set (mem_clean source_clash source_store (fst (snd s))),
      set (mem_clean program_clash program_store (fst (snd (snd s)))),
      set (mem_clean job_clash job_store (snd (snd (snd s)))))"

definition seed_tables :: "seed_mem seed_db" where
  "seed_tables =
     \<lparr>sd_sources = on_fst (on_fst mem_sources), sd_programs = on_fst (on_snd (on_fst mem_programs)),
      sd_jobs = on_fst (on_snd (on_snd mem_jobs)),
      sd_clear_sources = (\<lambda>((x, y, z), d). (Inr (), ((Some [], y, z), d))),
      sd_clear_programs = (\<lambda>((x, y, z), d). (Inr (), ((x, Some [], z), d))),
      sd_clear_jobs = (\<lambda>((x, y, z), d). (Inr (), ((x, y, Some []), d)))\<rparr>"

lemma session_frame_snd: "session_frame api v \<Longrightarrow> session_frame (on_snd api) (\<lambda>s. v (snd s))"
  by (auto simp: session_frame_def on_snd_def split: prod.splits)

lemma seed_tables_simps [simp]:
  "sd_sources seed_tables = on_fst (on_fst mem_sources)"
  "sd_programs seed_tables = on_fst (on_snd (on_fst mem_programs))"
  "sd_jobs seed_tables = on_fst (on_snd (on_snd mem_jobs))"
  by (simp_all add: seed_tables_def)

lemma mem_view_Nil: "mem_view c st (Some []) = Some {}"
  by (simp add: mem_view_eq_Some mem_ok_def)

interpretation mem_seed: seed_service seed_tables
  "\<lambda>s. mem_sources_view (fst (fst s))" "\<lambda>s. mem_programs_view (fst (snd (fst s)))"
  "\<lambda>s. mem_jobs_view (snd (snd (fst s)))" seed_life seed_disk
proof (intro seed_service.intro)
  show "source_session (sd_sources seed_tables) (\<lambda>s. mem_sources_view (fst (fst s)))"
    unfolding source_session_def seed_tables_simps
    by (intro sql_session_on_fst) (rule source_table.mem.sql_session_axioms)
  show "program_session (sd_programs seed_tables) (\<lambda>s. mem_programs_view (fst (snd (fst s))))"
    unfolding program_session_def seed_tables_simps
    by (rule sql_session_on_fst [where view = "\<lambda>s. mem_programs_view (fst (snd s))"],
        rule sql_session_on_snd [where view = "\<lambda>s. mem_programs_view (fst s)"], rule sql_session_on_fst)
      (rule program_table.mem.sql_session_axioms)
  show "job_session (sd_jobs seed_tables) (\<lambda>s. mem_jobs_view (snd (snd (fst s))))"
    unfolding job_session_def seed_tables_simps
    by (rule sql_session_on_fst [where view = "\<lambda>s. mem_jobs_view (snd (snd s))"],
        rule sql_session_on_snd [where view = "\<lambda>s. mem_jobs_view (snd s)"], rule sql_session_on_snd)
      (rule job_table.mem.sql_session_axioms)
  show "shares_session (sd_sources seed_tables) (\<lambda>s. mem_sources_view (fst (fst s))) (\<lambda>s. mem_programs_view (fst (snd (fst s))))"
    unfolding seed_tables_simps
    by (rule session_frame_shares, rule session_frame_fst [where v = "\<lambda>s. mem_programs_view (fst (snd s))"], rule session_frame_on_fst)
  show "shares_session (sd_sources seed_tables) (\<lambda>s. mem_sources_view (fst (fst s))) (\<lambda>s. mem_jobs_view (snd (snd (fst s))))"
    unfolding seed_tables_simps
    by (rule session_frame_shares, rule session_frame_fst [where v = "\<lambda>s. mem_jobs_view (snd (snd s))"], rule session_frame_on_fst)
  show "shares_session (sd_programs seed_tables) (\<lambda>s. mem_programs_view (fst (snd (fst s)))) (\<lambda>s. mem_sources_view (fst (fst s)))"
    "shares_session (sd_jobs seed_tables) (\<lambda>s. mem_jobs_view (snd (snd (fst s)))) (\<lambda>s. mem_sources_view (fst (fst s)))"
    unfolding seed_tables_simps
    by (rule session_frame_shares, rule session_frame_fst [where v = "\<lambda>s. mem_sources_view (fst s)"], rule session_frame_on_snd)+
  show "shares_session (sd_programs seed_tables) (\<lambda>s. mem_programs_view (fst (snd (fst s)))) (\<lambda>s. mem_jobs_view (snd (snd (fst s))))"
    unfolding seed_tables_simps
    by (rule session_frame_shares, rule session_frame_fst [where v = "\<lambda>s. mem_jobs_view (snd (snd s))"],
        rule session_frame_snd [where v = "\<lambda>s. mem_jobs_view (snd s)"], rule session_frame_on_fst)
  show "shares_session (sd_jobs seed_tables) (\<lambda>s. mem_jobs_view (snd (snd (fst s)))) (\<lambda>s. mem_programs_view (fst (snd (fst s))))"
    unfolding seed_tables_simps
    by (rule session_frame_shares, rule session_frame_fst [where v = "\<lambda>s. mem_programs_view (fst (snd s))"],
        rule session_frame_snd [where v = "\<lambda>s. mem_programs_view (fst s)"], rule session_frame_on_snd)
  show "session_frame (sd_sources seed_tables) seed_disk"
    unfolding seed_tables_simps seed_disk_def by (rule session_frame_on_fst)
next
  fix s :: seed_mem and S P J
  assume v: "mem_sources_view (fst (fst s)) = Some S" "mem_programs_view (fst (snd (fst s))) = Some P"
    "mem_jobs_view (snd (snd (fst s))) = Some J"
  then show "\<exists>s'. sl_commit seed_life s = (Inr (), s') \<and> seed_disk s' = (S, P, J)"
    by (auto simp: seed_life_def seed_disk_def mem_clean_def mem_view_def mem_rows_def
        split: prod.splits option.splits if_splits)
  show "\<exists>s'. sd_clear_sources seed_tables s = (Inr (), s') \<and> mem_sources_view (fst (fst s')) = Some {} \<and>
      mem_programs_view (fst (snd (fst s'))) = Some P \<and> mem_jobs_view (snd (snd (fst s'))) = Some J"
    "\<exists>s'. sd_clear_programs seed_tables s = (Inr (), s') \<and> mem_sources_view (fst (fst s')) = Some S \<and>
      mem_programs_view (fst (snd (fst s'))) = Some {} \<and> mem_jobs_view (snd (snd (fst s'))) = Some J"
    "\<exists>s'. sd_clear_jobs seed_tables s = (Inr (), s') \<and> mem_sources_view (fst (fst s')) = Some S \<and>
      mem_programs_view (fst (snd (fst s'))) = Some P \<and> mem_jobs_view (snd (snd (fst s'))) = Some {}"
    using v by (auto simp: seed_tables_def mem_view_Nil split: prod.splits)
qed (auto simp: seed_life_def seed_disk_def mem_view_clean split: prod.splits)

text \<open>A clock, a rendering of times and UUIDs for the witnesses: times in unary, numbers as two digits of base 256.\<close>

definition unary :: "int \<Rightarrow> string" where
  "unary i = (if i < 0 then CHR ''-'' else CHR ''+'') # replicate (nat \<bar>i\<bar>) CHR ''x''"

definition demo_isoformat :: "datetime \<Rightarrow> string" where
  "demo_isoformat d = unary (dt_wall d) @ (case dt_off d of None \<Rightarrow> [] | Some z \<Rightarrow> unary z)"

definition demo_seed :: seed_env where
  "demo_seed =
     \<lparr>se_text = \<lparr>st_titles = (\<lambda>_. [''News'']), st_channel_name = id, st_source_name = id, st_describe = (\<lambda>t c. t)\<rparr>,
      se_isoformat = demo_isoformat, se_now = (\<lambda>_. sample_time),
      se_hex = (\<lambda>n. [char_of (n div 256), char_of (n mod 256)])\<rparr>"

lemma replicate_split:
  "replicate n c @ r = replicate m c @ r' \<Longrightarrow> r = [] \<or> hd r \<noteq> c \<Longrightarrow> r' = [] \<or> hd r' \<noteq> c \<Longrightarrow> n = m \<and> r = r'"
proof (induction n arbitrary: m)
  case 0
  then show ?case by (cases m) auto
next
  case (Suc n)
  then show ?case by (cases m) auto
qed

lemma unary_split:
  "unary i @ r = unary j @ r' \<Longrightarrow> r = [] \<or> hd r \<noteq> CHR ''x'' \<Longrightarrow> r' = [] \<or> hd r' \<noteq> CHR ''x'' \<Longrightarrow> i = j \<and> r = r'"
  using replicate_split [of "nat \<bar>i\<bar>" "CHR ''x''" r "nat \<bar>j\<bar>" r'] by (auto simp: unary_def split: if_splits)

lemma unary_simps: "unary i \<noteq> []" "hd (unary i) \<noteq> CHR ''x''" "unary i = unary j \<longleftrightarrow> i = j"
  using unary_split [of i "[]" j "[]"] by (auto simp: unary_def)

lemma demo_isoformat_inj: "inj demo_isoformat"
proof (rule injI)
  fix a b
  assume "demo_isoformat a = demo_isoformat b"
  then have eq: "dt_wall a = dt_wall b \<and>
      (case dt_off a of None \<Rightarrow> [] | Some z \<Rightarrow> unary z) = (case dt_off b of None \<Rightarrow> [] | Some z \<Rightarrow> unary z)"
    unfolding demo_isoformat_def by (rule unary_split) (simp_all add: unary_simps split: option.split)
  then have "dt_off a = dt_off b"
    by (cases "dt_off a"; cases "dt_off b") (simp_all add: unary_simps unary_simps(1) [symmetric])
  with eq show "a = b" by (simp add: datetime.expand)
qed

lemma demo_hex_ok: "hex_ok (se_hex demo_seed)"
proof -
  have digit: "a = b" if "char_of a = (char_of b :: char)" "a < 256" "b < 256" for a b :: nat
    using arg_cong [OF that(1), of "of_char :: char \<Rightarrow> nat"] that(2,3) by (simp add: of_char_of)
  have "n = m" if "n < 780" "m < 780" "char_of (n div 256) = (char_of (m div 256) :: char)"
      "char_of (n mod 256) = (char_of (m mod 256) :: char)" for n m :: nat
  proof -
    have "n div 256 = m div 256" by (rule digit [OF that(3)]) (use that(1,2) in linarith)+
    moreover have "n mod 256 = m mod 256" by (rule digit [OF that(4)]) simp_all
    ultimately show ?thesis by (metis div_mult_mod_eq)
  qed
  then show ?thesis unfolding hex_ok_def demo_seed_def by (intro inj_onI) (simp del: char_of_nat)
qed

section \<open>Property\<close>

text \<open>
  C31: seeding fills an empty database once.  Whatever the clock and the UUIDs (as long as
  their first twelve digits differ), an empty database and one that is reset end in the same
  rows: three active sources, 768 programmes and six jobs, all of them of these sources, and
  each of the twelve channels has exactly one programme at any moment from two hours ago to 46
  hours ahead.  Seeding a database that has a source changes nothing.  The British channels
  are marked as Chinese-speaking, because the language is taken from the wrong part of the
  channel list.
\<close>

theorem seeding_fills_once:
  assumes "seed_service db sview pview jview life disk" and "inj (se_isoformat env)" and "hex_ok (se_hex env)"
  shows "\<exists>S P J. card S = 3 \<and> card P = 768 \<and> card J = 6 \<and>
    (\<forall>r \<in> S. srow_status r = ''active'') \<and>
    (\<forall>(ch, cat) \<in> set channel_defs. \<forall>t.
       dt_wall (se_now env 1) - minutes 120 \<le> t \<and> t < dt_wall (se_now env 1) + minutes (46 * 60) \<longrightarrow>
       (\<exists>!r. r \<in> P \<and> prow_channel_id r = ch \<and> dt_wall (prow_start_at r) \<le> t \<and> t < dt_wall (prow_end_at r))) \<and>
    (\<forall>r \<in> P. set (prow_source_ids r) \<subseteq> srow_id ` S) \<and> (\<forall>r \<in> J. jrow_source_id r \<in> srow_id ` S) \<and>
    (\<forall>r \<in> P. prow_channel_country r = Some ''GB'' \<longrightarrow> prow_channel_language r = Some ''zh-CN'') \<and>
    (\<forall>s. disk s = ({}, {}, {}) \<longrightarrow>
       (\<exists>s'. seed_if_empty life db env s = (Inr seed_stats, s') \<and> disk s' = (S, P, J))) \<and>
    (\<forall>s. \<exists>s'. reset_and_seed life db env s = (Inr seed_stats, s') \<and> disk s' = (S, P, J)) \<and>
    (\<forall>s env'. fst (disk s) \<noteq> {} \<longrightarrow>
       (\<exists>s'. seed_if_empty life db env' s =
          (Inr (JObj [(''skipped'', JBool True), (''reason'', JStr ''db not empty'')]), s') \<and> disk s' = disk s))"
proof -
  obtain S P J where spj: "seeded env = (S, P, J)" by (metis surj_pair)
  have active: "\<forall>r \<in> S. srow_status r = ''active''"
    using spj by (auto simp: seeded_def sources_of_def build_sample_sources_def sample_source_of_def source_from_domain_def)
  have "\<exists>!r. r \<in> P \<and> prow_channel_id r = ch \<and> dt_wall (prow_start_at r) \<le> t \<and> t < dt_wall (prow_end_at r)"
    if "(ch, cat) \<in> set channel_defs" "dt_wall (se_now env 1) - minutes 120 \<le> t \<and> t < dt_wall (se_now env 1) + minutes (46 * 60)" for ch cat t
    using seeded_tiles [OF that(1), of t env] that(2) spj by (simp add: minutes_def)
  then have tile: "\<forall>(ch, cat) \<in> set channel_defs. \<forall>t.
       dt_wall (se_now env 1) - minutes 120 \<le> t \<and> t < dt_wall (se_now env 1) + minutes (46 * 60) \<longrightarrow>
       (\<exists>!r. r \<in> P \<and> prow_channel_id r = ch \<and> dt_wall (prow_start_at r) \<le> t \<and> t < dt_wall (prow_end_at r))"
    by (intro ballI, clarify, metis)
  have programs: "\<forall>r \<in> P. set (prow_source_ids r) \<subseteq> srow_id ` S"
    "\<forall>r \<in> P. prow_channel_country r = Some ''GB'' \<longrightarrow> prow_channel_language r = Some ''zh-CN''"
    using seeded_program [of _ env] spj by simp_all
  have jobs: "\<forall>r \<in> J. jrow_source_id r \<in> srow_id ` S"
    using spj by (auto simp: seeded_def jobs_of_def build_sample_jobs_def job_specs_def job_store_def Let_def
        sources_of_def build_sample_sources_def sample_source_of_def source_from_domain_def)
  note cards = seeded_cards [OF assms(2,3), unfolded spj fst_conv snd_conv]
  note outcome = seed_service.seeds_empty [OF assms(1) _ assms(2,3), unfolded spj]
    seed_service.reset_seeds [OF assms, unfolded spj] seed_service.seeds_once [OF assms(1)]
  show ?thesis
    by (intro exI [of _ S] exI [of _ P] exI [of _ J] conjI allI impI cards active tile programs jobs outcome)
qed

theorem seeding_fills_once_witness:
  "\<exists>s' P. reset_and_seed seed_life seed_tables demo_seed ((None, None, None), [], [], []) = (Inr seed_stats, s') \<and>
    fst (snd (seed_disk s')) = P \<and> card P = 768 \<and>
    (\<exists>!r. r \<in> P \<and> prow_channel_id r = ''ch_bbc1'' \<and> dt_wall (prow_start_at r) \<le> dt_wall sample_time \<and>
       dt_wall sample_time < dt_wall (prow_end_at r))"
proof -
  have inj: "inj (se_isoformat demo_seed)" by (simp add: demo_seed_def demo_isoformat_inj)
  have now: "dt_wall (se_now demo_seed 1) = dt_wall sample_time" by (simp add: demo_seed_def)
  have ch: "(''ch_bbc1'', ''drama'') \<in> set channel_defs" by (simp add: channel_defs_def)
  obtain S P J where r: "card P = 768"
    "\<forall>(ch, cat) \<in> set channel_defs. \<forall>t. dt_wall (se_now demo_seed 1) - minutes 120 \<le> t \<and>
       t < dt_wall (se_now demo_seed 1) + minutes (46 * 60) \<longrightarrow>
       (\<exists>!r. r \<in> P \<and> prow_channel_id r = ch \<and> dt_wall (prow_start_at r) \<le> t \<and> t < dt_wall (prow_end_at r))"
    "\<forall>s. \<exists>s'. reset_and_seed seed_life seed_tables demo_seed s = (Inr seed_stats, s') \<and> seed_disk s' = (S, P, J)"
    using seeding_fills_once [OF mem_seed.seed_service_axioms inj demo_hex_ok] by (elim exE conjE) (rule that)
  obtain s' where "reset_and_seed seed_life seed_tables demo_seed ((None, None, None), [], [], []) = (Inr seed_stats, s')"
      "seed_disk s' = (S, P, J)"
    using r(3) by blast
  moreover have "\<exists>!r. r \<in> P \<and> prow_channel_id r = ''ch_bbc1'' \<and> dt_wall (prow_start_at r) \<le> dt_wall sample_time \<and>
      dt_wall sample_time < dt_wall (prow_end_at r)"
    using bspec [OF r(2) ch] unfolding prod.case now by (simp add: minutes_def us_per_second_def)
  ultimately show ?thesis using r(1) by (intro exI [of _ s'] exI [of _ P]) simp
qed

end
