(* ===== verification/Routing.thy ===== *)
theory Routing
  imports SourcesApi Seed
begin

text \<open>
  The HTTP interface as \<open>create_app\<close> of \<open>interfaces/api/app.py\<close> puts it together: the endpoints the
  routers of \<open>interfaces/api/routers\<close> declare, with their methods, paths, role dependencies and
  request limits, the prefixes under which they are included, and what a request meets before
  the body of its endpoint runs.  Starlette's choice of a route is library code: the locale
  \<open>http_router\<close> states what its documentation says of it.
\<close>

section \<open>Routes\<close>

text \<open>
  A route: its methods (\<open>None\<close> for a mount, which takes all), its path template, the function
  behind it, the role of \<open>Depends(require_role(...))\<close> and the limit of \<open>@limiter.limit(...)\<close>.
\<close>

record route =
  rt_methods :: "string list option"
  rt_path :: string
  rt_endpoint :: string
  rt_role :: "string option"
  rt_limit :: "string option"

definition api_route :: "string \<Rightarrow> string \<Rightarrow> string \<Rightarrow> route" where
  "api_route method path f =
     \<lparr>rt_methods = Some [method], rt_path = path, rt_endpoint = f, rt_role = None, rt_limit = None\<rparr>"

definition admin_route :: "string \<Rightarrow> string \<Rightarrow> string \<Rightarrow> route" where
  "admin_route method path f =
     (api_route method path f)\<lparr>rt_role := Some ''admin'', rt_limit := Some ''20/minute''\<rparr>"

text \<open>\<open>include_router\<close>, and the prefix a router declares for itself.\<close>

definition include_router :: "string \<Rightarrow> route list \<Rightarrow> route list" where
  "include_router pre routes = map (\<lambda>r. r\<lparr>rt_path := pre @ rt_path r\<rparr>) routes"

text \<open>One definition for each decorated endpoint, and one for each router.\<close>

definition healthz_route :: route where
  "healthz_route = api_route ''GET'' ''/healthz'' ''healthz''"

definition health_routes :: "route list" where
  "health_routes = [healthz_route]"

definition metrics_route :: route where
  "metrics_route = api_route ''GET'' ''/metrics'' ''metrics''"

definition metrics_routes :: "route list" where
  "metrics_routes = [metrics_route]"

definition login_route :: route where
  "login_route = api_route ''POST'' ''/token'' ''login''"

definition refresh_token_route :: route where
  "refresh_token_route = api_route ''POST'' ''/refresh'' ''refresh_token''"

definition auth_routes :: "route list" where
  "auth_routes = include_router ''/auth''
     [login_route, refresh_token_route]"

definition create_source_route :: route where
  "create_source_route = admin_route ''POST'' '''' ''create_source''"

definition list_sources_route :: route where
  "list_sources_route = api_route ''GET'' '''' ''list_sources''"

definition get_source_route :: route where
  "get_source_route = api_route ''GET'' ''/{source_id}'' ''get_source''"

definition delete_source_route :: route where
  "delete_source_route = admin_route ''DELETE'' ''/{source_id}'' ''delete_source''"

definition enable_source_route :: route where
  "enable_source_route = admin_route ''POST'' ''/{source_id}/enable'' ''enable_source''"

definition disable_source_route :: route where
  "disable_source_route = admin_route ''POST'' ''/{source_id}/disable'' ''disable_source''"

definition update_source_route :: route where
  "update_source_route = admin_route ''PUT'' ''/{source_id}'' ''update_source''"

definition sources_routes :: "route list" where
  "sources_routes = include_router ''/sources''
     [create_source_route, list_sources_route, get_source_route, delete_source_route,
      enable_source_route, disable_source_route, update_source_route]"

definition list_programs_route :: route where
  "list_programs_route = api_route ''GET'' '''' ''list_programs''"

definition count_programs_route :: route where
  "count_programs_route = api_route ''GET'' ''/count'' ''count_programs''"

definition programs_routes :: "route list" where
  "programs_routes = include_router ''/programs''
     [list_programs_route, count_programs_route]"

definition list_channels_route :: route where
  "list_channels_route = api_route ''GET'' '''' ''list_channels''"

definition channels_routes :: "route list" where
  "channels_routes = include_router ''/channels''
     [list_channels_route]"

definition list_jobs_route :: route where
  "list_jobs_route = api_route ''GET'' '''' ''list_jobs''"

definition jobs_routes :: "route list" where
  "jobs_routes = include_router ''/jobs''
     [list_jobs_route]"

definition export_programs_csv_route :: route where
  "export_programs_csv_route = api_route ''GET'' ''/programs.csv'' ''export_programs_csv''"

definition export_routes :: "route list" where
  "export_routes = include_router ''/export''
     [export_programs_csv_route]"

definition list_plugins_route :: route where
  "list_plugins_route = api_route ''GET'' ''/plugins'' ''list_plugins''"

definition trigger_crawl_route :: route where
  "trigger_crawl_route = api_route ''POST'' ''/crawl/{source_id}'' ''trigger_crawl''"

definition trigger_crawl_all_route :: route where
  "trigger_crawl_all_route = api_route ''POST'' ''/crawl-all'' ''trigger_crawl_all''"

definition seed_data_route :: route where
  "seed_data_route = api_route ''POST'' ''/seed'' ''seed_data''"

definition reseed_data_route :: route where
  "reseed_data_route = api_route ''POST'' ''/reseed'' ''reseed_data''"

definition admin_routes :: "route list" where
  "admin_routes = include_router ''/admin''
     [list_plugins_route, trigger_crawl_route, trigger_crawl_all_route,
      seed_data_route, reseed_data_route]"

definition dashboard_summary_route :: route where
  "dashboard_summary_route = api_route ''GET'' ''/summary'' ''dashboard_summary''"

definition dashboard_timeline_route :: route where
  "dashboard_timeline_route = api_route ''GET'' ''/timeline'' ''dashboard_timeline''"

definition top_channels_route :: route where
  "top_channels_route = api_route ''GET'' ''/top-channels'' ''top_channels''"

definition dashboard_routes :: "route list" where
  "dashboard_routes = include_router ''/dashboard''
     [dashboard_summary_route, dashboard_timeline_route, top_channels_route]"

lemmas route_defs = api_route_def admin_route_def
  healthz_route_def metrics_route_def login_route_def refresh_token_route_def create_source_route_def
  list_sources_route_def get_source_route_def delete_source_route_def enable_source_route_def
  disable_source_route_def update_source_route_def list_programs_route_def count_programs_route_def
  list_channels_route_def list_jobs_route_def export_programs_csv_route_def list_plugins_route_def
  trigger_crawl_route_def trigger_crawl_all_route_def seed_data_route_def reseed_data_route_def
  dashboard_summary_route_def dashboard_timeline_route_def top_channels_route_def

text \<open>
  \<open>create_app\<close>: \<open>builtin\<close> are the routes FastAPI adds for its documentation, \<open>web\<close> says that the
  directory of the GUI exists.  \<open>{path:path}\<close> takes the rest of the path, as a mount does.
\<close>

definition app_routes :: "route list \<Rightarrow> bool \<Rightarrow> route list" where
  "app_routes builtin web =
     builtin @ health_routes @ metrics_routes @
     include_router ''/api/v1'' auth_routes @ include_router ''/api/v1'' sources_routes @
     include_router ''/api/v1'' programs_routes @ include_router ''/api/v1'' channels_routes @
     include_router ''/api/v1'' jobs_routes @ include_router ''/api/v1'' export_routes @
     include_router ''/api/v1'' admin_routes @ include_router ''/api/v1'' dashboard_routes @
     (if web then
        [\<lparr>rt_methods = None, rt_path = ''/static/{path:path}'', rt_endpoint = ''static'',
          rt_role = None, rt_limit = None\<rparr>,
         api_route ''GET'' ''/'' ''_root'']
      else [])"

section \<open>Matching a path\<close>

datatype segment = Lit string | Var | Rest

definition segment_of :: "string \<Rightarrow> segment" where
  "segment_of w =
     (if w = ''{path:path}'' then Rest
      else if w \<noteq> [] \<and> hd w = CHR ''{'' \<and> last w = CHR ''}'' then Var else Lit w)"

fun join_path :: "string list \<Rightarrow> string" where
  "join_path [] = []"
| "join_path [w] = w"
| "join_path (w # ws) = w @ CHR ''/'' # join_path ws"

definition segments :: "string \<Rightarrow> segment list" where
  "segments t = map segment_of (split_on CHR ''/'' t)"

text \<open>A parameter takes one whole segment that is not empty.  The result is the parameters' values.\<close>

fun seg_match :: "segment list \<Rightarrow> string list \<Rightarrow> string list option" where
  "seg_match [] [] = Some []"
| "seg_match [] (w # ws) = None"
| "seg_match (Rest # ts) ws = (if ts = [] \<and> ws \<noteq> [] then Some [join_path ws] else None)"
| "seg_match (t # ts) [] = None"
| "seg_match (Lit l # ts) (w # ws) = (if w = l then seg_match ts ws else None)"
| "seg_match (Var # ts) (w # ws) = (if w = [] then None else map_option ((#) w) (seg_match ts ws))"

definition path_match :: "route \<Rightarrow> string \<Rightarrow> string list option" where
  "path_match r path = seg_match (segments (rt_path r)) (split_on CHR ''/'' path)"

definition method_match :: "route \<Rightarrow> string \<Rightarrow> bool" where
  "method_match r m = (case rt_methods r of None \<Rightarrow> True | Some ms \<Rightarrow> m \<in> set ms)"

text \<open>The first route that takes method and path.\<close>

fun first_match :: "route list \<Rightarrow> string \<Rightarrow> string \<Rightarrow> (route \<times> string list) option" where
  "first_match [] m path = None"
| "first_match (r # rs) m path =
     (case path_match r path of
        Some args \<Rightarrow> if method_match r m then Some (r, args) else first_match rs m path
      | None \<Rightarrow> first_match rs m path)"

section \<open>The router of the framework\<close>

datatype verdict = Run route "string list" | Refuse nat | Redirect string

text \<open>
  Routes are tried in order; a path known only for other methods is answered 405, and a path no
  route knows is never given to an endpoint.
\<close>

locale http_router =
  fixes dispatch :: "route list \<Rightarrow> string \<Rightarrow> string \<Rightarrow> verdict"
  assumes found: "first_match rs m path = Some (r, args) \<Longrightarrow> dispatch rs m path = Run r args"
    and other_method: "first_match rs m path = None \<Longrightarrow> \<exists>r \<in> set rs. path_match r path \<noteq> None \<Longrightarrow>
      dispatch rs m path = Refuse 405"
    and unknown_path: "\<forall>r \<in> set rs. path_match r path = None \<Longrightarrow> (\<forall>r args. dispatch rs m path \<noteq> Run r args)"
begin

lemma runs_only_matches:
  assumes "dispatch rs m path = Run r args"
  shows "first_match rs m path = Some (r, args)"
proof (cases "first_match rs m path")
  case None
  with assms other_method [OF None] unknown_path [of rs path m] show ?thesis by (metis verdict.distinct(1))
next
  case (Some x)
  with assms found [of rs m path] show ?thesis by (cases x) auto
qed

end

definition first_route :: "route list \<Rightarrow> string \<Rightarrow> string \<Rightarrow> verdict" where
  "first_route rs m path =
     (case first_match rs m path of
        Some (r, args) \<Rightarrow> Run r args
      | None \<Rightarrow> if list_ex (\<lambda>r. path_match r path \<noteq> None) rs then Refuse 405 else Refuse 404)"

lemma first_match_Some:
  "first_match rs m path = Some (r, args) \<Longrightarrow> r \<in> set rs \<and> path_match r path = Some args \<and> method_match r m"
  by (induction rs) (auto split: option.splits if_splits)

interpretation first_route: http_router first_route
proof unfold_locales
  fix rs m path assume none: "\<forall>r \<in> set rs. path_match r path = None"
  then have "first_match rs m path = None" by (induction rs) auto
  moreover have "\<not> list_ex (\<lambda>r. path_match r path \<noteq> None) rs" using none by (simp add: list_ex_iff)
  ultimately show "\<forall>r args. first_route rs m path \<noteq> Run r args" by (simp add: first_route_def)
qed (auto simp: first_route_def list_ex_iff)

section \<open>No request fits two routes\<close>

fun overlap :: "segment list \<Rightarrow> segment list \<Rightarrow> bool" where
  "overlap [] [] = True"
| "overlap [] (u # us) = False"
| "overlap (t # ts) [] = False"
| "overlap (Rest # ts) (u # us) = True"
| "overlap (t # ts) (Rest # us) = True"
| "overlap (Lit a # ts) (Lit b # us) = (a = b \<and> overlap ts us)"
| "overlap (Lit a # ts) (Var # us) = overlap ts us"
| "overlap (Var # ts) (Lit b # us) = overlap ts us"
| "overlap (Var # ts) (Var # us) = overlap ts us"

lemma match_overlap: "seg_match ts ws = Some a \<Longrightarrow> seg_match us ws = Some b \<Longrightarrow> overlap ts us"
proof (induction ts us arbitrary: ws a b rule: overlap.induct)
  case (1) then show ?case by simp
next
  case (2 u us) then show ?case by (cases ws; cases u) auto
next
  case (3 t ts) then show ?case by (cases ws; cases t) auto
qed (case_tac ws; auto split: if_splits)+

definition share_method :: "route \<Rightarrow> route \<Rightarrow> bool" where
  "share_method r r' =
     (case rt_methods r of
        None \<Rightarrow> True
      | Some ms \<Rightarrow> (case rt_methods r' of None \<Rightarrow> True | Some ms' \<Rightarrow> list_ex (\<lambda>m. m \<in> set ms') ms))"

definition apart :: "route \<Rightarrow> route \<Rightarrow> bool" where
  "apart r r' \<longleftrightarrow> \<not> (share_method r r' \<and> overlap (segments (rt_path r)) (segments (rt_path r')))"

lemma apart_not_both:
  assumes "apart r r'" "path_match r path = Some a" "path_match r' path = Some b" "method_match r m" "method_match r' m"
  shows False
proof -
  have "overlap (segments (rt_path r)) (segments (rt_path r'))"
    using match_overlap assms(2,3) unfolding path_match_def by blast
  moreover have "share_method r r'"
    using assms(4,5) by (auto simp: share_method_def method_match_def list_ex_iff split: option.splits)
  ultimately show False using assms(1) by (simp add: apart_def)
qed

lemma first_match_unique:
  assumes "sorted_wrt apart rs" "r \<in> set rs" "path_match r path = Some args" "method_match r m"
  shows "first_match rs m path = Some (r, args)"
  using assms
proof (induction rs)
  case (Cons r0 rs)
  show ?case
  proof (cases "r = r0")
    case True
    with Cons.prems(3,4) show ?thesis by simp
  next
    case False
    with Cons.prems(1,2) have r: "r \<in> set rs" "apart r0 r" "sorted_wrt apart rs" by auto
    have "\<not> (path_match r0 path \<noteq> None \<and> method_match r0 m)"
      using apart_not_both [OF r(2) _ Cons.prems(3) _ Cons.prems(4)] by auto
    with Cons.IH [OF r(3,1) Cons.prems(3,4)] show ?thesis by (auto split: option.splits)
  qed
qed simp

text \<open>What routes are told apart by: methods and segments, spelled out.\<close>

definition route_key :: "route \<Rightarrow> string list option \<times> segment list" where
  "route_key r = (rt_methods r, segments (rt_path r))"

fun keys_apart :: "string list option \<times> segment list \<Rightarrow> string list option \<times> segment list \<Rightarrow> bool" where
  "keys_apart (Some ms, ts) (Some ms', us) \<longleftrightarrow> list_all (\<lambda>m. m \<notin> set ms') ms \<or> \<not> overlap ts us"
| "keys_apart (ms, ts) (ms', us) \<longleftrightarrow> \<not> overlap ts us"

lemma apart_keys: "apart r r' \<longleftrightarrow> keys_apart (route_key r) (route_key r')"
  by (cases "rt_methods r"; cases "rt_methods r'")
    (auto simp: apart_def route_key_def share_method_def list_ex_iff list_all_iff)

lemma app_route_keys:
  "map route_key (app_routes [] False) =
     [(Some [''GET''], [Lit '''', Lit ''healthz'']),
      (Some [''GET''], [Lit '''', Lit ''metrics'']),
      (Some [''POST''], [Lit '''', Lit ''api'', Lit ''v1'', Lit ''auth'', Lit ''token'']),
      (Some [''POST''], [Lit '''', Lit ''api'', Lit ''v1'', Lit ''auth'', Lit ''refresh'']),
      (Some [''POST''], [Lit '''', Lit ''api'', Lit ''v1'', Lit ''sources'']),
      (Some [''GET''], [Lit '''', Lit ''api'', Lit ''v1'', Lit ''sources'']),
      (Some [''GET''], [Lit '''', Lit ''api'', Lit ''v1'', Lit ''sources'', Var]),
      (Some [''DELETE''], [Lit '''', Lit ''api'', Lit ''v1'', Lit ''sources'', Var]),
      (Some [''POST''], [Lit '''', Lit ''api'', Lit ''v1'', Lit ''sources'', Var, Lit ''enable'']),
      (Some [''POST''], [Lit '''', Lit ''api'', Lit ''v1'', Lit ''sources'', Var, Lit ''disable'']),
      (Some [''PUT''], [Lit '''', Lit ''api'', Lit ''v1'', Lit ''sources'', Var]),
      (Some [''GET''], [Lit '''', Lit ''api'', Lit ''v1'', Lit ''programs'']),
      (Some [''GET''], [Lit '''', Lit ''api'', Lit ''v1'', Lit ''programs'', Lit ''count'']),
      (Some [''GET''], [Lit '''', Lit ''api'', Lit ''v1'', Lit ''channels'']),
      (Some [''GET''], [Lit '''', Lit ''api'', Lit ''v1'', Lit ''jobs'']),
      (Some [''GET''], [Lit '''', Lit ''api'', Lit ''v1'', Lit ''export'', Lit ''programs.csv'']),
      (Some [''GET''], [Lit '''', Lit ''api'', Lit ''v1'', Lit ''admin'', Lit ''plugins'']),
      (Some [''POST''], [Lit '''', Lit ''api'', Lit ''v1'', Lit ''admin'', Lit ''crawl'', Var]),
      (Some [''POST''], [Lit '''', Lit ''api'', Lit ''v1'', Lit ''admin'', Lit ''crawl-all'']),
      (Some [''POST''], [Lit '''', Lit ''api'', Lit ''v1'', Lit ''admin'', Lit ''seed'']),
      (Some [''POST''], [Lit '''', Lit ''api'', Lit ''v1'', Lit ''admin'', Lit ''reseed'']),
      (Some [''GET''], [Lit '''', Lit ''api'', Lit ''v1'', Lit ''dashboard'', Lit ''summary'']),
      (Some [''GET''], [Lit '''', Lit ''api'', Lit ''v1'', Lit ''dashboard'', Lit ''timeline'']),
      (Some [''GET''], [Lit '''', Lit ''api'', Lit ''v1'', Lit ''dashboard'', Lit ''top-channels''])]"
  by code_simp

lemma web_route_keys:
  "map route_key (app_routes [] True) = map route_key (app_routes [] False) @
     [(None, [Lit '''', Lit ''static'', Rest]),
      (Some [''GET''], [Lit '''', Lit ''''])]"
  by code_simp

lemma own_apart: "sorted_wrt apart (app_routes [] web)"
proof -
  have "sorted_wrt keys_apart (map route_key (app_routes [] web))"
    by (cases web; simp only: web_route_keys app_route_keys; code_simp)
  then show ?thesis by (simp add: sorted_wrt_map apart_keys [abs_def])
qed

text \<open>The routes FastAPI documents as its own.\<close>

definition doc_paths :: "string list" where
  "doc_paths = [''/openapi.json'', ''/docs'', ''/docs/oauth2-redirect'', ''/redoc'']"

definition builtin_ok :: "route list \<Rightarrow> bool" where
  "builtin_ok builtin \<longleftrightarrow> distinct (map rt_path builtin) \<and>
     list_all (\<lambda>r. rt_path r \<in> set doc_paths \<and> rt_role r = None) builtin"

lemma docs_apart: "p \<in> set doc_paths \<Longrightarrow> r \<in> set (app_routes [] web) \<Longrightarrow> \<not> overlap (segments p) (segments (rt_path r))"
proof -
  have "list_all (\<lambda>k. list_all (\<lambda>p. \<not> overlap (segments p) (snd k)) doc_paths) (map route_key (app_routes [] web))"
    by (cases web; simp only: web_route_keys app_route_keys; code_simp)
  then show "p \<in> set doc_paths \<Longrightarrow> r \<in> set (app_routes [] web) \<Longrightarrow> \<not> overlap (segments p) (segments (rt_path r))"
    by (simp add: list_all_iff route_key_def)
qed

lemma docs_distinct:
  "p \<in> set doc_paths \<Longrightarrow> q \<in> set doc_paths \<Longrightarrow> overlap (segments p) (segments q) \<Longrightarrow> p = q"
proof -
  have "list_all (\<lambda>p. list_all (\<lambda>q. overlap (segments p) (segments q) \<longrightarrow> p = q) doc_paths) doc_paths"
    by code_simp
  then show "p \<in> set doc_paths \<Longrightarrow> q \<in> set doc_paths \<Longrightarrow> overlap (segments p) (segments q) \<Longrightarrow> p = q"
    by (auto simp only: list_all_iff)
qed

lemma app_routes_builtin: "app_routes builtin web = builtin @ app_routes [] web"
  by (simp add: app_routes_def)

lemma routes_apart:
  assumes "builtin_ok builtin"
  shows "sorted_wrt apart (app_routes builtin web)"
proof -
  have paths: "rt_path r \<in> set doc_paths" if "r \<in> set builtin" for r
    using assms that by (simp add: builtin_ok_def list_all_iff)
  have "sorted_wrt (\<lambda>r r'. rt_path r \<noteq> rt_path r') builtin"
    using assms unfolding builtin_ok_def by (induction builtin) auto
  then have "sorted_wrt apart builtin"
  proof (rule sorted_wrt_mono_rel [rotated])
    fix r r' assume r: "r \<in> set builtin" "r' \<in> set builtin" "rt_path r \<noteq> rt_path r'"
    show "apart r r'"
      using docs_distinct [OF paths [OF r(1)] paths [OF r(2)]] r(3) by (auto simp: apart_def)
  qed
  moreover have "apart r r'" if "r \<in> set builtin" "r' \<in> set (app_routes [] web)" for r r'
    using docs_apart [OF paths [OF that(1)] that(2)] by (simp add: apart_def)
  ultimately show ?thesis
    unfolding app_routes_builtin [of builtin] by (simp add: sorted_wrt_append own_apart)
qed

section \<open>The requests that want an administrator\<close>

lemma split_path_iff:
  "split_on CHR ''/'' s = ws \<longleftrightarrow> ws \<noteq> [] \<and> (\<forall>w \<in> set ws. CHR ''/'' \<notin> set w) \<and> s = join_path ws"
proof (induction s arbitrary: ws)
  case Nil
  show ?case by (cases ws rule: join_path.cases) auto
next
  case (Cons c s)
  let ?ws = "split_on CHR ''/'' s"
  have s: "?ws \<noteq> []" "\<forall>w \<in> set ?ws. CHR ''/'' \<notin> set w" "s = join_path ?ws" using Cons.IH [of ?ws] by simp_all
  show ?case
  proof (cases "c = CHR ''/''")
    case True
    have "join_path ws = CHR ''/'' # s \<longleftrightarrow> (\<exists>vs. vs \<noteq> [] \<and> ws = [] # vs \<and> join_path vs = s)"
      if "\<forall>w \<in> set ws. CHR ''/'' \<notin> set w" "ws \<noteq> []"
      using that by (cases ws rule: join_path.cases) (auto simp: append_eq_Cons_conv)
    with True Cons.IH show ?thesis by (cases ws) (auto simp: eq_commute [of _ ws])
  next
    case False
    obtain v vs where v: "?ws = v # vs" using s(1) by (cases ?ws) auto
    have j: "join_path ((c # v) # vs) = c # s" using s(3) v by (cases vs) auto
    show ?thesis
    proof
      assume "split_on CHR ''/'' (c # s) = ws"
      with False v have "ws = (c # v) # vs" by simp
      with j s(2) v False show "ws \<noteq> [] \<and> (\<forall>w \<in> set ws. CHR ''/'' \<notin> set w) \<and> c # s = join_path ws" by auto
    next
      assume a: "ws \<noteq> [] \<and> (\<forall>w \<in> set ws. CHR ''/'' \<notin> set w) \<and> c # s = join_path ws"
      then obtain u us where u: "ws = (c # u) # us" "s = join_path (u # us)"
        using False by (cases ws rule: join_path.cases) (auto simp: Cons_eq_append_conv)
      with a Cons.IH [of "u # us"] have "?ws = u # us" by auto
      with u(1) False show "split_on CHR ''/'' (c # s) = ws" by simp
    qed
  qed
qed

lemma seg_match_Nil: "seg_match [] ws = Some a \<longleftrightarrow> ws = [] \<and> a = []"
  by (cases ws) auto

lemma seg_match_Lit: "seg_match (Lit l # ts) ws = Some a \<longleftrightarrow> (\<exists>ws'. ws = l # ws' \<and> seg_match ts ws' = Some a)"
  by (cases ws) auto

lemma seg_match_Var:
  "seg_match (Var # ts) ws = Some a \<longleftrightarrow>
     (\<exists>w ws' a'. ws = w # ws' \<and> w \<noteq> [] \<and> seg_match ts ws' = Some a' \<and> a = w # a')"
  by (cases ws) auto

definition param :: "string \<Rightarrow> bool" where
  "param k \<longleftrightarrow> k \<noteq> [] \<and> CHR ''/'' \<notin> set k"

lemma source_paths:
  "(\<exists>a. seg_match [Lit '''', Lit ''api'', Lit ''v1'', Lit ''sources''] (split_on CHR ''/'' path) = Some a) \<longleftrightarrow>
     path = ''/api/v1/sources''"
  "(\<exists>a. seg_match [Lit '''', Lit ''api'', Lit ''v1'', Lit ''sources'', Var] (split_on CHR ''/'' path) = Some a) \<longleftrightarrow>
     (\<exists>k. param k \<and> path = ''/api/v1/sources/'' @ k)"
  "CHR ''/'' \<notin> set x \<Longrightarrow>
   (\<exists>a. seg_match [Lit '''', Lit ''api'', Lit ''v1'', Lit ''sources'', Var, Lit x] (split_on CHR ''/'' path) = Some a) \<longleftrightarrow>
     (\<exists>k. param k \<and> path = ''/api/v1/sources/'' @ k @ CHR ''/'' # x)"
proof -
  have 0: "split_on CHR ''/'' path = ['''', ''api'', ''v1'', ''sources''] \<longleftrightarrow> path = ''/api/v1/sources''"
    unfolding split_path_iff by simp
  then show "(\<exists>a. seg_match [Lit '''', Lit ''api'', Lit ''v1'', Lit ''sources''] (split_on CHR ''/'' path) = Some a) \<longleftrightarrow>
     path = ''/api/v1/sources''"
    unfolding seg_match_Lit seg_match_Nil by blast
  have 1: "split_on CHR ''/'' path = ['''', ''api'', ''v1'', ''sources'', k] \<longleftrightarrow> CHR ''/'' \<notin> set k \<and> path = ''/api/v1/sources/'' @ k" for k
    unfolding split_path_iff by simp
  have "(\<exists>a. seg_match [Lit '''', Lit ''api'', Lit ''v1'', Lit ''sources'', Var] (split_on CHR ''/'' path) = Some a) \<longleftrightarrow>
      (\<exists>k. k \<noteq> [] \<and> split_on CHR ''/'' path = ['''', ''api'', ''v1'', ''sources'', k])"
    unfolding seg_match_Lit seg_match_Var seg_match_Nil by blast
  then show "(\<exists>a. seg_match [Lit '''', Lit ''api'', Lit ''v1'', Lit ''sources'', Var] (split_on CHR ''/'' path) = Some a) \<longleftrightarrow>
     (\<exists>k. param k \<and> path = ''/api/v1/sources/'' @ k)"
    unfolding 1 param_def by blast
  assume x: "CHR ''/'' \<notin> set x"
  have 2: "split_on CHR ''/'' path = ['''', ''api'', ''v1'', ''sources'', k, x] \<longleftrightarrow>
      CHR ''/'' \<notin> set k \<and> path = ''/api/v1/sources/'' @ k @ CHR ''/'' # x" for k
    unfolding split_path_iff using x by simp
  have "(\<exists>a. seg_match [Lit '''', Lit ''api'', Lit ''v1'', Lit ''sources'', Var, Lit x] (split_on CHR ''/'' path) = Some a) \<longleftrightarrow>
      (\<exists>k. k \<noteq> [] \<and> split_on CHR ''/'' path = ['''', ''api'', ''v1'', ''sources'', k, x])"
    unfolding seg_match_Lit seg_match_Var seg_match_Nil by blast
  then show "(\<exists>a. seg_match [Lit '''', Lit ''api'', Lit ''v1'', Lit ''sources'', Var, Lit x] (split_on CHR ''/'' path) = Some a) \<longleftrightarrow>
     (\<exists>k. param k \<and> path = ''/api/v1/sources/'' @ k @ CHR ''/'' # x)"
    unfolding 2 param_def by blast
qed

text \<open>The requests that change a source.\<close>

definition admin_request :: "string \<Rightarrow> string \<Rightarrow> bool" where
  "admin_request m path \<longleftrightarrow>
     m = ''POST'' \<and> path = ''/api/v1/sources'' \<or>
     (\<exists>k. param k \<and>
        (m \<in> {''DELETE'', ''PUT''} \<and> path = ''/api/v1/sources/'' @ k \<or>
         m = ''POST'' \<and> path \<in> {''/api/v1/sources/'' @ k @ ''/enable'', ''/api/v1/sources/'' @ k @ ''/disable''}))"

abbreviation guarded_keys :: "(string \<times> segment list) list" where
  "guarded_keys \<equiv>
     [(''POST'', [Lit '''', Lit ''api'', Lit ''v1'', Lit ''sources'']),
      (''DELETE'', [Lit '''', Lit ''api'', Lit ''v1'', Lit ''sources'', Var]),
      (''POST'', [Lit '''', Lit ''api'', Lit ''v1'', Lit ''sources'', Var, Lit ''enable'']),
      (''POST'', [Lit '''', Lit ''api'', Lit ''v1'', Lit ''sources'', Var, Lit ''disable'']),
      (''PUT'', [Lit '''', Lit ''api'', Lit ''v1'', Lit ''sources'', Var])]"

lemma guarded_routes:
  "map (\<lambda>r. (rt_role r, route_key r)) (filter (\<lambda>r. rt_role r \<noteq> None) (app_routes [] web)) =
     map (\<lambda>(m, ts). (Some ''admin'', Some [m], ts)) guarded_keys"
proof (cases web)
  case True
  then have web: "web = True" by simp
  show ?thesis by (subst web) code_simp
next
  case False
  then have web: "web = False" by simp
  show ?thesis by (subst web) code_simp
qed

lemma guarded_route_iff:
  "(\<exists>r \<in> set (app_routes [] web). rt_role r \<noteq> None \<and> route_key r = (Some [m], ts)) \<longleftrightarrow> (m, ts) \<in> set guarded_keys"
  "r \<in> set (app_routes [] web) \<Longrightarrow> rt_role r \<noteq> None \<Longrightarrow>
     rt_role r = Some ''admin'' \<and> (\<exists>m ts. route_key r = (Some [m], ts) \<and> (m, ts) \<in> set guarded_keys)"
proof -
  let ?L = "set (map (\<lambda>r. (rt_role r, route_key r)) (filter (\<lambda>r. rt_role r \<noteq> None) (app_routes [] web)))"
  let ?K = "set (map (\<lambda>(m, ts). (Some ''admin'', Some [m], ts)) guarded_keys)"
  have LK: "?L = ?K" by (simp only: guarded_routes)
  have "(\<exists>r \<in> set (app_routes [] web). rt_role r \<noteq> None \<and> route_key r = (Some [m], ts)) \<longleftrightarrow> (\<exists>a. (a, Some [m], ts) \<in> ?L)"
    by force
  also have "\<dots> \<longleftrightarrow> (m, ts) \<in> set guarded_keys" unfolding LK by force
  finally show "(\<exists>r \<in> set (app_routes [] web). rt_role r \<noteq> None \<and> route_key r = (Some [m], ts)) \<longleftrightarrow> (m, ts) \<in> set guarded_keys" .
  assume "r \<in> set (app_routes [] web)" "rt_role r \<noteq> None"
  then have "(rt_role r, route_key r) \<in> ?L" by force
  then have "(rt_role r, route_key r) \<in> ?K" unfolding LK .
  then show "rt_role r = Some ''admin'' \<and> (\<exists>m ts. route_key r = (Some [m], ts) \<and> (m, ts) \<in> set guarded_keys)"
    unfolding set_map by fastforce
qed

lemma ex_key_simps:
  "(\<exists>ts a. (m, ts) \<in> set ((m', ts') # ks) \<and> P ts a) \<longleftrightarrow> m = m' \<and> (\<exists>a. P ts' a) \<or> (\<exists>ts a. (m, ts) \<in> set ks \<and> P ts a)"
  "(\<exists>ts a. (m, ts) \<in> set [] \<and> P ts a) \<longleftrightarrow> False"
  by auto

lemma admin_shape:
  "(a \<and> s \<or> (\<exists>k. p k \<and> ((b \<or> c \<or> False) \<and> d k \<or> a \<and> (e k \<or> f k \<or> False)))) \<longleftrightarrow>
     (a \<and> s \<or> b \<and> (\<exists>k. p k \<and> d k) \<or> a \<and> (\<exists>k. p k \<and> e k) \<or> a \<and> (\<exists>k. p k \<and> f k) \<or> c \<and> (\<exists>k. p k \<and> d k) \<or> False)"
  by blast

lemma admin_request_iff:
  "admin_request m path \<longleftrightarrow>
     (\<exists>ts a. (m, ts) \<in> set guarded_keys \<and> seg_match ts (split_on CHR ''/'' path) = Some a)"
proof -
  have no: "CHR ''/'' \<notin> set ''enable''" "CHR ''/'' \<notin> set ''disable''" by simp_all
  show ?thesis
    unfolding ex_key_simps source_paths(1,2) source_paths(3) [OF no(1)] source_paths(3) [OF no(2)]
      admin_request_def insert_iff empty_iff
    by (rule admin_shape)
qed

section \<open>A request\<close>

text \<open>
  \<open>auth\<close> is what \<open>OAuth2PasswordBearer\<close> makes of the request's header: the token, or the
  exception it raises when there is none.  The route's dependencies come first, then the limiter
  around the endpoint's function, then its body, which gets the values of the path's parameters.
\<close>

datatype 'a answer = Answer 'a | See_other string | Refused nat

record ('s, 'a) http_env =
  ht_dispatch :: "route list \<Rightarrow> string \<Rightarrow> string \<Rightarrow> verdict"
  ht_routes :: "route list"
  ht_jwt :: jwt_lib
  ht_settings :: "exn + settings"
  ht_now :: "'s \<Rightarrow> datetime"
  ht_limiter :: "string \<Rightarrow> ('s, unit) eff"
  ht_body :: "string \<Rightarrow> string list \<Rightarrow> ('s, 'a) eff"

definition run_route :: "('s, 'a) http_env \<Rightarrow> route \<Rightarrow> string list \<Rightarrow> exn + string \<Rightarrow> ('s, 'a answer) eff" where
  "run_route env r args auth =
     (let ep = bindE (case rt_limit r of None \<Rightarrow> ret () | Some l \<Rightarrow> ht_limiter env l) (\<lambda>_.
                 bindE (ht_body env (rt_endpoint r) args) (\<lambda>x. ret (Answer x)))
      in case rt_role r of
           None \<Rightarrow> ep
         | Some role \<Rightarrow>
             bindE (pure_eff auth) (\<lambda>token s.
               case require_role (ht_jwt env) (ht_settings env) role (ht_now env s) token of
                 Inl e \<Rightarrow> (Inl e, s)
               | Inr _ \<Rightarrow> ep s))"

definition handle_request ::
  "('s, 'a) http_env \<Rightarrow> string \<Rightarrow> string \<Rightarrow> exn + string \<Rightarrow> ('s, 'a answer) eff" where
  "handle_request env m path auth =
     (case ht_dispatch env (ht_routes env) m path of
        Run r args \<Rightarrow> run_route env r args auth
      | Refuse code \<Rightarrow> ret (Refused code)
      | Redirect url \<Rightarrow> ret (See_other url))"

text \<open>A request is admitted when its token is one \<open>require_role("admin")\<close> accepts.\<close>

definition admitted :: "('s, 'a) http_env \<Rightarrow> 's \<Rightarrow> exn + string \<Rightarrow> exn + claims" where
  "admitted env s auth =
     (case auth of
        Inl e \<Rightarrow> Inl e
      | Inr token \<Rightarrow> require_role (ht_jwt env) (ht_settings env) ''admin'' (ht_now env s) token)"

lemma run_route_admin:
  "rt_role r = Some ''admin'' \<Longrightarrow>
     run_route env r args auth s =
       (case admitted env s auth of
          Inl e \<Rightarrow> (Inl e, s)
        | Inr _ \<Rightarrow> run_route env (r\<lparr>rt_role := None\<rparr>) args auth s)"
  by (cases auth) (auto simp: run_route_def admitted_def bindE_def pure_eff_def Let_def split: sum.splits)

lemma run_route_open: "rt_role r = None \<Longrightarrow> run_route env r args auth = run_route env r args auth'"
  by (simp add: run_route_def Let_def)

context http_router
begin

text \<open>Whether a request reaches a guarded route depends on its method and path alone.\<close>

lemma reaches_guard:
  assumes "builtin_ok builtin"
  shows "(\<exists>r args. dispatch (app_routes builtin web) m path = Run r args \<and> rt_role r \<noteq> None) \<longleftrightarrow> admin_request m path"
    "dispatch (app_routes builtin web) m path = Run r args \<Longrightarrow> rt_role r \<noteq> None \<Longrightarrow> rt_role r = Some ''admin''"
proof -
  let ?rs = "app_routes builtin web"
  have own: "r \<in> set (app_routes [] web)" if "r \<in> set ?rs" "rt_role r \<noteq> None" for r
    using that assms by (auto simp: app_routes_builtin [of builtin] builtin_ok_def list_all_iff)
  have reach: "r \<in> set (app_routes [] web) \<and> path_match r path = Some args \<and> method_match r m"
    if "dispatch ?rs m path = Run r args" "rt_role r \<noteq> None" for r args
    using first_match_Some [OF runs_only_matches [OF that(1)]] own that(2) by blast
  show "dispatch ?rs m path = Run r args \<Longrightarrow> rt_role r \<noteq> None \<Longrightarrow> rt_role r = Some ''admin''"
    using guarded_route_iff(2) reach by blast
  have "admin_request m path" if d: "dispatch ?rs m path = Run r args" "rt_role r \<noteq> None" for r args
  proof -
    note r = reach [OF d]
    obtain m' ts where k: "route_key r = (Some [m'], ts)" "(m', ts) \<in> set guarded_keys"
      using guarded_route_iff(2) r d(2) by blast
    then have "m' = m" "seg_match ts (split_on CHR ''/'' path) = Some args"
      using r by (simp_all add: route_key_def method_match_def path_match_def)
    with k(2) show ?thesis unfolding admin_request_iff by blast
  qed
  moreover have "\<exists>r args. dispatch ?rs m path = Run r args \<and> rt_role r \<noteq> None" if a: "admin_request m path"
  proof -
    obtain ts args where k: "(m, ts) \<in> set guarded_keys" "seg_match ts (split_on CHR ''/'' path) = Some args"
      using a unfolding admin_request_iff by blast
    then obtain r where r: "r \<in> set (app_routes [] web)" "rt_role r \<noteq> None" "route_key r = (Some [m], ts)"
      using guarded_route_iff(1) by blast
    have "path_match r path = Some args" "method_match r m"
      using r(3) k(2) by (simp_all add: route_key_def method_match_def path_match_def)
    moreover have "r \<in> set ?rs" using r(1) by (simp add: app_routes_builtin [of builtin])
    ultimately have "first_match ?rs m path = Some (r, args)"
      by (rule first_match_unique [OF routes_apart [OF assms], rotated])
    from found [OF this] r(2) show ?thesis by blast
  qed
  ultimately show "(\<exists>r args. dispatch ?rs m path = Run r args \<and> rt_role r \<noteq> None) \<longleftrightarrow> admin_request m path" by blast
qed

end

text \<open>
  Who is asked for a token.  For the requests that create, change, delete, enable or disable
  a source, and for these only, the token decides: without one that \<open>require_role\<close> accepts for
  the admin the request ends in that exception and the state is as before, and with one the
  outcome does not depend on it further.  Every other request, those of the admin router among
  them, is answered the same whatever token it carries.
\<close>

lemma guarded_by_token:
  assumes "http_router (ht_dispatch env)" and "builtin_ok builtin" and "ht_routes env = app_routes builtin web"
  shows "if admin_request m path
    then (\<forall>e. admitted env s auth = Inl e \<longrightarrow> handle_request env m path auth s = (Inl e, s)) \<and>
      (\<forall>c c'. admitted env s auth = Inr c \<longrightarrow> admitted env s auth' = Inr c' \<longrightarrow>
         handle_request env m path auth s = handle_request env m path auth' s)
    else handle_request env m path auth s = handle_request env m path auth' s"
proof -
  note reach = http_router.reaches_guard [OF assms(1,2), of web m path, folded assms(3)]
  show ?thesis
  proof (cases "admin_request m path")
    case True
    then obtain r args where r: "ht_dispatch env (ht_routes env) m path = Run r args" "rt_role r \<noteq> None"
      using reach(1) by blast
    have role: "rt_role r = Some ''admin''" by (rule reach(2) [OF r])
    have h: "handle_request env m path a s =
        (case admitted env s a of Inl e \<Rightarrow> (Inl e, s) | Inr _ \<Rightarrow> run_route env (r\<lparr>rt_role := None\<rparr>) args a s)" for a
      by (simp add: handle_request_def r(1) run_route_admin [OF role])
    have "run_route env (r\<lparr>rt_role := None\<rparr>) args auth = run_route env (r\<lparr>rt_role := None\<rparr>) args auth'"
      by (rule run_route_open) simp
    with True show ?thesis by (simp add: h)
  next
    case False
    have "handle_request env m path auth = handle_request env m path auth'"
    proof (cases "ht_dispatch env (ht_routes env) m path")
      case (Run r args)
      with False reach(1) have "rt_role r = None" by blast
      from run_route_open [OF this] Run show ?thesis by (simp add: handle_request_def)
    qed (simp_all add: handle_request_def)
    with False show ?thesis by simp
  qed
qed

section \<open>Properties\<close>

text \<open>
  C29: the order in which the routers are included does not matter.  With any router that obeys
  its documentation, a request runs the endpoint of a route exactly when the route's path fits
  and its method does: no route hides another, although \<open>{source_id}\<close> fits any word.
\<close>

theorem routes_are_independent:
  assumes "http_router dispatch" and "builtin_ok builtin"
  shows "dispatch (app_routes builtin web) m path = Run r args \<longleftrightarrow>
    r \<in> set (app_routes builtin web) \<and> path_match r path = Some args \<and> method_match r m"
proof
  assume "dispatch (app_routes builtin web) m path = Run r args"
  from first_match_Some [OF http_router.runs_only_matches [OF assms(1) this]]
  show "r \<in> set (app_routes builtin web) \<and> path_match r path = Some args \<and> method_match r m" .
next
  assume "r \<in> set (app_routes builtin web) \<and> path_match r path = Some args \<and> method_match r m"
  then have "first_match (app_routes builtin web) m path = Some (r, args)"
    using first_match_unique [OF routes_apart [OF assms(2)]] by blast
  then show "dispatch (app_routes builtin web) m path = Run r args" by (rule http_router.found [OF assms(1)])
qed

definition demo_builtin :: "route list" where
  "demo_builtin = [api_route ''GET'' ''/openapi.json'' ''openapi'', api_route ''GET'' ''/docs'' ''swagger_ui_html'']"

lemma demo_builtin_ok: "builtin_ok demo_builtin"
  by (simp add: builtin_ok_def demo_builtin_def api_route_def doc_paths_def)

theorem routes_are_independent_witness:
  "\<exists>r. first_route (app_routes demo_builtin True) ''POST'' ''/api/v1/sources/a1/enable'' = Run r [''a1''] \<and>
     rt_endpoint r = ''enable_source''"
proof -
  let ?r = "admin_route ''POST'' ''/api/v1/sources/{source_id}/enable'' ''enable_source''"
  have "?r \<in> set (app_routes demo_builtin True)"
    by (simp add: app_routes_def include_router_def sources_routes_def route_defs)
  moreover have "path_match ?r ''/api/v1/sources/a1/enable'' = Some [''a1'']" by code_simp
  moreover have "method_match ?r ''POST''" by (simp add: method_match_def admin_route_def api_route_def)
  ultimately have "first_route (app_routes demo_builtin True) ''POST'' ''/api/v1/sources/a1/enable'' = Run ?r [''a1'']"
    using routes_are_independent [OF first_route.http_router_axioms demo_builtin_ok] by blast
  then show ?thesis by (auto simp: admin_route_def api_route_def)
qed

text \<open>
  C28: the seed endpoints through the door.  \<open>POST /api/v1/admin/reseed\<close> needs no token: outside
  production every request to it, whatever it carries, empties the three tables and commits the
  sample rows in place of what was stored.  In production it is refused and changes nothing.
\<close>

theorem anyone_can_reseed:
  assumes "http_router (ht_dispatch env)" and "builtin_ok builtin" and "ht_routes env = app_routes builtin web"
    and "seed_service db sview pview jview life disk"
    and "ht_body env ''reseed_data'' [] = reseed_data st (Some life) db senv"
    and "inj (se_isoformat senv)" and "hex_ok (se_hex senv)"
  shows "if is_production st
    then \<exists>e. handle_request env ''POST'' ''/api/v1/admin/reseed'' auth s = (Inl e, s) \<and> exc e = HTTPException 403
    else \<exists>s'. handle_request env ''POST'' ''/api/v1/admin/reseed'' auth s = (Inr (Answer seed_stats), s') \<and>
      disk s' = seeded senv"
proof -
  let ?r = "api_route ''POST'' ''/api/v1/admin/reseed'' ''reseed_data''"
  have "?r \<in> set (app_routes builtin web)"
    by (simp add: app_routes_def include_router_def admin_routes_def route_defs)
  moreover have "path_match ?r ''/api/v1/admin/reseed'' = Some []" by code_simp
  moreover have "method_match ?r ''POST''" by (simp add: method_match_def api_route_def)
  ultimately have "first_match (app_routes builtin web) ''POST'' ''/api/v1/admin/reseed'' = Some (?r, [])"
    by (rule first_match_unique [OF routes_apart [OF assms(2)]])
  from http_router.found [OF assms(1) this]
  have h: "handle_request env ''POST'' ''/api/v1/admin/reseed'' auth s =
      bindE (reseed_data st (Some life) db senv) (\<lambda>x. ret (Answer x)) s"
    by (simp add: handle_request_def assms(3,5) run_route_def api_route_def bindE_def)
  show ?thesis
  proof (cases "is_production st")
    case True
    then show ?thesis by (simp add: h reseed_data_def bindE_def)
  next
    case False
    obtain s' where "reset_and_seed life db senv s = (Inr seed_stats, s')" "disk s' = seeded senv"
      using seed_service.reset_seeds [OF assms(4,6,7)] by blast
    with False show ?thesis by (simp add: h reseed_data_def bindE_def)
  qed
qed

definition demo_reseed :: "(seed_mem, json) http_env" where
  "demo_reseed =
     \<lparr>ht_dispatch = first_route, ht_routes = app_routes demo_builtin True, ht_jwt = demo_jwt,
      ht_settings = Inr default_settings, ht_now = (\<lambda>_. sample_time), ht_limiter = (\<lambda>_. ret ()),
      ht_body = (\<lambda>f args. if f = ''reseed_data'' then reseed_data default_settings (Some seed_life) seed_tables demo_seed
                 else raise (Exn OtherError f))\<rparr>"

theorem anyone_can_reseed_witness:
  "\<exists>s'. handle_request demo_reseed ''POST'' ''/api/v1/admin/reseed'' (Inl (Exn (HTTPException 401) ''Not authenticated''))
      ((None, None, None), [source_row_of (sample_source ''mine'')], [], []) = (Inr (Answer seed_stats), s') \<and>
    seed_disk s' = seeded demo_seed"
proof -
  have env: "http_router (ht_dispatch demo_reseed)" "ht_routes demo_reseed = app_routes demo_builtin True"
    "ht_body demo_reseed ''reseed_data'' [] = reseed_data default_settings (Some seed_life) seed_tables demo_seed"
    by (simp_all add: demo_reseed_def first_route.http_router_axioms)
  have inj: "inj (se_isoformat demo_seed)" by (simp add: demo_seed_def demo_isoformat_inj)
  have "\<not> is_production default_settings" by code_simp
  then show ?thesis
    using anyone_can_reseed [OF env(1) demo_builtin_ok env(2) mem_seed.seed_service_axioms env(3) inj demo_hex_ok] by simp
qed

end
