(* ===== verification/Application.thy ===== *)
theory Application
  imports Middleware Routing
begin

text \<open>
  The application as \<open>create_app\<close> of \<open>interfaces/api/app.py\<close> returns it: the middleware stack and
  the exception handlers (\<open>Middleware\<close>) around the routes and their guards (\<open>Routing\<close>).
\<close>

section \<open>The application\<close>

text \<open>
  The framework's own replies: to a path or method no route takes, whose exception is Starlette's
  and not the \<open>HTTPException\<close> the application has a handler for, and to a path with a missing or
  superfluous slash.  \<open>bearer\<close> is \<open>OAuth2PasswordBearer\<close> on the request's headers.
\<close>

record framework =
  fw_refusal :: "nat \<Rightarrow> reply"
  fw_redirect :: "string \<Rightarrow> reply"

definition app_endpoint ::
  "framework \<Rightarrow> ('w, reply) http_env \<Rightarrow> (request \<Rightarrow> exn + string) \<Rightarrow> 'w endpoint" where
  "app_endpoint fw env bearer req =
     bindE (handle_request env (req_method req) (req_path req) (bearer req)) (\<lambda>a.
       ret (case a of Answer r \<Rightarrow> r | See_other url \<Rightarrow> fw_redirect fw url | Refused code \<Rightarrow> fw_refusal fw code))"

definition create_app ::
  "'w http_lib \<Rightarrow> framework \<Rightarrow> ('w, reply) http_env \<Rightarrow> (request \<Rightarrow> exn + string) \<Rightarrow> 'w http_state endpoint" where
  "create_app lib fw env bearer = serve lib (app_endpoint fw env bearer)"

text \<open>A missing token is answered 401.\<close>

definition bearer_ok :: "(request \<Rightarrow> exn + string) \<Rightarrow> bool" where
  "bearer_ok bearer \<longleftrightarrow> (\<forall>req e. bearer req = Inl e \<longrightarrow> exc e = HTTPException 401)"

section \<open>The stack and its endpoint\<close>

text \<open>What the stack does depends only on what its endpoint does to this request.\<close>

lemma serve_cong:
  assumes "request_scope lib req (hs_world s) = (rid, w)" and "ep req w = ep' req w"
  shows "serve lib ep req s = serve lib ep' req s"
proof -
  have h: "handled lib ep req t = handled lib ep' req t" if "hs_world t = w" for t
    using assms(2) that by (simp add: handled_def)
  have "request_scope lib req (hs_world (inc_inprogress s)) = (rid, w)"
    using assms(1) by (simp add: inc_inprogress_def)
  then have "request_id_dispatch lib (handled lib ep) req (inc_inprogress s) =
      request_id_dispatch lib (handled lib ep') req (inc_inprogress s)"
    unfolding request_id_dispatch_def request_scope_def [symmetric] by (simp add: bindE_def h)
  then have "access_dispatch lib (request_id_dispatch lib (handled lib ep)) req s =
      access_dispatch lib (request_id_dispatch lib (handled lib ep')) req s"
    by (simp add: access_dispatch_def)
  then show ?thesis by (simp add: serve_def error_dispatch_def try_except_def)
qed

lemma refused_status:
  assumes "jose_ok (ht_jwt env)" and "ht_settings env = Inr cfg"
    and "\<And>e. auth = Inl e \<Longrightarrow> exc e = HTTPException 401" and "admitted env s auth = Inl e"
  shows "exc e \<in> {HTTPException 401, HTTPException 403}"
proof (cases auth)
  case (Inl e')
  with assms(3,4) show ?thesis by (simp add: admitted_def)
next
  case (Inr token)
  let ?d = "jwt_decode (ht_jwt env) (ht_now env s) token (secret_key cfg) [jwt_algorithm cfg]"
  have jwt: "exc e' = JWTError" if "?d = Inl e'" for e'
    using assms(1) that unfolding jose_ok_def by blast
  show ?thesis
    using assms(2,4) Inr jwt
    by (cases ?d) (auto simp: admitted_def require_role_def split: if_splits)
qed


section \<open>Properties\<close>


definition demo_app :: "(nat, reply) http_env" where
  "demo_app =
     \<lparr>ht_dispatch = first_route, ht_routes = app_routes demo_builtin True, ht_jwt = demo_jwt,
      ht_settings = Inr default_settings, ht_now = (\<lambda>_. sample_time), ht_limiter = (\<lambda>_ n. (Inr (), n + 1)),
      ht_body = (\<lambda>f args n. (Inr \<lparr>reply_status = 200, reply_headers = [], reply_body = JStr f\<rparr>, n + 1))\<rparr>"

definition demo_framework :: framework where
  "demo_framework =
     \<lparr>fw_refusal = (\<lambda>c. \<lparr>reply_status = int c, reply_headers = [], reply_body = JObj [(''detail'', JNull)]\<rparr>),
      fw_redirect = (\<lambda>url. \<lparr>reply_status = 307, reply_headers = [(''location'', url)], reply_body = JNull\<rparr>)\<rparr>"

definition demo_bearer :: "request \<Rightarrow> exn + string" where
  "demo_bearer req =
     (case map_of (req_headers req) ''authorization'' of
        None \<Rightarrow> Inl (Exn (HTTPException 401) ''Not authenticated'') | Some t \<Rightarrow> Inr t)"


definition bare_request :: "string \<Rightarrow> string \<Rightarrow> request" where
  "bare_request m path = \<lparr>req_method = m, req_path = path, req_headers = []\<rparr>"


end
