(* ===== verification/Routers.thy ===== *)
theory Routers
  imports ProgramRepository JobRepository
begin

text \<open>
  The read-only routers of \<open>interfaces/api/routers\<close>: \<open>programs.py\<close>, \<open>jobs.py\<close>,
  \<open>channels.py\<close>, the channel ranking of \<open>dashboard.py\<close> and the CSV file of \<open>export.py\<close>.
  Python's \<open>csv.writer\<close> is modelled with the settings the code uses (the default dialect); its
  counterpart \<open>csv_rows\<close> is a reader for that format, against which the export is proved.
\<close>

section \<open>CSV\<close>

text \<open>
  \<open>QUOTE_MINIMAL\<close> quotes a field that holds the delimiter, the quote or a character of a line
  end, and doubles the quotes in it; a row of one empty field is written as two quotes.
\<close>

definition csv_special :: "char \<Rightarrow> bool" where
  "csv_special c \<longleftrightarrow> c = CHR '','' \<or> c = CHR 0x22 \<or> c = CHR 0x0D \<or> c = CHR 0x0A"

fun csv_escape :: "string \<Rightarrow> string" where
  "csv_escape [] = []"
| "csv_escape (c # cs) = (if c = CHR 0x22 then [c, c] else [c]) @ csv_escape cs"

definition csv_field :: "string \<Rightarrow> string" where
  "csv_field f = (if list_ex csv_special f then CHR 0x22 # csv_escape f @ [CHR 0x22] else f)"

fun csv_fields :: "string list \<Rightarrow> string" where
  "csv_fields [] = []"
| "csv_fields [f] = csv_field f"
| "csv_fields (f # fs) = csv_field f @ CHR '','' # csv_fields fs"

definition writerow :: "string list \<Rightarrow> string" where
  "writerow fs =
     (if fs = [[]] then [CHR 0x22, CHR 0x22] else csv_fields fs) @ [CHR 0x0D, CHR 0x0A]"

text \<open>The reader: a field is plain, quoted, or quoted with a quote just read; rows end with CRLF.\<close>

datatype csv_state = Plain | Quoted | Closing | LineEnd

fun csv_scan :: "csv_state \<Rightarrow> string \<Rightarrow> string list \<Rightarrow> string \<Rightarrow> string list list" where
  "csv_scan st f fs [] = (if f = [] \<and> fs = [] \<and> st = Plain then [] else [fs @ [f]])"
| "csv_scan Plain f fs (c # cs) =
     (if c = CHR 0x22 \<and> f = [] then csv_scan Quoted f fs cs
      else if c = CHR '','' then csv_scan Plain [] (fs @ [f]) cs
      else if c = CHR 0x0D then csv_scan LineEnd f fs cs
      else csv_scan Plain (f @ [c]) fs cs)"
| "csv_scan Quoted f fs (c # cs) =
     (if c = CHR 0x22 then csv_scan Closing f fs cs else csv_scan Quoted (f @ [c]) fs cs)"
| "csv_scan Closing f fs (c # cs) =
     (if c = CHR 0x22 then csv_scan Quoted (f @ [c]) fs cs
      else if c = CHR '','' then csv_scan Plain [] (fs @ [f]) cs
      else if c = CHR 0x0D then csv_scan LineEnd f fs cs
      else csv_scan Plain (f @ [c]) fs cs)"
| "csv_scan LineEnd f fs (c # cs) = (fs @ [f]) # csv_scan Plain [] [] cs"

definition csv_rows :: "string \<Rightarrow> string list list" where
  "csv_rows = csv_scan Plain [] []"

text \<open>After a field the reader is at a delimiter or at the end of the line.\<close>

definition csv_stop :: "string \<Rightarrow> bool" where
  "csv_stop s \<longleftrightarrow> (\<exists>cs. s = CHR '','' # cs \<or> s = CHR 0x0D # cs)"

lemma csv_scan_quoted:
  "csv_scan Quoted f fs (csv_escape g @ CHR 0x22 # rest) = csv_scan Closing (f @ g) fs rest"
  by (induction g arbitrary: f) auto

lemma csv_scan_plain:
  "\<not> list_ex csv_special g \<Longrightarrow> csv_scan Plain f fs (g @ rest) = csv_scan Plain (f @ g) fs rest"
  by (induction g arbitrary: f) (auto simp: csv_special_def)

lemma csv_scan_field:
  assumes "csv_stop rest"
  shows "csv_scan Plain [] fs (csv_field f @ rest) =
    (case rest of c # cs \<Rightarrow> if c = CHR '','' then csv_scan Plain [] (fs @ [f]) cs else csv_scan LineEnd f fs cs
     | [] \<Rightarrow> [])"
proof (cases "list_ex csv_special f")
  case True
  then show ?thesis
    using assms csv_scan_quoted [of "[]" fs f rest] by (auto simp: csv_field_def csv_stop_def)
next
  case False
  then show ?thesis
    using assms csv_scan_plain [OF False, of "[]" fs rest] by (auto simp: csv_field_def csv_stop_def)
qed

lemma csv_scan_fields:
  assumes "fs \<noteq> []"
  shows "csv_scan Plain [] done (csv_fields fs @ CHR 0x0D # CHR 0x0A # rest) =
    (done @ fs) # csv_scan Plain [] [] rest"
  using assms
proof (induction fs arbitrary: "done" rule: csv_fields.induct)
  case (2 f)
  have "csv_stop (CHR 0x0D # CHR 0x0A # rest)" by (simp add: csv_stop_def)
  from csv_scan_field [OF this, of "done" f] show ?case by simp
next
  case (3 f g gs)
  let ?rest = "CHR '','' # csv_fields (g # gs) @ CHR 0x0D # CHR 0x0A # rest"
  have "csv_stop ?rest" by (simp add: csv_stop_def)
  from csv_scan_field [OF this, of "done" f] "3.IH" [of "done @ [f]"] show ?case by simp
qed simp

lemma csv_rows_writerow:
  assumes "fs \<noteq> []"
  shows "csv_rows (writerow fs @ rest) = fs # csv_rows rest"
  using csv_scan_fields [OF assms, of "[]" rest] by (auto simp: csv_rows_def writerow_def)

lemma csv_rows_export: "[] \<notin> set rows \<Longrightarrow> csv_rows (concat (map writerow rows)) = rows"
  by (induction rows) (auto simp: csv_rows_writerow, simp add: csv_rows_def)

section \<open>Programmes\<close>

record program_out =
  po_id :: "string option"
  po_title :: string
  po_description :: "string option"
  po_channel_id :: string
  po_channel_name :: string
  po_start :: datetime
  po_end :: datetime
  po_timezone :: string
  po_tags :: "json list"
  po_source_ids :: "string list"
  po_version :: int

definition to_program_out :: "tv_program \<Rightarrow> program_out" where
  "to_program_out p =
     \<lparr>po_id = prog_id p, po_title = title p, po_description = description p,
      po_channel_id = channel_id (channel p), po_channel_name = channel_name (channel p),
      po_start = slot_start (slot p), po_end = slot_end (slot p), po_timezone = slot_timezone (slot p),
      po_tags = map tag_dump (tags p), po_source_ids = source_ids p, po_version = version p\<rparr>"

definition list_programs ::
  "('s, program_row) session_api \<Rightarrow> repo_env \<Rightarrow> datetime \<Rightarrow> datetime \<Rightarrow> string option \<Rightarrow> ('s, program_out list) eff" where
  "list_programs api env start end' chan =
     bindE (list_by_range api env start end' chan) (\<lambda>rows. ret (map to_program_out rows))"

definition count_programs :: "('s, program_row) session_api \<Rightarrow> ('s, json) eff" where
  "count_programs api = bindE (count api) (\<lambda>n. ret (JObj [(''count'', JInt (int n))]))"

section \<open>The CSV export\<close>

definition export_header :: "string list" where
  "export_header = [''title'', ''channel'', ''start'', ''end'', ''description'']"

definition export_row :: "(datetime \<Rightarrow> string) \<Rightarrow> tv_program \<Rightarrow> string list" where
  "export_row fmt p =
     [title p, channel_name (channel p), fmt (slot_start (slot p)), fmt (slot_end (slot p)),
      (case description p of None \<Rightarrow> [] | Some d \<Rightarrow> d)]"

definition export_programs_csv ::
  "(datetime \<Rightarrow> string) \<Rightarrow> ('s, program_row) session_api \<Rightarrow> repo_env \<Rightarrow> datetime \<Rightarrow> datetime \<Rightarrow> string option \<Rightarrow>
   ('s, string) eff" where
  "export_programs_csv fmt api env start end' chan =
     bindE (list_by_range api env start end' chan) (\<lambda>rows.
       ret (concat (map writerow (export_header # map (export_row fmt) rows))))"

section \<open>Jobs\<close>

text \<open>\<open>JobOut\<close>, the reply model, which is filled from the attributes of the job.\<close>

record job_out =
  jo_id :: string
  jo_source_id :: string
  jo_status :: job_status
  jo_started_at :: datetime
  jo_finished_at :: "datetime option"
  jo_items_fetched :: nat
  jo_items_saved :: nat
  jo_error :: "string option"
  jo_trace_id :: "string option"

definition to_job_out :: "crawl_job \<Rightarrow> job_out" where
  "to_job_out j =
     \<lparr>jo_id = job_id j, jo_source_id = job_source_id j, jo_status = job_status j, jo_started_at = job_started_at j,
      jo_finished_at = job_finished_at j, jo_items_fetched = items_fetched j, jo_items_saved = items_saved j,
      jo_error = job_error j, jo_trace_id = job_trace_id j\<rparr>"

text \<open>\<open>limit: int = Query(50, ge=1, le=500)\<close>; FastAPI refuses other values.\<close>

definition list_jobs ::
  "'s job_port \<Rightarrow> string option \<Rightarrow> job_status option \<Rightarrow> int \<Rightarrow> ('s, job_out list) eff" where
  "list_jobs repo sid st limit =
     (if 1 \<le> limit \<and> limit \<le> 500
      then bindE (jp_list repo sid st (nat limit)) (\<lambda>js. ret (map to_job_out js))
      else raise (Exn RequestValidationError ''request validation failed''))"

section \<open>Channels\<close>

text \<open>
  \<open>select(columns, count(id)).group_by(columns).order_by(count(id).desc())\<close> with a limit is the
  parameter \<open>grouped\<close>; \<open>group_answers\<close> is what SQL promises of it.
\<close>

type_synonym columns = "string option list"

type_synonym 's grouped = "(program_row \<Rightarrow> columns) \<Rightarrow> int option \<Rightarrow> ('s, (columns \<times> int) list) eff"

definition group_answers ::
  "(program_row \<Rightarrow> columns) \<Rightarrow> int option \<Rightarrow> program_row set \<Rightarrow> (columns \<times> int) list \<Rightarrow> bool" where
  "group_answers key limit S xs \<longleftrightarrow>
     (\<exists>ys. distinct (map fst ys) \<and> set ys = (\<lambda>k. (k, int (card {r \<in> S. key r = k}))) ` key ` S \<and>
        sorted (map (\<lambda>y. - snd y) ys) \<and> xs = (case limit of None \<Rightarrow> ys | Some n \<Rightarrow> take (nat n) ys))"

definition groups_ok :: "'s grouped \<Rightarrow> ('s \<Rightarrow> program_row set option) \<Rightarrow> bool" where
  "groups_ok grouped view \<longleftrightarrow>
     (\<forall>s S key limit. view s = Some S \<longrightarrow> (\<forall>n. limit = Some n \<longrightarrow> 0 \<le> n) \<longrightarrow>
        (\<exists>xs s'. grouped key limit s = (Inr xs, s') \<and> view s' = Some S \<and> group_answers key limit S xs))"

record channel_out =
  co_channel_id :: "string option"
  co_channel_name :: "string option"
  co_channel_country :: "string option"
  co_channel_language :: "string option"
  co_program_count :: int

definition channel_key :: "program_row \<Rightarrow> columns" where
  "channel_key r =
     [Some (prow_channel_id r), Some (prow_channel_name r), prow_channel_country r, prow_channel_language r]"

definition to_channel_out :: "columns \<times> int \<Rightarrow> channel_out" where
  "to_channel_out x =
     (case x of (k, n) \<Rightarrow>
        \<lparr>co_channel_id = k ! 0, co_channel_name = k ! 1, co_channel_country = k ! 2,
         co_channel_language = k ! 3, co_program_count = n\<rparr>)"

definition list_channels :: "'s grouped \<Rightarrow> ('s, channel_out list) eff" where
  "list_channels grouped = bindE (grouped channel_key None) (\<lambda>rows. ret (map to_channel_out rows))"

definition top_key :: "program_row \<Rightarrow> columns" where
  "top_key r = [Some (prow_channel_id r), Some (prow_channel_name r)]"

definition top_item :: "columns \<times> int \<Rightarrow> json" where
  "top_item x =
     (case x of (k, n) \<Rightarrow>
        JObj [(''channel_id'', (case k ! 0 of None \<Rightarrow> JNull | Some i \<Rightarrow> JStr i)),
              (''channel_name'', (case k ! 1 of None \<Rightarrow> JNull | Some nm \<Rightarrow> JStr nm)),
              (''program_count'', JInt n)])"

definition top_channels :: "'s grouped \<Rightarrow> int \<Rightarrow> ('s, json) eff" where
  "top_channels grouped limit =
     bindE (grouped top_key (Some limit)) (\<lambda>rows. ret (JObj [(''items'', JList (map top_item rows))]))"

text \<open>The counts of all groups add up to the number of rows.\<close>

lemma group_counts:
  assumes "group_answers key None S xs" "finite S"
  shows "sum_list (map snd xs) = int (card S)"
proof -
  have xs: "distinct (map fst xs)" "set xs = (\<lambda>k. (k, int (card {r \<in> S. key r = k}))) ` key ` S"
    using assms(1) by (auto simp: group_answers_def)
  have "inj_on (\<lambda>k. (k, int (card {r \<in> S. key r = k}))) (key ` S)" by (auto intro: inj_onI)
  then have "sum_list (map snd xs) = (\<Sum>k \<in> key ` S. int (card {r \<in> S. key r = k}))"
    using sum_list_distinct_conv_sum_set [of xs snd] xs by (simp add: distinct_map sum.reindex)
  also have "\<dots> = int (card S)"
    using sum.image_gen [OF assms(2), of "\<lambda>_. 1 :: int" key] by simp
  finally show ?thesis .
qed

text \<open>The groups computed on the rows of the in-memory session.\<close>

definition mem_grouped :: "program_row list option grouped" where
  "mem_grouped key limit =
     bindE (mem_flush program_clash program_store) (\<lambda>rs.
       let ys = sort_key (\<lambda>y. - snd y)
                  (map (\<lambda>k. (k, int (card {r \<in> set rs. key r = k}))) (remdups (map key rs)))
       in ret (case limit of None \<Rightarrow> ys | Some n \<Rightarrow> take (nat n) ys))"

lemma mem_grouped_ok: "groups_ok mem_grouped mem_programs_view"
proof (unfold groups_ok_def, intro allI impI)
  fix s S and key :: "program_row \<Rightarrow> columns" and limit :: "int option"
  assume "mem_programs_view s = Some S"
  then obtain rs where rs: "s = Some rs" "mem_ok program_clash program_store rs" "set rs = S"
    by (auto simp: mem_view_eq_Some)
  let ?ys = "sort_key (\<lambda>y. - snd y) (map (\<lambda>k. (k, int (card {r \<in> set rs. key r = k}))) (remdups (map key rs)))"
  have "distinct (map fst ?ys)"
  proof (rule iffD2 [OF mset_eq_imp_distinct_iff])
    show "mset (map fst ?ys) = mset (remdups (map key rs))"
      unfolding mset_map mset_sort by (simp add: image_mset.compositionality comp_def)
  qed simp
  moreover have "set ?ys = (\<lambda>k. (k, int (card {r \<in> S. key r = k}))) ` key ` S"
    using rs(3) by simp
  moreover have "sorted (map (\<lambda>y. - snd y) ?ys)" by simp
  ultimately have "group_answers key limit S (case limit of None \<Rightarrow> ?ys | Some n \<Rightarrow> take (nat n) ?ys)"
    unfolding group_answers_def by blast
  moreover have "mem_grouped key limit s = (Inr (case limit of None \<Rightarrow> ?ys | Some n \<Rightarrow> take (nat n) ?ys), s)"
    by (simp add: mem_grouped_def bindE_def rs(1) mem_flush_Some [OF rs(2)] Let_def)
  moreover have "mem_programs_view s = Some S" using rs by (auto simp: mem_view_eq_Some)
  ultimately show "\<exists>xs s'. mem_grouped key limit s = (Inr xs, s') \<and> mem_programs_view s' = Some S \<and>
      group_answers key limit S xs" by blast
qed

section \<open>Properties\<close>



text \<open>
  The channel statistics.  \<open>GET /channels\<close> lists every channel (with its name, country and
  language) once, and its counts add up to the number of stored programmes; the dashboard's
  ranking gives \<open>limit\<close> channels, or all there are when they are fewer, each with its number of
  programmes, in descending order, and no channel left out has more than one listed.
\<close>

theorem channel_statistics:
  assumes "program_session api view" and "groups_ok grouped view" and "view s = Some S" and "0 \<le> limit"
  shows "\<exists>xs s1 ys s2. list_channels grouped s = (Inr xs, s1) \<and>
    sum_list (map co_program_count xs) = int (card S) \<and> length xs = card (channel_key ` S) \<and>
    top_channels grouped limit s = (Inr (JObj [(''items'', JList (map top_item ys))]), s2) \<and>
    length ys = min (nat limit) (card (top_key ` S)) \<and>
    distinct (map fst ys) \<and> sorted (map (\<lambda>y. - snd y) ys) \<and>
    (\<forall>(k, n) \<in> set ys. k \<in> top_key ` S \<and> n = int (card {r \<in> S. top_key r = k})) \<and>
    (\<forall>k \<in> top_key ` S - fst ` set ys. \<forall>(_, n) \<in> set ys. int (card {r \<in> S. top_key r = k}) \<le> n)"
proof -
  have "finite S"
    using sql_session.view_ok [OF assms(1) [unfolded program_session_def] assms(3)] by blast
  have "\<forall>n. (None :: int option) = Some n \<longrightarrow> 0 \<le> n" by simp
  then obtain gs s1 where gs: "grouped channel_key None s = (Inr gs, s1)" "group_answers channel_key None S gs"
    using assms(2,3) unfolding groups_ok_def by metis
  have counts: "map co_program_count (map to_channel_out gs) = map snd gs"
    by (simp add: to_channel_out_def split: prod.splits)
  have "sum_list (map co_program_count (map to_channel_out gs)) = int (card S)"
    unfolding counts by (rule group_counts [OF gs(2) \<open>finite S\<close>])
  moreover have "length gs = card (channel_key ` S)"
  proof -
    have "fst ` set gs = channel_key ` S" "distinct (map fst gs)"
      using gs(2) by (auto simp: group_answers_def image_image)
    then show ?thesis using distinct_card [of "map fst gs"] by simp
  qed
  moreover obtain ys s2 where ys: "grouped top_key (Some limit) s = (Inr ys, s2)"
      "group_answers top_key (Some limit) S ys"
    using assms(2-4) unfolding groups_ok_def by (metis option.inject)
  then obtain zs where zs: "distinct (map fst zs)"
      "set zs = (\<lambda>k. (k, int (card {r \<in> S. top_key r = k}))) ` top_key ` S"
      "sorted (map (\<lambda>y. - snd y) zs)" "ys = take (nat limit) zs"
    by (auto simp: group_answers_def)
  have "fst ` set zs = top_key ` S" by (simp add: zs(2) image_image)
  then have "length zs = card (top_key ` S)" using distinct_card [OF zs(1)] by simp
  then have "length ys = min (nat limit) (card (top_key ` S))" by (simp add: zs(4) min.commute)
  moreover have "distinct (map fst ys)" "sorted (map (\<lambda>y. - snd y) ys)"
    using zs(1,3) by (simp_all add: zs(4) take_map [symmetric] sorted_wrt_take)
  moreover have "\<forall>(k, n) \<in> set ys. k \<in> top_key ` S \<and> n = int (card {r \<in> S. top_key r = k})"
    using set_take_subset [of "nat limit" zs] by (auto simp: zs(2,4))
  moreover have "int (card {r \<in> S. top_key r = k}) \<le> n"
    if "k \<in> top_key ` S - fst ` set ys" "(k', n) \<in> set ys" for k k' n
  proof -
    let ?y = "(k, int (card {r \<in> S. top_key r = k}))"
    have "?y \<in> set zs" using that(1) by (auto simp: zs(2))
    moreover have "?y \<notin> set ys" using that(1) by force
    ultimately have "?y \<in> set (drop (nat limit) zs)"
      using append_take_drop_id [of "nat limit" zs] zs(4) by (metis Un_iff set_append)
    moreover have "sorted (map (\<lambda>y. - snd y) (ys @ drop (nat limit) zs))"
      using zs(3,4) by simp
    ultimately show ?thesis using that(2) by (force simp: sorted_append)
  qed
  ultimately show ?thesis
    using gs(1) ys(1) unfolding list_channels_def top_channels_def
    by (intro exI [of _ "map to_channel_out gs"] exI [of _ s1] exI [of _ ys] exI [of _ s2])
      (auto simp: bindE_def)
qed

theorem channel_statistics_witness:
  "\<exists>xs s1. list_channels mem_grouped (Some [sample_row ''k'' ''a'']) = (Inr xs, s1) \<and>
     sum_list (map co_program_count xs) = 1"
proof -
  have "mem_programs_view (Some [sample_row ''k'' ''a'']) = Some {sample_row ''k'' ''a''}"
    by (simp add: mem_view_eq_Some mem_ok_def)
  from channel_statistics [OF mem_programs.program_session_axioms mem_grouped_ok this, of 10] show ?thesis by auto
qed

end
