(* ===== verification/Dashboard.thy ===== *)
theory Dashboard
  imports Dedup Cache SourceRepository JobRepository ProgramRepository
begin

text \<open>
  \<open>interfaces/api/routers/dashboard.py\<close>: the summary, which a \<open>TTLCache\<close> keeps for thirty
  seconds, and the timeline.  The repositories are the ports; the two queries the router sends
  itself go to the session of the programme table.
\<close>

section \<open>Counting\<close>

text \<open>\<open>Counter(xs)\<close>, and its item access, which gives zero for a missing key.\<close>

definition counter :: "'a list \<Rightarrow> ('a, int) dict" where
  "counter xs = foldl (\<lambda>d x. dict_set x ((case map_of d x of None \<Rightarrow> 0 | Some n \<Rightarrow> n) + 1) d) [] xs"

definition counter_get :: "('a, int) dict \<Rightarrow> 'a \<Rightarrow> int" where
  "counter_get d x = (case map_of d x of None \<Rightarrow> 0 | Some n \<Rightarrow> n)"

lemma counter_snoc: "counter (xs @ [x]) = dict_set x (counter_get (counter xs) x + 1) (counter xs)"
  by (simp add: counter_def counter_get_def)

lemma counter_get_counter: "counter_get (counter xs) x = int (length (filter ((=) x) xs))"
proof (induction xs rule: rev_induct)
  case (snoc y ys)
  have "counter_get (dict_set k n d) x = (if x = k then n else counter_get d x)" for k n d
    by (simp add: counter_get_def)
  with snoc show ?case by (auto simp: counter_snoc)
qed (simp add: counter_def counter_get_def)

lemma sum_counter: "sum_list (dict_values (counter xs)) = int (length xs)"
proof (induction xs rule: rev_induct)
  case (snoc x xs)
  have "sum_list (dict_values (dict_set k (counter_get d k + 1) d)) = sum_list (dict_values d) + 1" for k and d :: "('a, int) dict"
    by (induction d) (auto simp: counter_get_def)
  with snoc show ?case by (simp add: counter_snoc)
qed (simp add: counter_def)

section \<open>The summary\<close>

record 's dash_env =
  de_now :: "'s \<Rightarrow> datetime"
  de_monotonic :: "'s \<Rightarrow> real"
  de_isoformat :: "datetime \<Rightarrow> string"
  de_programs :: "('s, program_row) session_api"
  de_sources :: "'s source_port"
  de_jobs :: "'s job_port"

definition job_entry :: "(datetime \<Rightarrow> string) \<Rightarrow> crawl_job \<Rightarrow> json" where
  "job_entry fmt j =
     JObj [(''id'', JStr (job_id j)), (''source_id'', JStr (job_source_id j)),
           (''status'', JStr (job_status_value (job_status j))),
           (''started_at'', JStr (fmt (job_started_at j))),
           (''finished_at'', (case job_finished_at j of None \<Rightarrow> JNull | Some t \<Rightarrow> JStr (fmt t))),
           (''items_fetched'', JInt (int (items_fetched j))), (''items_saved'', JInt (int (items_saved j)))]"

definition counter_json :: "(string, int) dict \<Rightarrow> json" where
  "counter_json d = JObj (map (\<lambda>(k, n). (k, JInt n)) d)"

definition summary_json ::
  "(datetime \<Rightarrow> string) \<Rightarrow> datetime \<Rightarrow> nat \<Rightarrow> nat \<Rightarrow> tv_source list \<Rightarrow> crawl_job list \<Rightarrow> json" where
  "summary_json fmt now n_total n_recent sources jobs =
     (let by_status = counter (map src_status sources);
          by_type = counter (map (\<lambda>s. source_type_value (src_type s)) sources);
          jobs_by_status = counter (map (\<lambda>j. job_status_value (job_status j)) jobs)
      in JObj
        [(''generated_at'', JStr (fmt now)),
         (''programs'', JObj [(''total'', JInt (int n_total)), (''last_24h'', JInt (int n_recent))]),
         (''sources'', JObj
           [(''total'', JInt (int (length sources))), (''active'', JInt (counter_get by_status ACTIVE)),
            (''disabled'', JInt (counter_get by_status DISABLED)), (''by_type'', counter_json by_type)]),
         (''jobs'', JObj [(''recent'', JList (map (job_entry fmt) jobs)), (''by_status'', counter_json jobs_by_status)])])"

definition recent_query :: "datetime \<Rightarrow> program_row query" where
  "recent_query cutoff = q_where (\<lambda>r. dt_wall cutoff \<le> dt_wall (prow_start_at r)) select_all"

definition summary_compute :: "'s dash_env \<Rightarrow> ('s, json) eff" where
  "summary_compute env s =
     (let now = de_now env s; cutoff = dt_plus now (- (24 * 3600 * us_per_second)) in
      bindE (count (de_programs env)) (\<lambda>n_total.
      bindE (exec_select (de_programs env) (recent_query cutoff)) (\<lambda>recent.
      bindE (sp_list (de_sources env) None) (\<lambda>sources.
      bindE (jp_list (de_jobs env) None None 10) (\<lambda>jobs.
        ret (summary_json (de_isoformat env) now n_total (length recent) sources jobs))))) s)"

text \<open>
  \<open>TTLCache.get_or_set\<close> for one call at a time, the cache beside the world; the second read
  is the one under the lock.
\<close>

definition get_or_set ::
  "('s \<Rightarrow> real) \<Rightarrow> string \<Rightarrow> real \<Rightarrow> ('s, 'v) eff \<Rightarrow> ('s \<times> 'v store, 'v) eff" where
  "get_or_set monotonic key ttl factory s =
     (case s of (w, store) \<Rightarrow>
        case cache_get (monotonic w) key store of
          (Some v, store1) \<Rightarrow> (Inr v, (w, store1))
        | (None, store1) \<Rightarrow>
            (case cache_get (monotonic w) key store1 of
               (Some v, store2) \<Rightarrow> (Inr v, (w, store2))
             | (None, store2) \<Rightarrow>
                 (case factory w of
                    (Inl e, w') \<Rightarrow> (Inl e, (w', store2))
                  | (Inr v, w') \<Rightarrow> (Inr v, (w', cache_set (monotonic w') key (Some v) ttl store2)))))"

definition dashboard_summary :: "'s dash_env \<Rightarrow> ('s \<times> json store, json) eff" where
  "dashboard_summary env = get_or_set (de_monotonic env) ''dashboard:summary'' 30 (summary_compute env)"

section \<open>The timeline\<close>

text \<open>\<open>rank\<close> is the database's order of \<open>(channel_id, start_at)\<close>.\<close>

definition timeline_query ::
  "(program_row \<Rightarrow> int) \<Rightarrow> datetime \<Rightarrow> datetime \<Rightarrow> string option \<Rightarrow> program_row query" where
  "timeline_query rank start end' chan =
     (let stmt = q_order_by rank (q_where (\<lambda>r. dt_wall (prow_start_at r) \<le> dt_wall end' \<and>
                                              dt_wall start \<le> dt_wall (prow_end_at r)) select_all)
      in case chan of
           None \<Rightarrow> stmt
         | Some c \<Rightarrow> if c = [] then stmt else q_where (\<lambda>r. prow_channel_id r = c) stmt)"

definition block :: "(datetime \<Rightarrow> string) \<Rightarrow> program_row \<Rightarrow> json" where
  "block fmt r =
     JObj [(''id'', JStr (prow_id r)), (''title'', JStr (prow_title r)),
           (''description'', (case prow_description r of None \<Rightarrow> JNull | Some d \<Rightarrow> JStr d)),
           (''start'', JStr (fmt (prow_start_at r))), (''end'', JStr (fmt (prow_end_at r))),
           (''channel_id'', JStr (prow_channel_id r)), (''channel_name'', JStr (prow_channel_name r)),
           (''tags'', JList (prow_tags r))]"

definition by_channel :: "(datetime \<Rightarrow> string) \<Rightarrow> program_row list \<Rightarrow> (string, json list) dict" where
  "by_channel fmt rows = foldl (\<lambda>d r. dict_append (prow_channel_name r) (block fmt r) d) [] rows"

definition dashboard_timeline ::
  "'s dash_env \<Rightarrow> (program_row \<Rightarrow> int) \<Rightarrow> int \<Rightarrow> string option \<Rightarrow> ('s, json) eff" where
  "dashboard_timeline env rank hours chan s =
     (let now = de_now env s;
          start = dt_plus now (- (30 * 60 * us_per_second));
          end' = dt_plus now (hours * 3600 * us_per_second);
          fmt = de_isoformat env
      in bindE (exec_select (de_programs env) (timeline_query rank start end' chan)) (\<lambda>rows.
           ret (JObj [(''from'', JStr (fmt start)), (''to'', JStr (fmt end')), (''now'', JStr (fmt now)),
             (''channels'', JList (map (\<lambda>r. JObj [(''id'', JStr (prow_channel_id r)),
                                               (''name'', JStr (prow_channel_name r))]) (take 1 rows))),
             (''programs_by_channel'', JObj (map (\<lambda>(k, bs). (k, JList bs)) (by_channel fmt rows)))])) s)"

lemma by_channel_spec:
  "by_channel fmt rows =
     map (\<lambda>n. (n, map (block fmt) (filter (\<lambda>r. prow_channel_name r = n) rows)))
       (firsts (map prow_channel_name rows))"
  by (simp add: by_channel_def fold_dict_append)

section \<open>What the cache does to a call\<close>

lemma get_or_set_hit:
  assumes "fresh (monotonic w) store key = Some v"
  shows "\<exists>st. get_or_set monotonic key ttl factory (w, store) = (Inr v, (w, st))"
  using assms fst_cache_get [of "monotonic w" key store]
  by (cases "cache_get (monotonic w) key store") (simp add: get_or_set_def)

lemma get_or_set_miss:
  assumes "fresh (monotonic w) store key = None" and "factory w = (out, w')"
  shows "\<exists>st. get_or_set monotonic key ttl factory (w, store) = (out, (w', st)) \<and>
    (case out of
       Inl e \<Rightarrow> \<forall>now. monotonic w \<le> now \<longrightarrow> fresh now st key = fresh now store key
     | Inr v \<Rightarrow> \<forall>now. fresh now st key = (if monotonic w' + ttl \<le> now then None else Some v))"
proof -
  let ?now = "monotonic w"
  obtain st1 where 1: "cache_get ?now key store = (None, st1)"
    using assms(1) fst_cache_get [of ?now key store] by (metis prod.exhaust_sel)
  then have "fresh ?now st1 key = None" using fresh_get_keep [of ?now ?now key store key] assms(1) by simp
  then obtain st2 where 2: "cache_get ?now key st1 = (None, st2)"
    using fst_cache_get [of ?now key st1] by (metis prod.exhaust_sel)
  have keep: "fresh now st2 key = fresh now store key" if "?now \<le> now" for now
    using fresh_get_keep [OF that, of key store key] fresh_get_keep [OF that, of key st1 key] 1 2 by simp
  show ?thesis
  proof (cases out)
    case (Inl e)
    with 1 2 assms(2) keep show ?thesis by (simp add: get_or_set_def)
  next
    case (Inr v)
    with 1 2 assms(2) show ?thesis by (simp add: get_or_set_def fresh_cache_set)
  qed
qed

text \<open>
  C20: a summary is at most thirty seconds old and never half made.  A request that finds no live
  summary computes one; for the next thirty seconds every request gets that same snapshot
  without touching the database, whatever has been written in between, and the first one after
  that computes a new one.  A computation that raises leaves nothing in the cache, so the next
  request tries again.
\<close>

theorem summary_cached:
  assumes "fresh (de_monotonic env w) store ''dashboard:summary'' = None" and "summary_compute env w = (out, w')"
  shows "\<exists>st. dashboard_summary env (w, store) = (out, (w', st)) \<and>
    (\<forall>w2. de_monotonic env w \<le> de_monotonic env w2 \<longrightarrow>
       (case out of
          Inr v \<Rightarrow>
            if de_monotonic env w2 < de_monotonic env w' + 30
            then \<exists>st2. dashboard_summary env (w2, st) = (Inr v, (w2, st2))
            else \<exists>st2. dashboard_summary env (w2, st) =
              (fst (summary_compute env w2), (snd (summary_compute env w2), st2))
        | Inl e \<Rightarrow> fresh (de_monotonic env w2) store ''dashboard:summary'' = None \<longrightarrow>
            (\<exists>st2. dashboard_summary env (w2, st) =
              (fst (summary_compute env w2), (snd (summary_compute env w2), st2)))))"
proof -
  let ?key = "''dashboard:summary''"
  obtain st where st: "dashboard_summary env (w, store) = (out, (w', st))"
      "case out of
         Inl e \<Rightarrow> \<forall>now. de_monotonic env w \<le> now \<longrightarrow> fresh now st ?key = fresh now store ?key
       | Inr v \<Rightarrow> \<forall>now. fresh now st ?key = (if de_monotonic env w' + 30 \<le> now then None else Some v)"
    using get_or_set_miss [where monotonic = "de_monotonic env" and factory = "summary_compute env" and ttl = 30, OF assms] unfolding dashboard_summary_def by blast
  have again: "\<exists>st2. dashboard_summary env (w2, st) = (fst (summary_compute env w2), (snd (summary_compute env w2), st2))"
    if "fresh (de_monotonic env w2) st ?key = None" for w2
    using get_or_set_miss [where monotonic = "de_monotonic env" and factory = "summary_compute env" and ttl = 30,
        OF that prod.collapse [symmetric]] unfolding dashboard_summary_def by blast
  have hit: "\<exists>st2. dashboard_summary env (w2, st) = (Inr v, (w2, st2))"
    if "fresh (de_monotonic env w2) st ?key = Some v" for w2 v
    using get_or_set_hit [where monotonic = "de_monotonic env", OF that, of 30 "summary_compute env"] unfolding dashboard_summary_def .
  show ?thesis using st again hit by (cases out) (auto simp: not_less)
qed

section \<open>What a summary says\<close>

lemma distinct_naive: "distinct (map src_id xs) \<Longrightarrow> distinct (map naive_source xs)"
proof -
  assume "distinct (map src_id xs)"
  then have "distinct (map src_id (map naive_source xs))" by (simp add: comp_def)
  then show ?thesis by (simp only: distinct_map)
qed

lemma status_count:
  assumes "distinct (map src_id xs)" "naive_source ` set xs = M"
  shows "counter_get (counter (map src_status xs)) st = int (card {x \<in> M. src_status x = st})"
proof -
  let ?ys = "filter (\<lambda>x. src_status x = st) (map naive_source xs)"
  have "distinct ?ys" using distinct_naive [OF assms(1)] by simp
  moreover have "set ?ys = {x \<in> M. src_status x = st}" using assms(2) by auto
  moreover have "length (filter ((=) st) (map src_status xs)) = length ?ys"
    by (simp add: filter_map comp_def eq_commute)
  ultimately show ?thesis
    using distinct_card [of ?ys] by (simp only: counter_get_counter)
qed

text \<open>The queries of a summary, one after the other, each leaving the other tables as they were.\<close>

lemma summary_reads:
  assumes "program_session (de_programs env) pview" and "pview s = Some S"
    and "source_repository (de_sources env) sources valid" and "sources s = Some m"
    and "job_repository (de_jobs env) jobs" and "jobs s = Some jm"
    and "shares_session (de_programs env) pview sources" and "shares_session (de_programs env) pview jobs"
    and "\<And>s. sources s \<noteq> None \<Longrightarrow> \<not> isl (fst (sp_list (de_sources env) None s)) \<Longrightarrow>
      jobs (snd (sp_list (de_sources env) None s)) = jobs s"
  shows "\<exists>xs js s'. summary_compute env s =
      (Inr (summary_json (de_isoformat env) (de_now env s) (card S)
         (card {r \<in> S. dt_wall (de_now env s) - 24 * 3600 * us_per_second \<le> dt_wall (prow_start_at r)}) xs js), s') \<and>
    naive_source ` set xs = ran m \<and> distinct (map src_id xs) \<and>
    (\<forall>st. counter_get (counter (map src_status xs)) st = int (card {x \<in> ran m. src_status x = st})) \<and>
    sum_list (dict_values (counter (map (\<lambda>x. source_type_value (src_type x)) xs))) = int (length xs) \<and>
    length js = min 10 (card (ran jm)) \<and> sorted (map (\<lambda>j. - dt_wall (job_started_at j)) js)"
proof -
  have sess: "sql_session prow_id program_clash program_store (de_programs env) pview"
    using assms(1) by (simp add: program_session_def)
  let ?cutoff = "dt_plus (de_now env s) (- (24 * 3600 * us_per_second))"
  obtain rows s1 where 1: "exec_select (de_programs env) select_all s = (Inr rows, s1)" "pview s1 = Some S"
      "program_store ` set rows = {r \<in> S. where_clause select_all r}" "distinct (map program_store rows)"
    using sql_session.select_where [OF sess assms(2), of select_all] by auto
  have n: "length rows = card S"
    using distinct_card [OF 1(4)] 1(3) by simp
  obtain rec s2 where 2: "exec_select (de_programs env) (recent_query ?cutoff) s1 = (Inr rec, s2)" "pview s2 = Some S"
      "program_store ` set rec = {r \<in> S. where_clause (recent_query ?cutoff) r}" "distinct (map program_store rec)"
    using sql_session.select_where [OF sess 1(2), of "recent_query ?cutoff"] by (auto simp: recent_query_def)
  have k: "length rec = card {r \<in> S. dt_wall (de_now env s) - 24 * 3600 * us_per_second \<le> dt_wall (prow_start_at r)}"
    using distinct_card [OF 2(4)] 2(3) by (simp add: recent_query_def)
  have "sources s2 = Some m" "jobs s2 = Some jm"
    using shares_sessionD(1) [OF assms(7) assms(2) 1(1)] shares_sessionD(1) [OF assms(7) 1(2) 2(1)]
      shares_sessionD(1) [OF assms(8) assms(2) 1(1)] shares_sessionD(1) [OF assms(8) 1(2) 2(1)] assms(4,6)
    by simp_all
  obtain xs s3 where 3: "sp_list (de_sources env) None s2 = (Inr xs, s3)"
      "naive_source ` set xs = {x \<in> ran m. None = None \<or> None = Some [] \<or> None = Some (source_status_value (src_status x))}"
      "distinct (map src_id xs)"
    using source_repository.list [OF assms(3) \<open>sources s2 = Some m\<close>, of None] by blast
  have M: "naive_source ` set xs = ran m" using 3(2) by simp
  have "jobs s3 = Some jm" using assms(9) [of s2] 3(1) \<open>sources s2 = Some m\<close> \<open>jobs s2 = Some jm\<close> by simp
  then obtain js s4 where 4: "jp_list (de_jobs env) None None 10 s3 = (Inr js, s4)"
      "length js = min 10 (card {j \<in> ran jm. True})" "sorted (map (\<lambda>j. - dt_wall (job_started_at j)) js)"
    using job_repository.list_jobs [OF assms(5), of s3 jm None None 10] by auto
  have "summary_compute env s =
      (Inr (summary_json (de_isoformat env) (de_now env s) (card S)
         (card {r \<in> S. dt_wall (de_now env s) - 24 * 3600 * us_per_second \<le> dt_wall (prow_start_at r)}) xs js), s4)"
    unfolding n [symmetric] k [symmetric]
    by (simp add: summary_compute_def Let_def bindE_def count_def 1(1) 2(1) [simplified] 3(1) 4(1))
  then show ?thesis
    using M 3(3) status_count [OF 3(3) M] 4(2,3)
    by (intro exI [of _ xs] exI [of _ js] exI [of _ s4]) (simp add: sum_counter)
qed


text \<open>Three in-memory tables.\<close>

type_synonym mem_dash = "(program_row list option \<times> job_row list option) \<times> source_row list option"

definition demo_dash_env :: "mem_dash dash_env" where
  "demo_dash_env =
     \<lparr>de_now = (\<lambda>_. sample_time), de_monotonic = (\<lambda>_. 0), de_isoformat = (\<lambda>_. ''now''),
      de_programs = on_fst (on_fst mem_programs),
      de_sources = SQLAlchemySourceRepository (on_snd mem_sources) (\<lambda>_. sample_time),
      de_jobs = SQLAlchemyJobRepository (on_fst (on_snd mem_jobs))\<rparr>"

theorem summary_cached_witness:
  "\<exists>v w' st st2 w2. dashboard_summary demo_dash_env (((Some [], Some []), Some []), []) = (Inr v, (w', st)) \<and>
     w2 = ((Some [sample_row ''k'' ''a''], Some []), Some []) \<and>
     dashboard_summary demo_dash_env (w2, st) = (Inr v, (w2, st2))"
proof -
  let ?w = "((Some [], Some []), Some []) :: mem_dash" and ?w2 = "((Some [sample_row ''k'' ''a''], Some []), Some []) :: mem_dash"
  have "\<not> isl (fst (summary_compute demo_dash_env ?w))" by code_simp
  then obtain v w' where v: "summary_compute demo_dash_env ?w = (Inr v, w')"
    by (cases rule: eff_cases [of "summary_compute demo_dash_env ?w"]) auto
  have "fresh (de_monotonic demo_dash_env ?w) [] ''dashboard:summary'' = (None :: json option)" by (simp add: fresh_def)
  from summary_cached [OF this v] obtain st where st: "dashboard_summary demo_dash_env (?w, []) = (Inr v, (w', st))"
      "\<exists>st2. dashboard_summary demo_dash_env (?w2, st) = (Inr v, (?w2, st2))"
    by (force simp: demo_dash_env_def)
  then show ?thesis by blast
qed


end
