(* ===== verification/Adapters.thy ===== *)
theory Adapters
  imports LLM HttpClient
begin

text \<open>
  The providers of \<open>infrastructure/llm\<close> that call a vendor (\<open>openai_adapter.py\<close>,
  \<open>anthropic_adapter.py\<close>, \<open>ollama_adapter.py\<close>) and the browser fetcher of
  \<open>infrastructure/http/playwright_fetcher.py\<close>.  The SDKs, httpx and Playwright are parameters:
  records of the calls the code makes on them, each of which may raise anything.
\<close>

section \<open>The language-model adapters\<close>

text \<open>\<open>except Exception as e: raise LLMError(str(e))\<close>.\<close>

definition as_llm_error :: "('s, 'a) eff \<Rightarrow> ('s, 'a) eff" where
  "as_llm_error m = try_except m (\<lambda>_. True) (\<lambda>e. raise (Exn LLMError (exn_str e)))"

text \<open>\<open>x or os.getenv(NAME, default)\<close>; the environment variable may be missing.\<close>

definition or_env :: "string option \<Rightarrow> string option \<Rightarrow> string \<Rightarrow> string" where
  "or_env given var dflt =
     (case str_or_none given of Some v \<Rightarrow> v | None \<Rightarrow> (case var of Some v \<Rightarrow> v | None \<Rightarrow> dflt))"

definition openai_model_of :: "string option \<Rightarrow> string option \<Rightarrow> string" where
  "openai_model_of model var = or_env model var ''gpt-4o-mini''"

definition anthropic_model_of :: "string option \<Rightarrow> string option \<Rightarrow> string" where
  "anthropic_model_of model var = or_env model var ''claude-3-5-sonnet-20240620''"

definition api_key_of :: "string option \<Rightarrow> string option \<Rightarrow> string" where
  "api_key_of api_key var = or_env api_key var []"

text \<open>
  The contents of a chat completion's choices (\<open>None\<close> for a refusal), and the vectors of an
  embeddings reply, for a model and a prompt, with JSON mode or not.
\<close>

record 's openai_client =
  oa_chat :: "string \<Rightarrow> string \<Rightarrow> bool \<Rightarrow> ('s, string option list) eff"
  oa_embeddings :: "string \<Rightarrow> string \<Rightarrow> ('s, real list list) eff"

text \<open>\<open>xs[0]\<close>.\<close>

definition first_item :: "'a list \<Rightarrow> exn + 'a" where
  "first_item xs = (case xs of [] \<Rightarrow> Inl (Exn OtherError ''list index out of range'') | x # _ \<Rightarrow> Inr x)"

definition OpenAIAdapter :: "'s openai_client \<Rightarrow> string \<Rightarrow> 's llm" where
  "OpenAIAdapter client model =
     \<lparr>llm_complete = (\<lambda>prompt json_mode. as_llm_error
        (bindE (oa_chat client model prompt json_mode) (\<lambda>choices.
         bindE (pure_eff (first_item choices)) (\<lambda>content.
           ret (case content of Some c \<Rightarrow> c | None \<Rightarrow> []))))),
      llm_embed = (\<lambda>text. as_llm_error
        (bindE (oa_embeddings client ''text-embedding-3-small'' text) (\<lambda>d. pure_eff (first_item d))))\<rparr>"

text \<open>The blocks of a message: their type and text.\<close>

record 's anthropic_client =
  an_messages :: "string \<Rightarrow> int \<Rightarrow> string \<Rightarrow> ('s, (string \<times> string) list) eff"

fun join_lines :: "string list \<Rightarrow> string" where
  "join_lines [] = []"
| "join_lines [l] = l"
| "join_lines (l # ls) = l @ CHR 0x0A # join_lines ls"

definition AnthropicAdapter :: "'s anthropic_client \<Rightarrow> string \<Rightarrow> 's llm" where
  "AnthropicAdapter client model =
     \<lparr>llm_complete = (\<lambda>prompt json_mode. as_llm_error
        (bindE (an_messages client model 4096 prompt) (\<lambda>blocks.
           ret (join_lines (map snd (filter (\<lambda>b. fst b = ''text'') blocks)))))),
      llm_embed = (\<lambda>text. raise (Exn LLMError
        ''Anthropic does not provide embeddings in this adapter; use OpenAI/Ollama''))\<rparr>"

text \<open>
  \<open>post(url, json)\<close> with \<open>raise_for_status\<close> and \<open>json()\<close> of its reply; \<open>list(x)\<close> of an
  embedding is the parameter \<open>ol_list\<close>.
\<close>

record 's ollama_client =
  ol_post :: "string \<Rightarrow> json \<Rightarrow> ('s, json) eff"
  ol_str :: "json \<Rightarrow> string"
  ol_list :: "json \<Rightarrow> exn + real list"

definition rstrip_slash :: "string \<Rightarrow> string" where
  "rstrip_slash s = rev (dropWhile (\<lambda>c. c = CHR 0x2F) (rev s))"

text \<open>Ollama tests its arguments for \<open>None\<close>, so an empty string counts as given.\<close>

definition none_or_env :: "string option \<Rightarrow> string option \<Rightarrow> string \<Rightarrow> string" where
  "none_or_env given var dflt =
     (case given of Some v \<Rightarrow> v | None \<Rightarrow> (case var of Some v \<Rightarrow> v | None \<Rightarrow> dflt))"

definition ollama_url_of :: "string option \<Rightarrow> string option \<Rightarrow> string" where
  "ollama_url_of base_url var = rstrip_slash (none_or_env base_url var ''http://localhost:11434'')"

definition ollama_model_of :: "string option \<Rightarrow> string option \<Rightarrow> string" where
  "ollama_model_of model var = none_or_env model var ''llama3''"

text \<open>\<open>data.get(key, default) if isinstance(data, dict) else default\<close>.\<close>

definition dict_field :: "json \<Rightarrow> string \<Rightarrow> json \<Rightarrow> json" where
  "dict_field data key dflt =
     (case data of JObj d \<Rightarrow> (case map_of d key of Some v \<Rightarrow> v | None \<Rightarrow> dflt) | _ \<Rightarrow> dflt)"

definition OllamaAdapter :: "'s ollama_client \<Rightarrow> string \<Rightarrow> string \<Rightarrow> 's llm" where
  "OllamaAdapter client base_url model =
      \<lparr>llm_complete = (\<lambda>prompt json_mode. as_llm_error
         (bindE (ol_post client (base_url @ ''/api/generate'')
             (JObj [(''model'', JStr model), (''prompt'', JStr prompt), (''stream'', JBool False),
                    (''format'', if json_mode then JStr ''json'' else JNull)])) (\<lambda>data.
            ret (py_str (ol_str client) (dict_field data ''response'' (JStr [])))))),
       llm_embed = (\<lambda>text. as_llm_error
         (bindE (ol_post client (base_url @ ''/api/embeddings'')
             (JObj [(''model'', JStr model), (''prompt'', JStr text)])) (\<lambda>data.
            pure_eff (ol_list client (dict_field data ''embedding'' (JList []))))))\<rparr>"

text \<open>A provider that keeps the port's promise: what it raises is \<open>LLMError\<close>.\<close>

definition only_llm_errors :: "'s llm \<Rightarrow> bool" where
  "only_llm_errors l \<longleftrightarrow>
     (\<forall>p j s e. fst (llm_complete l p j s) = Inl e \<longrightarrow> exc e = LLMError) \<and>
     (\<forall>t s e. fst (llm_embed l t s) = Inl e \<longrightarrow> exc e = LLMError)"

lemma as_llm_error_exc: "fst (as_llm_error m s) = Inl e \<Longrightarrow> exc e = LLMError"
  by (auto simp: as_llm_error_def try_except_def split: prod.splits sum.splits)

lemma adapters_ok:
  "only_llm_errors (OpenAIAdapter oa model)" "only_llm_errors (AnthropicAdapter an model)"
  "only_llm_errors (OllamaAdapter ol url model)" "only_llm_errors StubLLM"
  by (auto simp: only_llm_errors_def OpenAIAdapter_def AnthropicAdapter_def OllamaAdapter_def StubLLM_def Let_def
      dest: as_llm_error_exc)

lemma try_chain_ok:
  assumes "\<forall>l \<in> set ls. only_llm_errors l" "fst (try_chain sleep prompt json_mode idx err ls s) = Inl e"
  shows "exc e = LLMError"
  using assms
proof (induction ls arbitrary: idx err s)
  case (Cons l ls)
  show ?case
  proof (cases rule: eff_cases [of "llm_complete l prompt json_mode s"])
    case (raised e' s')
    then have "exc e' = LLMError" using Cons.prems(1) by (auto simp: only_llm_errors_def) (metis fst_conv)
    then have "isinstance e' LLMError" by simp
    with raised Cons.prems(2) have
      "fst (try_chain sleep prompt json_mode (idx + 1) (Some e') ls (sleep (0.2 * real (idx + 1)) s')) = Inl e"
      by (simp add: try_except_def)
    with Cons.IH Cons.prems(1) show ?thesis by simp
  next
    case (returned x s')
    with Cons.prems(2) show ?thesis by (simp add: try_except_def)
  qed
qed auto

lemma try_chain_answers:
  assumes "\<forall>l \<in> set ls. only_llm_errors l" "ls \<noteq> []" "last ls = StubLLM"
  shows "\<exists>x. fst (try_chain sleep prompt json_mode idx err ls s) = Inr x"
  using assms
proof (induction ls arbitrary: idx err s)
  case (Cons l ls)
  show ?case
  proof (cases rule: eff_cases [of "llm_complete l prompt json_mode s"])
    case (raised e s')
    then have "exc e = LLMError" using Cons.prems(1) by (auto simp: only_llm_errors_def) (metis fst_conv)
    then have e: "isinstance e LLMError" by simp
    have "ls \<noteq> []" using raised Cons.prems(3) by (auto simp: StubLLM_def)
    then obtain x where "fst (try_chain sleep prompt json_mode (idx + 1) (Some e) ls (sleep (0.2 * real (idx + 1)) s')) = Inr x"
      using Cons.IH [of "idx + 1" "Some e"] Cons.prems(1,3) by auto
    with raised e show ?thesis by (simp add: try_except_def)
  next
    case (returned x s')
    then show ?thesis by (simp add: try_except_def)
  qed
qed simp

section \<open>The browser fetcher\<close>

text \<open>
  The calls on Playwright; \<open>pw_launch\<close> is given a started Playwright and \<open>pw_context\<close> a browser.
  Handles are numbers.
\<close>

record 's playwright =
  pw_start :: "('s, nat) eff"
  pw_launch :: "nat \<Rightarrow> bool \<Rightarrow> ('s, nat) eff"
  pw_context :: "nat \<Rightarrow> (string, string) dict \<Rightarrow> ('s, nat) eff"
  pw_page :: "nat \<Rightarrow> ('s, nat) eff"
  pw_goto :: "nat \<Rightarrow> string \<Rightarrow> int \<Rightarrow> ('s, unit) eff"
  pw_wait :: "nat \<Rightarrow> string \<Rightarrow> int \<Rightarrow> ('s, unit) eff"
  pw_content :: "nat \<Rightarrow> ('s, string) eff"
  pw_close_context :: "nat \<Rightarrow> ('s, unit) eff"
  pw_close_browser :: "nat \<Rightarrow> ('s, unit) eff"
  pw_stop :: "nat \<Rightarrow> ('s, unit) eff"
  pw_monotonic :: "'s \<Rightarrow> real"
  pw_encode :: "string \<Rightarrow> exn + string"

record 's browser_fetcher =
  bf_headless :: bool
  bf_timeout_ms :: int
  bf_pw :: "nat option"
  bf_browser :: "nat option"
  bf_world :: 's

definition PlaywrightFetcher :: "bool \<Rightarrow> int \<Rightarrow> 's \<Rightarrow> 's browser_fetcher" where
  "PlaywrightFetcher headless timeout_ms w =
     \<lparr>bf_headless = headless, bf_timeout_ms = timeout_ms, bf_pw = None, bf_browser = None, bf_world = w\<rparr>"

text \<open>A call on Playwright from the fetcher's methods.\<close>

definition on_browser :: "('s, 'a) eff \<Rightarrow> ('s browser_fetcher, 'a) eff" where
  "on_browser m f = (case m (bf_world f) of (x, w) \<Rightarrow> (x, f\<lparr>bf_world := w\<rparr>))"

definition ensure :: "'s playwright \<Rightarrow> ('s browser_fetcher, unit) eff" where
  "ensure pw f =
     (if bf_browser f \<noteq> None then (Inr (), f)
      else
        bindE (on_browser (pw_start pw)) (\<lambda>h f.
          bindE (on_browser (pw_launch pw h (bf_headless f))) (\<lambda>b f. (Inr (), f\<lparr>bf_browser := Some b\<rparr>))
            (f\<lparr>bf_pw := Some h\<rparr>)) f)"

text \<open>\<open>try: body finally: cleanup\<close>; an exception of the clean-up replaces the outcome.\<close>

definition try_finally :: "('s, 'a) eff \<Rightarrow> ('s, unit) eff \<Rightarrow> ('s, 'a) eff" where
  "try_finally body cleanup s =
     (case body s of (out, s1) \<Rightarrow>
        case cleanup s1 of (Inl e, s2) \<Rightarrow> (Inl e, s2) | (Inr _, s2) \<Rightarrow> (out, s2))"

definition browse ::
  "'s playwright \<Rightarrow> nat \<Rightarrow> string \<Rightarrow> real \<Rightarrow> string option \<Rightarrow> ('s browser_fetcher, fetch_result) eff" where
  "browse pw page url timeout wait_selector f =
     (let start = pw_monotonic pw (bf_world f) in
      bindE (on_browser (pw_goto pw page url (py_int (timeout * 1000)))) (\<lambda>_.
      bindE (case str_or_none wait_selector of
               None \<Rightarrow> ret ()
             | Some sel \<Rightarrow> on_browser (pw_wait pw page sel (bf_timeout_ms f))) (\<lambda>_.
      bindE (on_browser (pw_content pw page)) (\<lambda>body.
      bindE (pure_eff (pw_encode pw body)) (\<lambda>bytes f.
        (Inr \<lparr>res_url = url, res_status_code = 200, res_body = bytes, res_headers = [],
              res_elapsed_ms = py_int ((pw_monotonic pw (bf_world f) - start) * 1000)\<rparr>, f))))) f)"

definition in_page ::
  "'s playwright \<Rightarrow> string \<Rightarrow> real \<Rightarrow> string option \<Rightarrow> nat \<Rightarrow> ('s browser_fetcher, fetch_result) eff" where
  "in_page pw url timeout wait_selector ctx =
     bindE (on_browser (pw_page pw ctx)) (\<lambda>page.
       try_finally (browse pw page url timeout wait_selector) (on_browser (pw_close_context pw ctx)))"

definition browser_fetch ::
  "'s playwright \<Rightarrow> string \<Rightarrow> (string, string) dict option \<Rightarrow> real \<Rightarrow> string option \<Rightarrow>
   ('s browser_fetcher, fetch_result) eff" where
  "browser_fetch pw url headers timeout wait_selector =
     bindE (ensure pw) (\<lambda>_ f.
       case bf_browser f of
         None \<Rightarrow> (Inl (Exn AssertionError []), f)
       | Some b \<Rightarrow>
           bindE (on_browser (pw_context pw b (case headers of None \<Rightarrow> [] | Some h \<Rightarrow> h))) (in_page pw url timeout wait_selector) f)"

definition browser_aclose :: "'s playwright \<Rightarrow> ('s browser_fetcher, unit) eff" where
  "browser_aclose pw f =
     bindE (case bf_browser f of None \<Rightarrow> ret () | Some b \<Rightarrow> on_browser (pw_close_browser pw b)) (\<lambda>_.
       case bf_pw f of None \<Rightarrow> ret () | Some h \<Rightarrow> on_browser (pw_stop pw h)) f"

section \<open>Contexts are closed\<close>

text \<open>
  What a browser does to the number of open contexts: creating one adds one, closing one takes
  one away, nothing else changes it.
\<close>

definition playwright_ok :: "'s playwright \<Rightarrow> ('s \<Rightarrow> nat) \<Rightarrow> bool" where
  "playwright_ok pw open_contexts \<longleftrightarrow>
     (\<forall>w. open_contexts (snd (pw_start pw w)) = open_contexts w) \<and>
     (\<forall>h b w. open_contexts (snd (pw_launch pw h b w)) = open_contexts w) \<and>
     (\<forall>b h w. open_contexts (snd (pw_context pw b h w)) =
        open_contexts w + (if isl (fst (pw_context pw b h w)) then 0 else 1)) \<and>
     (\<forall>c w. open_contexts (snd (pw_page pw c w)) = open_contexts w) \<and>
     (\<forall>p u t w. open_contexts (snd (pw_goto pw p u t w)) = open_contexts w) \<and>
     (\<forall>p u t w. open_contexts (snd (pw_wait pw p u t w)) = open_contexts w) \<and>
     (\<forall>p w. open_contexts (snd (pw_content pw p w)) = open_contexts w) \<and>
     (\<forall>c w. open_contexts (snd (pw_close_context pw c w)) = open_contexts w - 1)"

lemma on_browser_snd [simp]: "bf_world (snd (on_browser m f)) = snd (m (bf_world f))"
  by (simp add: on_browser_def split: prod.splits)

lemma on_browser_fst [simp]: "fst (on_browser m f) = fst (m (bf_world f))"
  by (simp add: on_browser_def split: prod.splits)

lemma ensure_contexts:
  assumes "playwright_ok pw n"
  shows "n (bf_world (snd (ensure pw f))) = n (bf_world f)"
proof (cases "bf_browser f")
  case None
  let ?v = "\<lambda>f. n (bf_world f)"
  have launch: "?v (snd (bindE (on_browser (pw_launch pw h b)) (\<lambda>b f. (Inr (), f\<lparr>bf_browser := Some b\<rparr>)) f)) = ?v f" for h b f
    by (rule snd_bindE [where v = ?v]) (use assms in \<open>simp_all add: playwright_ok_def\<close>)
  have "?v (snd (bindE (on_browser (pw_start pw)) (\<lambda>h f.
      bindE (on_browser (pw_launch pw h (bf_headless f))) (\<lambda>b f. (Inr (), f\<lparr>bf_browser := Some b\<rparr>)) (f\<lparr>bf_pw := Some h\<rparr>)) f)) = ?v f"
    by (rule snd_bindE [where v = ?v]) (use assms in \<open>simp_all add: launch playwright_ok_def\<close>)
  with None show ?thesis by (simp add: ensure_def)
qed (simp add: ensure_def)

lemma browse_contexts:
  assumes "playwright_ok pw n"
  shows "n (bf_world (snd (browse pw page url timeout sel f))) = n (bf_world f)"
  unfolding browse_def Let_def
  by (intro snd_bindE [where v = "\<lambda>f. n (bf_world f)"])
    (use assms in \<open>auto simp: playwright_ok_def split: option.splits\<close>)

lemma finally_contexts:
  assumes "playwright_ok pw n"
  shows "n (bf_world (snd (try_finally (browse pw page url timeout sel) (on_browser (pw_close_context pw ctx)) f))) =
    n (bf_world f) - 1"
proof -
  obtain out f1 where b: "browse pw page url timeout sel f = (out, f1)" by (metis surj_pair)
  then have "n (bf_world f1) = n (bf_world f)" using browse_contexts [OF assms, of page url timeout sel f] by simp
  moreover obtain c f2 where c: "on_browser (pw_close_context pw ctx) f1 = (c, f2)" by (metis surj_pair)
  then have "n (bf_world f2) = n (bf_world f1) - 1"
    using on_browser_snd [of "pw_close_context pw ctx" f1] assms by (simp add: playwright_ok_def)
  ultimately show ?thesis using b c by (simp add: try_finally_def split: sum.splits)
qed

lemma page_contexts:
  assumes "playwright_ok pw n"
  shows "isl (fst (pw_page pw ctx (bf_world f))) \<Longrightarrow> isl (fst (in_page pw url timeout sel ctx f)) \<and> n (bf_world (snd (in_page pw url timeout sel ctx f))) = n (bf_world f)"
    and "\<not> isl (fst (pw_page pw ctx (bf_world f))) \<Longrightarrow> n (bf_world (snd (in_page pw url timeout sel ctx f))) = n (bf_world f) - 1"
proof -
  obtain p f1 where p: "on_browser (pw_page pw ctx) f = (p, f1)" by (metis surj_pair)
  then have v: "n (bf_world f1) = n (bf_world f)" and r: "fst (pw_page pw ctx (bf_world f)) = p"
    using on_browser_snd [of "pw_page pw ctx" f] on_browser_fst [of "pw_page pw ctx" f] assms
    by (simp_all add: playwright_ok_def)
  show "isl (fst (in_page pw url timeout sel ctx f)) \<and> n (bf_world (snd (in_page pw url timeout sel ctx f))) = n (bf_world f)" if "isl (fst (pw_page pw ctx (bf_world f)))"
    using that p v r by (cases p) (simp_all add: in_page_def bindE_def)
  show "n (bf_world (snd (in_page pw url timeout sel ctx f))) = n (bf_world f) - 1" if "\<not> isl (fst (pw_page pw ctx (bf_world f)))"
    using that p v r finally_contexts [OF assms] by (cases p) (simp_all add: in_page_def bindE_def)
qed

text \<open>
  Once its page is open, a fetch closes the context it made, whatever the browser raises; but a
  context whose page cannot be opened is never closed.
\<close>

theorem browser_contexts_closed:
  assumes "playwright_ok pw n"
  shows "((\<forall>c w. \<not> isl (fst (pw_page pw c w))) \<longrightarrow>
      n (bf_world (snd (browser_fetch pw url headers timeout sel f))) = n (bf_world f)) \<and>
    ((\<forall>c w. isl (fst (pw_page pw c w))) \<and> (\<forall>b h w. \<not> isl (fst (pw_context pw b h w))) \<and> bf_browser f \<noteq> None \<longrightarrow>
      isl (fst (browser_fetch pw url headers timeout sel f)) \<and>
      n (bf_world (snd (browser_fetch pw url headers timeout sel f))) = n (bf_world f) + 1)"
proof -
  let ?hs = "case headers of None \<Rightarrow> [] | Some h \<Rightarrow> h"
  obtain e f1 where e: "ensure pw f = (e, f1)" by (metis surj_pair)
  then have v1: "n (bf_world f1) = n (bf_world f)" using ensure_contexts [OF assms, of f] by simp
  show ?thesis
  proof (cases "isl e \<or> bf_browser f1 = None")
    case True
    have "\<not> isl e \<and> bf_browser f1 \<noteq> None" if "bf_browser f \<noteq> None" using that e by (auto simp: ensure_def)
    with True e v1 show ?thesis
      by (auto simp: browser_fetch_def bindE_def split: sum.splits option.splits)
  next
    case False
    then obtain b where b: "e = Inr ()" "bf_browser f1 = Some b" by (cases e) auto
    obtain c f2 where c: "on_browser (pw_context pw b ?hs) f1 = (c, f2)" by (metis surj_pair)
    then have r: "fst (pw_context pw b ?hs (bf_world f1)) = c"
      and v2: "n (bf_world f2) = n (bf_world f1) + (if isl c then 0 else 1)"
      using on_browser_snd [of "pw_context pw b ?hs" f1] on_browser_fst [of "pw_context pw b ?hs" f1] assms
      by (auto simp: playwright_ok_def)
    have run: "browser_fetch pw url headers timeout sel f = (case c of Inl x \<Rightarrow> (Inl x, f2) | Inr ctx \<Rightarrow> in_page pw url timeout sel ctx f2)"
      using e b c by (simp add: browser_fetch_def bindE_def)
    show ?thesis
    proof (cases c)
      case (Inl x)
      have "isl (fst (pw_context pw b ?hs (bf_world f1)))" using r Inl by simp
      then show ?thesis using run v1 v2 Inl by auto
    next
      case (Inr ctx)
      then show ?thesis
        using run v1 v2 page_contexts [OF assms, of ctx f2 url timeout sel] by auto
    qed
  qed
qed

section \<open>Properties\<close>



end
