(* ===== verification/Services.thy ===== *)
theory Services
  imports HealthCheck JobRepository
begin

text \<open>
  Three small services: \<open>observability/health.py\<close> (a report on every source),
  \<open>domain/services/feedback_service.py\<close>, and \<open>interfaces/scheduler/jobs/cleanup_job.py\<close>.
\<close>

section \<open>The detailed health report\<close>

definition health_entry :: "tv_source \<Rightarrow> source_health \<Rightarrow> json" where
  "health_entry s h =
     JObj [(''source_id'', JStr (src_id s)), (''name'', JStr (src_name s)),
           (''status'', JStr (source_status_value (src_status s))), (''alive'', JBool (is_alive h)),
           (''latency_ms'', (case latency_ms h of None \<Rightarrow> JNull | Some n \<Rightarrow> JInt n)),
           (''message'', (case health_message h of None \<Rightarrow> JNull | Some m \<Rightarrow> JStr m))]"

text \<open>The loop keeps each result beside its source; \<open>all\<close> of no results is true.\<close>

definition detailed_health ::
  "(datetime \<Rightarrow> string) \<Rightarrow> 's health_env \<Rightarrow> 's source_port \<Rightarrow> ('s, json) eff" where
  "detailed_health fmt env repo =
     bindE (sp_list repo None) (\<lambda>sources.
     bindE (collect (\<lambda>x. bindE (check env x) (\<lambda>h. ret (x, h))) sources) (\<lambda>results s.
       (Inr (JObj [(''checked_at'', JStr (fmt (he_now env s))),
                   (''sources'', JList (map (\<lambda>(x, h). health_entry x h) results)),
                   (''all_alive'', JBool (list_all (\<lambda>(x, h). is_alive h) results))]), s)))"

section \<open>Feedback\<close>

record feedback =
  fb_program_identity_key :: string
  fb_field :: string
  fb_old_value :: string
  fb_new_value :: string
  fb_submitted_at :: datetime

definition submit ::
  "('s \<Rightarrow> datetime) \<Rightarrow> (feedback \<Rightarrow> ('s, unit) eff) \<Rightarrow> string \<Rightarrow> string \<Rightarrow> string \<Rightarrow> string \<Rightarrow> ('s, feedback) eff" where
  "submit now add key fld old new s =
     (let fb = \<lparr>fb_program_identity_key = key, fb_field = fld, fb_old_value = old, fb_new_value = new,
                fb_submitted_at = now s\<rparr>
      in bindE (add fb) (\<lambda>_. ret fb) s)"

section \<open>The clean-up job\<close>

text \<open>
  Python's \<open>a < b\<close> on date-times: two aware ones compare as instants, two naive ones by their
  wall clock, and one of each raises \<open>TypeError\<close>.
\<close>

definition py_less :: "datetime \<Rightarrow> datetime \<Rightarrow> exn + bool" where
  "py_less a b =
     (case (dt_off a, dt_off b) of
        (None, None) \<Rightarrow> Inr (dt_wall a < dt_wall b)
      | (Some x, Some y) \<Rightarrow> Inr (dt_wall a - x < dt_wall b - y)
      | _ \<Rightarrow> Inl (Exn OtherError ''can't compare offset-naive and offset-aware datetimes''))"

definition cleanup_old_jobs :: "('s \<Rightarrow> datetime) \<Rightarrow> 's job_port \<Rightarrow> int \<Rightarrow> ('s, nat) eff" where
  "cleanup_old_jobs now repo keep_days =
     bindE (jp_list repo None None 10000) (\<lambda>jobs s.
       let cutoff = dt_plus (now s) (- (keep_days * 24 * 3600 * us_per_second))
       in bindE (pure_eff (traverse (\<lambda>j. py_less (job_started_at j) cutoff) jobs))
            (\<lambda>stale. ret (length (filter id stale))) s)"

section \<open>What they do\<close>

text \<open>
  The report never fails on a readable table: it has one entry for each stored source, and its
  verdict is that all of them are alive.
\<close>

theorem detailed_health_verdict:
  assumes "source_repository repo sources valid" and "sources s = Some m"
    and "\<And>u h t s. isl (fst (he_fetch env u h t s)) \<longleftrightarrow> \<not> up u h"
  shows "\<exists>t rs s'. detailed_health fmt env repo s =
      (Inr (JObj [(''checked_at'', JStr t), (''sources'', JList (map (\<lambda>(x, h). health_entry x h) rs)),
                  (''all_alive'', JBool (\<forall>x \<in> ran m. alive up x))]), s') \<and>
    distinct (map (\<lambda>(x, h). src_id x) rs) \<and> (\<lambda>(x, h). naive_source x) ` set rs = ran m \<and>
    (\<forall>(x, h) \<in> set rs. health_source_id h = src_id x \<and> (is_alive h \<longleftrightarrow> alive up x))"
proof -
  obtain xs s1 where xs: "sp_list repo None s = (Inr xs, s1)"
      "naive_source ` set xs = {x \<in> ran m. None = None \<or> None = Some [] \<or> None = Some (source_status_value (src_status x))}"
      "distinct (map src_id xs)"
    using source_repository.list [OF assms(1,2), of None] by blast
  let ?P = "\<lambda>x r. fst r = x \<and> health_source_id (snd r) = src_id x \<and> (is_alive (snd r) \<longleftrightarrow> alive up x)"
  have one: "\<exists>r s'. bindE (check env x) (\<lambda>h. ret (x, h)) s = (Inr r, s') \<and> ?P x r" for x s
  proof -
    obtain h s' where "check env x s = (Inr h, s')" "health_source_id h = src_id x"
        "is_alive h \<longleftrightarrow> has_url x \<and> \<not> isl (fst (he_fetch env (the (src_url x)) (headers_or_none x) 10 s))"
      using check_total [of env x s] by blast
    then show ?thesis using assms(3) by (auto simp: bindE_def alive_def)
  qed
  obtain rs s2 where rs: "collect (\<lambda>x. bindE (check env x) (\<lambda>h. ret (x, h))) xs s1 = (Inr rs, s2)" "list_all2 ?P xs rs"
    using collect_total [where P = ?P and f = "\<lambda>x. bindE (check env x) (\<lambda>h. ret (x, h))", OF one] by blast
  have fst: "map fst rs = xs"
    using rs(2) by (induction rule: list_all2_induct) auto
  have each: "\<forall>r \<in> set rs. health_source_id (snd r) = src_id (fst r) \<and> (is_alive (snd r) \<longleftrightarrow> alive up (fst r))"
    using rs(2) by (induction rule: list_all2_induct) auto
  have ran: "naive_source ` set xs = ran m" using xs(2) by simp
  then have "ran m = naive_source ` fst ` set rs" using arg_cong [OF fst, of set] by simp
  then have rm: "(\<lambda>(x, h). naive_source x) ` set rs = ran m" by (auto simp: case_prod_beta image_image)
  have "(\<forall>x \<in> ran m. alive up x) \<longleftrightarrow> list_all (\<lambda>(x, h). is_alive h) rs"
    unfolding rm [symmetric] using each by (auto simp: list_all_iff case_prod_beta)
  then have "detailed_health fmt env repo s =
      (Inr (JObj [(''checked_at'', JStr (fmt (he_now env s2))), (''sources'', JList (map (\<lambda>(x, h). health_entry x h) rs)),
                  (''all_alive'', JBool (\<forall>x \<in> ran m. alive up x))]), s2)"
    by (simp add: detailed_health_def bindE_def xs(1) rs(1))
  moreover have "distinct (map (\<lambda>(x, h). src_id x) rs)"
    using xs(3) unfolding fst [symmetric] by (simp add: case_prod_beta' comp_def)
  moreover have "\<forall>(x, h) \<in> set rs. health_source_id h = src_id x \<and> (is_alive h \<longleftrightarrow> alive up x)"
    using each by auto
  ultimately show ?thesis using rm by blast
qed

text \<open>
  The clean-up job fails as soon as there is a job to look at: the times read from the database
  are naive, the cutoff is not.
\<close>

theorem cleanup_raises:
  assumes "jp_list repo None None 10000 s = (Inr jobs, s')" and "dt_off (now s') = Some z"
    and "\<forall>j \<in> set jobs. dt_off (job_started_at j) = None"
  shows "cleanup_old_jobs now repo keep_days s =
    (if jobs = [] then Inr 0
     else Inl (Exn OtherError ''can't compare offset-naive and offset-aware datetimes''), s')"
proof (cases jobs)
  case (Cons j js)
  then have "py_less (job_started_at j) c = Inl (Exn OtherError ''can't compare offset-naive and offset-aware datetimes'')"
    if "dt_off c = Some z" for c
    using assms(3) that by (simp add: py_less_def)
  then show ?thesis using assms(1,2) Cons by (simp add: cleanup_old_jobs_def bindE_def Let_def)
qed (use assms in \<open>simp add: cleanup_old_jobs_def bindE_def Let_def\<close>)

lemma submit_outcome:
  "submit now add key fld old new s =
     (case add \<lparr>fb_program_identity_key = key, fb_field = fld, fb_old_value = old, fb_new_value = new,
               fb_submitted_at = now s\<rparr> s of
        (Inl e, s') \<Rightarrow> (Inl e, s')
      | (Inr _, s') \<Rightarrow> (Inr \<lparr>fb_program_identity_key = key, fb_field = fld, fb_old_value = old, fb_new_value = new,
               fb_submitted_at = now s\<rparr>, s'))"
  by (simp add: submit_def bindE_def Let_def split: prod.splits sum.splits)

end
