(* ===== verification/Observability.thy ===== *)
theory Observability
  imports Effects PyString
begin

text \<open>
  \<open>core/logging.py\<close>, \<open>core/tracing.py\<close> and the registration of metrics in
  \<open>observability/metrics.py\<close> and \<open>interfaces/api/routers/metrics.py\<close>.  The \<open>logging\<close> module's
  constants are Python's; OpenTelemetry and the Prometheus registry are parameters.
\<close>

section \<open>Logging\<close>

text \<open>
  The attributes of the module \<open>logging\<close> written in capitals: levels, and one that is none.
  \<open>basicConfig\<close> looks a text up among the level names and refuses one that is not there.
\<close>

datatype log_attr = LevelNo int | LevelText string

fun logging_attr :: "string \<Rightarrow> log_attr option" where
  "logging_attr name =
     (if name = ''CRITICAL'' \<or> name = ''FATAL'' then Some (LevelNo 50)
      else if name = ''ERROR'' then Some (LevelNo 40)
      else if name = ''WARNING'' \<or> name = ''WARN'' then Some (LevelNo 30)
      else if name = ''INFO'' then Some (LevelNo 20)
      else if name = ''DEBUG'' then Some (LevelNo 10)
      else if name = ''NOTSET'' then Some (LevelNo 0)
      else if name = ''BASIC_FORMAT'' then Some (LevelText ''%(levelname)s:%(name)s:%(message)s'')
      else None)"

text \<open>\<open>level.upper()\<close>, up to the three characters whose capital is longer or not below 256.\<close>

definition upper_char :: "char \<Rightarrow> char" where
  "upper_char c =
     (let n = of_char c :: nat
      in if 97 \<le> n \<and> n \<le> 122 \<or> 224 \<le> n \<and> n \<le> 254 \<and> n \<noteq> 247 then char_of (n - 32) else c)"

definition upper :: "string \<Rightarrow> string" where
  "upper s = map upper_char s"

record log_config =
  lc_level :: int
  lc_format :: string
  lc_processors :: "string list"

text \<open>
  \<open>configure_logging\<close>: the configuration both libraries get, or the error of \<open>basicConfig\<close>.  The
  filtering logger of structlog is made for the same level.
\<close>

definition configure_logging :: "string \<Rightarrow> exn + log_config" where
  "configure_logging level =
     (case (case logging_attr (upper level) of None \<Rightarrow> LevelNo 20 | Some a \<Rightarrow> a) of
        LevelText t \<Rightarrow> Inl (Exn ValueError (''Unknown level: '' @ t))
      | LevelNo n \<Rightarrow>
          Inr \<lparr>lc_level = n, lc_format = ''%(message)s'',
               lc_processors = [''merge_contextvars'', ''add_log_level'', ''TimeStamper'', ''StackInfoRenderer'',
                                ''format_exc_info'', ''ConsoleRenderer'']\<rparr>)"

section \<open>Tracing\<close>

text \<open>
  OpenTelemetry, whose objects are \<open>'o\<close>: importing one of its modules, the constructors and
  methods \<open>tracing.py\<close> calls, and the module's own global \<open>_tracer\<close> in the state.
\<close>

record ('s, 'o) otel =
  ot_import :: "string \<Rightarrow> ('s, unit) eff"
  ot_resource_create :: "(string, string) dict \<Rightarrow> ('s, 'o) eff"
  ot_tracer_provider :: "'o \<Rightarrow> ('s, 'o) eff"
  ot_exporter :: "string \<Rightarrow> ('s, 'o) eff"
  ot_batch_processor :: "'o \<Rightarrow> ('s, 'o) eff"
  ot_add_span_processor :: "'o \<Rightarrow> 'o \<Rightarrow> ('s, unit) eff"
  ot_set_tracer_provider :: "'o \<Rightarrow> ('s, unit) eff"
  ot_get_tracer :: "string \<Rightarrow> ('s, 'o) eff"
  ot_global :: "'s \<Rightarrow> 'o option"
  ot_set_global :: "'o \<Rightarrow> 's \<Rightarrow> 's"

definition otel_modules :: "string list" where
  "otel_modules =
     [''opentelemetry.trace'', ''opentelemetry.sdk.trace'', ''opentelemetry.sdk.resources'',
      ''opentelemetry.sdk.trace.export'', ''opentelemetry.exporter.otlp.proto.http.trace_exporter'']"

definition enable_tracer :: "('s, 'o) otel \<Rightarrow> string \<Rightarrow> string \<Rightarrow> ('s, unit) eff" where
  "enable_tracer ot service endpoint =
     bindE (ot_resource_create ot [(''service.name'', service)]) (\<lambda>resource.
     bindE (ot_tracer_provider ot resource) (\<lambda>provider.
     bindE (ot_exporter ot endpoint) (\<lambda>exporter.
     bindE (ot_batch_processor ot exporter) (\<lambda>processor.
     bindE (ot_add_span_processor ot provider processor) (\<lambda>_.
     bindE (ot_set_tracer_provider ot provider) (\<lambda>_.
     bindE (ot_get_tracer ot service) (\<lambda>t s. (Inr (), ot_set_global ot t s))))))))"

definition init_tracer :: "('s, 'o) otel \<Rightarrow> string \<Rightarrow> string option \<Rightarrow> ('s, unit) eff" where
  "init_tracer ot service endpoint =
     (case endpoint of
        None \<Rightarrow> ret ()
      | Some url \<Rightarrow>
          if url = [] then ret ()
          else bindE (try_except (bindE (for_each (ot_import ot) otel_modules) (\<lambda>_. ret True))
                        (\<lambda>e. isinstance e ImportError) (\<lambda>_. ret False))
                 (\<lambda>found. if found then enable_tracer ot service url else ret ()))"

definition get_tracer :: "('s, 'o) otel \<Rightarrow> string \<Rightarrow> ('s, 'o option) eff" where
  "get_tracer ot name s =
     (case ot_global ot s of
        Some t \<Rightarrow> (Inr (Some t), s)
      | None \<Rightarrow>
          try_except (bindE (ot_import ot ''opentelemetry.trace'') (\<lambda>_. bindE (ot_get_tracer ot name) (\<lambda>t. ret (Some t))))
            (\<lambda>e. isinstance e ImportError) (\<lambda>_. ret None) s)"

section \<open>Metrics\<close>

text \<open>A metric's kind, name and label names, as its constructor registers it.\<close>

datatype metric_kind = Counter | Gauge | Histogram

record metric =
  mt_kind :: metric_kind
  mt_name :: string
  mt_labels :: "string list"

definition http_metrics :: "metric list" where
  "http_metrics =
     [\<lparr>mt_kind = Counter, mt_name = ''http_requests_total'', mt_labels = [''method'', ''path'', ''status'']\<rparr>,
      \<lparr>mt_kind = Histogram, mt_name = ''http_request_duration_seconds'', mt_labels = [''method'', ''path'']\<rparr>,
      \<lparr>mt_kind = Gauge, mt_name = ''http_inprogress_requests'', mt_labels = []\<rparr>]"

definition business_metrics :: "metric list" where
  "business_metrics =
     [\<lparr>mt_kind = Counter, mt_name = ''tvlist_crawl_success_total'', mt_labels = [''source_id'']\<rparr>,
      \<lparr>mt_kind = Counter, mt_name = ''tvlist_crawl_failure_total'', mt_labels = [''source_id'', ''reason'']\<rparr>,
      \<lparr>mt_kind = Histogram, mt_name = ''tvlist_crawl_latency_seconds'', mt_labels = [''source_id'']\<rparr>,
      \<lparr>mt_kind = Counter, mt_name = ''tvlist_programs_ingested_total'', mt_labels = []\<rparr>,
      \<lparr>mt_kind = Counter, mt_name = ''tvlist_llm_tokens_total'', mt_labels = [''provider'', ''model'']\<rparr>,
      \<lparr>mt_kind = Gauge, mt_name = ''tvlist_active_sources'', mt_labels = []\<rparr>]"

section \<open>What they do\<close>

text \<open>Any word gives a level, an unknown one \<open>INFO\<close>, but for the name of the module's text constant.\<close>

lemma configure_logging_total:
  "isl (configure_logging level) \<longleftrightarrow> upper level = ''BASIC_FORMAT''"
  "logging_attr (upper level) = None \<Longrightarrow> lc_level (projr (configure_logging level)) = 20"
  by (auto simp: configure_logging_def split: option.splits log_attr.splits)

text \<open>
  Without an endpoint, or without the packages, nothing changes but what importing does, and no
  error leaves; after a successful start every later tracer is the one made for the service.
\<close>

lemma init_tracer_off: "endpoint \<in> {None, Some []} \<Longrightarrow> init_tracer ot service endpoint s = (Inr (), s)"
  by (auto simp: init_tracer_def)

lemma init_tracer_degrades:
  assumes "for_each (ot_import ot) otel_modules s = (Inl e, s')" "isinstance e ImportError" "url \<noteq> []"
  shows "init_tracer ot service (Some url) s = (Inr (), s')"
  using assms by (simp add: init_tracer_def try_except_def bindE_def)

lemma get_tracer_after_init:
  assumes "init_tracer ot service (Some url) s = (Inr (), s')" "url \<noteq> []"
    and "\<And>t s. ot_global ot (ot_set_global ot t s) = Some t"
    and "\<And>s. fst (for_each (ot_import ot) otel_modules s) = Inr ()"
  shows "\<exists>t. get_tracer ot name s' = (Inr (Some t), s')"
proof -
  obtain s1 where s1: "for_each (ot_import ot) otel_modules s = (Inr (), s1)"
    using assms(4) by (metis prod.collapse)
  then have run: "enable_tracer ot service url s1 = (Inr (), s')"
    using assms(1,2) by (simp add: init_tracer_def try_except_def bindE_def)
  obtain t s2 where "s' = ot_set_global ot t s2"
    using run by (auto simp: enable_tracer_def bindE_def split: prod.splits sum.splits)
  then show ?thesis by (simp add: get_tracer_def assms(3))
qed

text \<open>No two metrics share a name, which the registry would refuse when the modules are imported.\<close>

lemma metric_names: "distinct (map mt_name (http_metrics @ business_metrics))"
  by code_simp

end
