(* ===== verification/Startup.thy ===== *)
theory Startup
  imports Seed Auth JobRepository Observability
begin

text \<open>
  The start and the end of the application: \<open>interfaces/scheduler/scheduler.py\<close> over
  APScheduler, the lifespan of \<open>interfaces/api/app.py\<close>, the dependency providers of
  \<open>interfaces/api/deps.py\<close>, and \<open>session_scope\<close> of
  \<open>infrastructure/persistence/sqlalchemy_base.py\<close>.  APScheduler, alembic, the database engine
  and the environment variables are parameters.
\<close>

section \<open>The scheduler\<close>

text \<open>\<open>'t\<close> is the scheduler's type of cron triggers, \<open>'j\<close> that of the functions it runs.\<close>

datatype 't trigger = CronTrigger 't | IntervalTrigger int

record ('t, 'j) scheduled =
  sj_func :: 'j
  sj_trigger :: "'t trigger"
  sj_id :: string
  sj_replace_existing :: bool
  sj_max_instances :: nat
  sj_coalesce :: bool

record ('s, 't, 'j) apscheduler =
  as_running :: "'s \<Rightarrow> bool"
  as_start :: "('s, unit) eff"
  as_shutdown :: "bool \<Rightarrow> ('s, unit) eff"
  as_add_job :: "('t, 'j) scheduled \<Rightarrow> ('s, unit) eff"
  as_remove_job :: "string \<Rightarrow> ('s, unit) eff"
  as_from_crontab :: "string \<Rightarrow> exn + 't"

definition start_scheduler :: "('s, 't, 'j) apscheduler \<Rightarrow> ('s, unit) eff" where
  "start_scheduler sched s = (if \<not> as_running sched s then as_start sched s else (Inr (), s))"

definition shutdown_scheduler :: "('s, 't, 'j) apscheduler \<Rightarrow> ('s, unit) eff" where
  "shutdown_scheduler sched s = (if as_running sched s then as_shutdown sched False s else (Inr (), s))"

definition add_cron :: "('s, 't, 'j) apscheduler \<Rightarrow> string \<Rightarrow> string \<Rightarrow> 'j \<Rightarrow> ('s, unit) eff" where
  "add_cron sched jid cron func =
     bindE (pure_eff (as_from_crontab sched cron)) (\<lambda>t.
       as_add_job sched \<lparr>sj_func = func, sj_trigger = CronTrigger t, sj_id = jid,
                         sj_replace_existing = True, sj_max_instances = 1, sj_coalesce = True\<rparr>)"

definition add_interval :: "('s, 't, 'j) apscheduler \<Rightarrow> string \<Rightarrow> int \<Rightarrow> 'j \<Rightarrow> ('s, unit) eff" where
  "add_interval sched jid seconds func =
     as_add_job sched \<lparr>sj_func = func, sj_trigger = IntervalTrigger seconds, sj_id = jid,
                       sj_replace_existing = True, sj_max_instances = 1, sj_coalesce = True\<rparr>"

text \<open>\<open>try: m except Exception: pass\<close>, and \<open>contextlib.suppress(Exception)\<close>.\<close>

definition suppress :: "('s, 'a) eff \<Rightarrow> ('s, unit) eff" where
  "suppress m = try_except (bindE m (\<lambda>_. ret ())) (\<lambda>_. True) (\<lambda>_. ret ())"

definition remove_scheduled :: "('s, 't, 'j) apscheduler \<Rightarrow> string \<Rightarrow> ('s, unit) eff" where
  "remove_scheduled sched jid = suppress (as_remove_job sched jid)"

lemma suppress_eq: "suppress m s = (Inr (), snd (m s))"
  by (cases rule: eff_cases [of "m s"]) (simp_all add: suppress_def try_except_def bindE_def)

section \<open>The lifespan\<close>

text \<open>
  The environment variables the lifespan reads, and the calls it makes on what it has built;
  \<open>le_engine\<close> makes the engine and the session factory.
\<close>

record ('s, 't, 'o) lifespan_env =
  le_tracing :: "('s, 'o) otel"
  le_auto_migrate :: "string option"
  le_bootstrap_schema :: "string option"
  le_auto_seed :: "string option"
  le_upgrade :: "('s, unit) eff"
  le_engine :: "('s, unit) eff"
  le_create_all :: "('s, unit) eff"
  le_life :: "'s session_life"
  le_auth :: "'s auth_env"
  le_users :: "'s user_port"
  le_seed_db :: "'s seed_db"
  le_seed_env :: seed_env
  le_health :: "'s health_env"
  le_threshold :: nat
  le_source_repo :: "'s source_port"
  le_health_repo :: "'s health_port"
  le_scheduler :: "('s, 't, ('s, unit) eff) apscheduler"
  le_sleep :: "real \<Rightarrow> ('s, unit) eff"
  le_fetcher_aclose :: "('s, unit) eff"
  le_engine_dispose :: "('s, unit) eff"

definition auto_migrate :: "('s, 't, 'o) lifespan_env \<Rightarrow> ('s, unit) eff" where
  "auto_migrate env = (if le_auto_migrate env = Some ''1'' then suppress (le_upgrade env) else ret ())"

definition bootstrap_schema :: "settings \<Rightarrow> ('s, 't, 'o) lifespan_env \<Rightarrow> ('s, unit) eff" where
  "bootstrap_schema st env =
     (let bootstrap = (case le_bootstrap_schema env of
                         None \<Rightarrow> if is_production st then ''0'' else ''1''
                       | Some b \<Rightarrow> b)
      in if bootstrap = ''1'' then suppress (le_create_all env) else ret ())"

text \<open>\<open>_seed_default_users\<close>, which opens a session only when there is something to do.\<close>

definition seed_users_step :: "settings \<Rightarrow> ('s, 't, 'o) lifespan_env \<Rightarrow> ('s, unit) eff" where
  "seed_users_step st env =
     (if is_production st \<or> seed_users st = [] then ret ()
      else with_session (le_life env)
             (seed_default_users (Inr st) (le_auth env) (le_users env) (sl_commit (le_life env))))"

definition auto_seed :: "settings \<Rightarrow> ('s, 't, 'o) lifespan_env \<Rightarrow> ('s, unit) eff" where
  "auto_seed st env =
     (if \<not> is_production st \<and> le_auto_seed env \<noteq> Some ''0'' 
      then suppress (seed_if_empty (le_life env) (le_seed_db env) (le_seed_env env)) else ret ())"

definition schedule_health_check :: "('s, 't, 'o) lifespan_env \<Rightarrow> ('s, unit) eff" where
  "schedule_health_check env =
     add_interval (le_scheduler env) ''health_check'' 300
       (health_tick (le_life env) (le_health env) (le_threshold env) (le_source_repo env) (le_health_repo env))"

text \<open>\<open>configure_logging\<close> and \<open>init_tracer\<close>, the first two calls.\<close>

definition start_observing :: "settings \<Rightarrow> ('s, 't, 'o) lifespan_env \<Rightarrow> ('s, unit) eff" where
  "start_observing st env =
     bindE (pure_eff (configure_logging (log_level st))) (\<lambda>_.
       init_tracer (le_tracing env) ''tv-list-aggregator'' (Some (otlp_endpoint st)))"

definition startup :: "settings \<Rightarrow> ('s, 't, 'o) lifespan_env \<Rightarrow> ('s, unit) eff" where
  "startup st env =
     bindE (start_observing st env) (\<lambda>_.
     bindE (auto_migrate env) (\<lambda>_.
     bindE (le_engine env) (\<lambda>_.
     bindE (bootstrap_schema st env) (\<lambda>_.
     bindE (seed_users_step st env) (\<lambda>_.
     bindE (auto_seed st env) (\<lambda>_.
     bindE (schedule_health_check env) (\<lambda>_.
       start_scheduler (le_scheduler env))))))))"

definition shutdown :: "('s, 't, 'o) lifespan_env \<Rightarrow> ('s, unit) eff" where
  "shutdown env =
     bindE (suppress (le_sleep env 5)) (\<lambda>_.
     bindE (suppress (shutdown_scheduler (le_scheduler env))) (\<lambda>_.
     bindE (suppress (le_fetcher_aclose env)) (\<lambda>_.
       suppress (le_engine_dispose env))))"

section \<open>Dependencies\<close>

text \<open>The module's two globals; making an engine may raise.\<close>

record ('e, 'f) deps =
  dep_engine :: "'e option"
  dep_session_factory :: "'f option"

definition get_or_create_engine :: "exn + 'e \<Rightarrow> (('e, 'f) deps, 'e) eff" where
  "get_or_create_engine create d =
     (case dep_engine d of
        Some e \<Rightarrow> (Inr e, d)
      | None \<Rightarrow> (case create of Inl x \<Rightarrow> (Inl x, d) | Inr e \<Rightarrow> (Inr e, d\<lparr>dep_engine := Some e\<rparr>)))"

definition get_or_create_session_factory :: "exn + 'e \<Rightarrow> ('e \<Rightarrow> 'f) \<Rightarrow> (('e, 'f) deps, 'f) eff" where
  "get_or_create_session_factory create sessionmaker d =
     (case dep_session_factory d of
        Some f \<Rightarrow> (Inr f, d)
      | None \<Rightarrow>
          bindE (get_or_create_engine create)
            (\<lambda>e d. (Inr (sessionmaker e), d\<lparr>dep_session_factory := Some (sessionmaker e)\<rparr>)) d)"

definition reset_deps :: "('e, 'f) deps \<Rightarrow> ('e, 'f) deps" where
  "reset_deps d = d\<lparr>dep_engine := None, dep_session_factory := None\<rparr>"

text \<open>\<open>getattr(request.app.state, name, None) or fallback\<close>.\<close>

definition session_factory_of :: "'f option \<Rightarrow> exn + 'e \<Rightarrow> ('e \<Rightarrow> 'f) \<Rightarrow> (('e, 'f) deps, 'f) eff" where
  "session_factory_of injected create sessionmaker =
     (case injected of Some f \<Rightarrow> ret f | None \<Rightarrow> get_or_create_session_factory create sessionmaker)"

definition get_source_repo ::
  "'s source_port option \<Rightarrow> ('s, source_row) session_api \<Rightarrow> ('s \<Rightarrow> datetime) \<Rightarrow> 's source_port" where
  "get_source_repo injected session now =
     (case injected of Some r \<Rightarrow> r | None \<Rightarrow> SQLAlchemySourceRepository session now)"

definition get_job_repo :: "'s job_port option \<Rightarrow> ('s, job_row) session_api \<Rightarrow> 's job_port" where
  "get_job_repo injected session = (case injected of Some r \<Rightarrow> r | None \<Rightarrow> SQLAlchemyJobRepository session)"

record 's program_port =
  pp_upsert :: "tv_program \<Rightarrow> ('s, tv_program) eff"
  pp_find_by_identity :: "string \<Rightarrow> ('s, tv_program option) eff"
  pp_list_by_range :: "datetime \<Rightarrow> datetime \<Rightarrow> string option \<Rightarrow> ('s, tv_program list) eff"
  pp_count :: "('s, nat) eff"

definition SQLAlchemyProgramRepository ::
  "('s, program_row) session_api \<Rightarrow> repo_env \<Rightarrow> ('s \<Rightarrow> datetime) \<Rightarrow> 's program_port" where
  "SQLAlchemyProgramRepository session env now =
     \<lparr>pp_upsert = upsert session env now, pp_find_by_identity = find_by_identity session env,
      pp_list_by_range = list_by_range session env, pp_count = count session\<rparr>"

definition get_program_repo ::
  "'s program_port option \<Rightarrow> ('s, program_row) session_api \<Rightarrow> repo_env \<Rightarrow> ('s \<Rightarrow> datetime) \<Rightarrow> 's program_port" where
  "get_program_repo injected session env now =
     (case injected of Some r \<Rightarrow> r | None \<Rightarrow> SQLAlchemyProgramRepository session env now)"

text \<open>
  \<open>get_session\<close> around the endpoint that depends on it: the session is opened before the endpoint
  and closed after it, whether it returns or raises; nothing is committed here.
\<close>

definition get_session ::
  "'s session_life option \<Rightarrow> exn + 'e \<Rightarrow> ('e \<Rightarrow> 's session_life) \<Rightarrow> ('s, 'a) eff \<Rightarrow>
   (('e, 's session_life) deps \<times> 's, 'a) eff" where
  "get_session injected create sessionmaker endpoint = (\<lambda>(d, s).
     case session_factory_of injected create sessionmaker d of
       (Inl e, d') \<Rightarrow> (Inl e, (d', s))
     | (Inr life, d') \<Rightarrow> map_prod id (Pair d') (with_session life endpoint s))"

section \<open>Engines\<close>

text \<open>
  \<open>make_engine\<close> and \<open>make_session_factory\<close>; \<open>create\<close> is \<open>create_async_engine\<close> with its keyword
  arguments, and a keyword given twice is a \<open>TypeError\<close>.
\<close>

definition make_engine ::
  "(string \<Rightarrow> (string, bool) dict \<Rightarrow> exn + 'e) \<Rightarrow> string \<Rightarrow> (string, bool) dict \<Rightarrow> exn + 'e" where
  "make_engine create url kwargs =
     (if ''pool_pre_ping'' \<in> set (dict_keys kwargs) then Inl (Exn OtherError ''multiple values for keyword argument'')
      else create url ((''pool_pre_ping'', True) # kwargs))"

definition make_session_factory :: "('e \<Rightarrow> (string, bool) dict \<Rightarrow> 'f) \<Rightarrow> 'e \<Rightarrow> 'f" where
  "make_session_factory sessionmaker engine = sessionmaker engine [(''expire_on_commit'', False)]"

section \<open>A transactional session\<close>

definition session_scope :: "'s session_life \<Rightarrow> ('s, 'a) eff \<Rightarrow> ('s, 'a) eff" where
  "session_scope life body =
     with_session life (\<lambda>s.
       case bindE body (\<lambda>x. bindE (sl_commit life) (\<lambda>_. ret x)) s of
         (Inl e, s') \<Rightarrow> (Inl e, sl_rollback life s')
       | (Inr x, s') \<Rightarrow> (Inr x, s'))"

section \<open>What they do\<close>

text \<open>The module makes one engine, whatever is asked of it and how often, until it is reset.\<close>

lemma one_engine:
  assumes "get_or_create_session_factory (Inr e) mk d = (Inr f, d')"
  shows "get_or_create_session_factory c mk d' = (Inr f, d')"
    and "dep_session_factory d = None \<Longrightarrow> get_or_create_engine c d' = (Inr (case dep_engine d of None \<Rightarrow> e | Some e' \<Rightarrow> e'), d')"
  using assms
  by (auto simp: get_or_create_session_factory_def get_or_create_engine_def bindE_def split: option.splits)

text \<open>
  A request that never commits leaves the database as it was, and its session closed; which
  factory served it is remembered when none was injected.
\<close>

lemma get_session_keeps:
  assumes "\<And>(life :: 's session_life) s. disk (sl_open life s) = disk s"
      "\<And>(life :: 's session_life) s. disk (sl_close life s) = disk s"
    and "\<And>s. disk (snd (endpoint s)) = disk s"
  shows "disk (snd (snd (get_session injected create mk endpoint (d, s)))) = disk s"
proof (cases rule: eff_cases [of "session_factory_of injected create mk d"])
  case (returned life d')
  have "disk (snd (with_session life endpoint s)) = disk s"
    by (rule with_session_frame) (simp_all add: assms)
  with returned show ?thesis
    by (cases "with_session life endpoint s") (simp add: get_session_def)
qed (simp add: get_session_def)

text \<open>A scope commits what its body did or, when the body or the commit raises, nothing.\<close>

lemma session_scope_atomic:
  assumes ends: "\<And>s. disk (sl_open life s) = disk s" "\<And>s. disk (sl_close life s) = disk s"
      "\<And>s. disk (sl_rollback life s) = disk s"
    and body: "\<And>s. disk (snd (body s)) = disk s"
    and commit: "\<And>s e s'. sl_commit life s = (Inl e, s') \<Longrightarrow> disk s' = disk s"
    and raised: "fst (session_scope life body s) = Inl e"
  shows "disk (snd (session_scope life body s)) = disk s"
proof (cases rule: eff_cases [of "body (sl_open life s)"])
  case (raised e' s1)
  with body [of "sl_open life s"] show ?thesis
    by (simp add: session_scope_def with_session_def bindE_def ends)
next
  case (returned x s1)
  then have s1: "disk s1 = disk s" using body [of "sl_open life s"] by (simp add: ends)
  show ?thesis
  proof (cases rule: eff_cases [of "sl_commit life s1"])
    case (raised e' s2)
    with returned commit [OF raised] s1 show ?thesis
      by (simp add: session_scope_def with_session_def bindE_def ends)
  next
    case committed: (returned u s2)
    with returned assms(6) show ?thesis by (simp add: session_scope_def with_session_def bindE_def)
  qed
qed

text \<open>The four steps a start only logs when they fail.\<close>

lemma logged_steps:
  "auto_migrate env s = (Inr (), if le_auto_migrate env = Some ''1'' then snd (le_upgrade env s) else s)"
  "bootstrap_schema st env s = (Inr (),
     if le_bootstrap_schema env = Some ''1'' \<or> le_bootstrap_schema env = None \<and> \<not> is_production st
     then snd (le_create_all env s) else s)"
  "auto_seed st env s = (Inr (),
     if is_production st \<or> le_auto_seed env = Some ''0'' then s
     else snd (seed_if_empty (le_life env) (le_seed_db env) (le_seed_env env) s))"
  by (auto simp: auto_migrate_def bootstrap_schema_def auto_seed_def suppress_eq Let_def split: option.splits)

text \<open>
  What can stop the application, and that nothing stops its end.  A failing migration,
  schema bootstrap or demo seeding is only logged: a start fails exactly when the logging
  configuration, the tracer, the engine, the seed users or the scheduler fail, with their error.
  In production, without an explicit \<open>TV_LIST_BOOTSTRAP_SCHEMA\<close>, it neither creates tables nor
  seeds.  The shutdown always finishes: whatever its steps raise, it waits, stops a scheduler
  that runs, closes the fetcher and disposes of the engine, each once and in this order.
\<close>

theorem lifespan_outcome:
  "startup st env s =
     bindE (start_observing st env) (\<lambda>_ s0.
       let s1 = (if le_auto_migrate env = Some ''1'' then snd (le_upgrade env s0) else s0) in
       bindE (le_engine env) (\<lambda>_ s2.
         let creates = (le_bootstrap_schema env = Some ''1'' \<or> le_bootstrap_schema env = None \<and> \<not> is_production st);
             s3 = (if creates then snd (le_create_all env s2) else s2) in
         bindE (seed_users_step st env) (\<lambda>_ s4.
           let s5 = (if is_production st \<or> le_auto_seed env = Some ''0'' then s4
                     else snd (seed_if_empty (le_life env) (le_seed_db env) (le_seed_env env) s4)) in
           bindE (schedule_health_check env) (\<lambda>_. start_scheduler (le_scheduler env)) s5) s3) s1) s \<and>
   shutdown env s =
     (let s1 = snd (le_sleep env 5 s);
          s2 = (if as_running (le_scheduler env) s1 then snd (as_shutdown (le_scheduler env) False s1) else s1);
          s3 = snd (le_fetcher_aclose env s2)
      in (Inr (), snd (le_engine_dispose env s3)))"
proof
  show "shutdown env s =
     (let s1 = snd (le_sleep env 5 s);
          s2 = (if as_running (le_scheduler env) s1 then snd (as_shutdown (le_scheduler env) False s1) else s1);
          s3 = snd (le_fetcher_aclose env s2)
      in (Inr (), snd (le_engine_dispose env s3)))"
    by (simp add: shutdown_def bindE_def suppress_eq shutdown_scheduler_def Let_def)
  have steps: "bindE (auto_migrate env) k = (\<lambda>s. k () (snd (auto_migrate env s)))"
    "bindE (bootstrap_schema st env) k = (\<lambda>s. k () (snd (bootstrap_schema st env s)))"
    "bindE (auto_seed st env) k = (\<lambda>s. k () (snd (auto_seed st env s)))" for k :: "unit \<Rightarrow> ('a, unit) eff"
    by (rule ext, simp add: bindE_def logged_steps)+
  show "startup st env s =
     bindE (start_observing st env) (\<lambda>_ s0.
       let s1 = (if le_auto_migrate env = Some ''1'' then snd (le_upgrade env s0) else s0) in
       bindE (le_engine env) (\<lambda>_ s2.
         let creates = (le_bootstrap_schema env = Some ''1'' \<or> le_bootstrap_schema env = None \<and> \<not> is_production st);
             s3 = (if creates then snd (le_create_all env s2) else s2) in
         bindE (seed_users_step st env) (\<lambda>_ s4.
           let s5 = (if is_production st \<or> le_auto_seed env = Some ''0'' then s4
                     else snd (seed_if_empty (le_life env) (le_seed_db env) (le_seed_env env) s4)) in
           bindE (schedule_health_check env) (\<lambda>_. start_scheduler (le_scheduler env)) s5) s3) s1) s"
    unfolding startup_def steps logged_steps snd_conv Let_def ..
qed

end
