(* ===== verification/Schema.thy ===== *)
theory Schema
  imports Effects
begin

text \<open>
  The database schema twice: as the classes of \<open>infrastructure/persistence/models.py\<close> declare
  it, from which \<open>create_all\<close> builds the tables at a start outside production, and as the
  operations of the migration \<open>alembic/versions/197491bccd3f_initial_schema.py\<close>, which
  production runs.  SQLAlchemy's reading of a class and alembic's operations are modelled as
  documented: a column is nullable when its type is optional, \<open>index=True\<close> makes an index
  named after table and column, unique when \<open>unique=True\<close>.
\<close>

section \<open>Schemas and migrations\<close>

datatype column_type = String nat | Text | Integer | DateTimeColumn | JSON | Boolean

record column =
  col_name :: string
  col_type :: column_type
  col_nullable :: bool

record table =
  tab_name :: string
  tab_columns :: "column list"
  tab_primary_key :: "string list"

record index =
  ix_name :: string
  ix_table :: string
  ix_columns :: "string list"
  ix_unique :: bool

record schema =
  sc_tables :: "table list"
  sc_indexes :: "index list"

definition empty_schema :: schema where
  "empty_schema = \<lparr>sc_tables = [], sc_indexes = []\<rparr>"

datatype operation =
    CreateTable string "column list" "string list"
  | CreateIndex string string "string list" bool
  | DropIndex string string
  | DropTable string

definition find_table :: "string \<Rightarrow> schema \<Rightarrow> table option" where
  "find_table n sc = find (\<lambda>t. tab_name t = n) (sc_tables sc)"

definition op_error :: "exn + schema" where
  "op_error = Inl (Exn OtherError ''OperationalError'')"

fun apply_op :: "operation \<Rightarrow> schema \<Rightarrow> exn + schema" where
  "apply_op (CreateTable n cols key) sc =
     (if find_table n sc \<noteq> None then op_error
      else Inr (sc\<lparr>sc_tables := sc_tables sc @ [\<lparr>tab_name = n, tab_columns = cols, tab_primary_key = key\<rparr>]\<rparr>))"
| "apply_op (CreateIndex i n cols uniq) sc =
     (case find_table n sc of
        None \<Rightarrow> op_error
      | Some t \<Rightarrow>
          if i \<in> set (map ix_name (sc_indexes sc)) \<or> \<not> set cols \<subseteq> set (map col_name (tab_columns t)) then op_error
          else Inr (sc\<lparr>sc_indexes := sc_indexes sc @
                     [\<lparr>ix_name = i, ix_table = n, ix_columns = cols, ix_unique = uniq\<rparr>]\<rparr>))"
| "apply_op (DropIndex i n) sc =
     (if \<exists>x \<in> set (sc_indexes sc). ix_name x = i \<and> ix_table x = n
      then Inr (sc\<lparr>sc_indexes := filter (\<lambda>x. ix_name x \<noteq> i) (sc_indexes sc)\<rparr>) else op_error)"
| "apply_op (DropTable n) sc =
     (if find_table n sc = None then op_error
      else Inr (sc\<lparr>sc_tables := filter (\<lambda>t. tab_name t \<noteq> n) (sc_tables sc),
                  sc_indexes := filter (\<lambda>x. ix_table x \<noteq> n) (sc_indexes sc)\<rparr>))"

fun apply_ops :: "operation list \<Rightarrow> schema \<Rightarrow> exn + schema" where
  "apply_ops [] sc = Inr sc"
| "apply_ops (x # xs) sc = (case apply_op x sc of Inl e \<Rightarrow> Inl e | Inr sc' \<Rightarrow> apply_ops xs sc')"

lemma apply_ops_append:
  "apply_ops (xs @ ys) sc = (case apply_ops xs sc of Inl e \<Rightarrow> Inl e | Inr sc' \<Rightarrow> apply_ops ys sc')"
  by (induction xs arbitrary: sc) (auto split: sum.splits)

section \<open>The migration\<close>

definition column :: "string \<Rightarrow> column_type \<Rightarrow> bool \<Rightarrow> column" where
  "column n ty nullable = \<lparr>col_name = n, col_type = ty, col_nullable = nullable\<rparr>"

text \<open>\<open>op.f('ix_' ...)\<close> with one column.\<close>

definition upgrade :: "operation list" where
  "upgrade =
     [CreateTable ''jobs''
        [column ''id'' (String 64) False, column ''source_id'' (String 64) False, column ''status'' (String 16) False,
         column ''started_at'' DateTimeColumn False, column ''finished_at'' DateTimeColumn True,
         column ''items_fetched'' Integer False, column ''items_saved'' Integer False, column ''error'' Text True,
         column ''trace_id'' (String 64) True] [''id''],
      CreateIndex ''ix_jobs_source_id'' ''jobs'' [''source_id''] False,
      CreateIndex ''ix_jobs_started_at'' ''jobs'' [''started_at''] False,
      CreateIndex ''ix_jobs_status'' ''jobs'' [''status''] False,
      CreateTable ''programs''
        [column ''id'' (String 64) False, column ''title'' (String 512) False, column ''description'' Text True,
         column ''channel_id'' (String 64) False, column ''channel_name'' (String 255) False,
         column ''channel_logo'' (String 2048) True, column ''channel_country'' (String 8) True,
         column ''channel_language'' (String 16) True, column ''start_at'' DateTimeColumn False,
         column ''end_at'' DateTimeColumn False, column ''timezone'' (String 64) False, column ''tags'' JSON False,
         column ''source_ids'' JSON False, column ''identity_key'' (String 128) False, column ''version'' Integer False,
         column ''created_at'' DateTimeColumn False, column ''updated_at'' DateTimeColumn False] [''id''],
      CreateIndex ''ix_prog_channel_start'' ''programs'' [''channel_id'', ''start_at''] False,
      CreateIndex ''ix_programs_channel_id'' ''programs'' [''channel_id''] False,
      CreateIndex ''ix_programs_identity_key'' ''programs'' [''identity_key''] True,
      CreateIndex ''ix_programs_start_at'' ''programs'' [''start_at''] False,
      CreateIndex ''ix_programs_title'' ''programs'' [''title''] False,
      CreateTable ''source_health''
        [column ''source_id'' (String 64) False, column ''fail_streak'' Integer False,
         column ''last_check_at'' DateTimeColumn True, column ''last_message'' Text True] [''source_id''],
      CreateTable ''sources''
        [column ''id'' (String 64) False, column ''name'' (String 255) False, column ''type'' (String 32) False,
         column ''url'' (String 2048) True, column ''config'' JSON False, column ''headers'' JSON False,
         column ''cron'' (String 64) False, column ''priority'' Integer False, column ''status'' (String 16) False,
         column ''parser'' (String 64) False, column ''created_at'' DateTimeColumn False,
         column ''updated_at'' DateTimeColumn False] [''id''],
      CreateIndex ''ix_sources_status'' ''sources'' [''status''] False,
      CreateIndex ''ix_sources_type'' ''sources'' [''type''] False,
      CreateTable ''users''
        [column ''id'' (String 64) False, column ''username'' (String 64) False,
         column ''password_hash'' (String 255) False, column ''role'' (String 16) False,
         column ''created_at'' DateTimeColumn False, column ''disabled'' Boolean False] [''id''],
      CreateIndex ''ix_users_username'' ''users'' [''username''] True]"

definition downgrade :: "operation list" where
  "downgrade =
     [DropIndex ''ix_users_username'' ''users'', DropTable ''users'',
      DropIndex ''ix_sources_type'' ''sources'', DropIndex ''ix_sources_status'' ''sources'', DropTable ''sources'',
      DropTable ''source_health'',
      DropIndex ''ix_programs_title'' ''programs'', DropIndex ''ix_programs_start_at'' ''programs'',
      DropIndex ''ix_programs_identity_key'' ''programs'', DropIndex ''ix_programs_channel_id'' ''programs'',
      DropIndex ''ix_prog_channel_start'' ''programs'', DropTable ''programs'',
      DropIndex ''ix_jobs_status'' ''jobs'', DropIndex ''ix_jobs_started_at'' ''jobs'',
      DropIndex ''ix_jobs_source_id'' ''jobs'', DropTable ''jobs'']"

section \<open>The classes\<close>

text \<open>\<open>mapped_column\<close>: its type, whether the annotation is optional, and its three flags.\<close>

record mapped =
  mc_name :: string
  mc_type :: column_type
  mc_optional :: bool
  mc_primary_key :: bool
  mc_index :: bool
  mc_unique :: bool

definition plain :: "string \<Rightarrow> column_type \<Rightarrow> mapped" where
  "plain n ty = \<lparr>mc_name = n, mc_type = ty, mc_optional = False, mc_primary_key = False, mc_index = False, mc_unique = False\<rparr>"

definition optional :: "string \<Rightarrow> column_type \<Rightarrow> mapped" where
  "optional n ty = (plain n ty)\<lparr>mc_optional := True\<rparr>"

definition key_column :: "string \<Rightarrow> mapped" where
  "key_column n = (plain n (String 64))\<lparr>mc_primary_key := True\<rparr>"

definition indexed :: "string \<Rightarrow> column_type \<Rightarrow> mapped" where
  "indexed n ty = (plain n ty)\<lparr>mc_index := True\<rparr>"

definition unique_indexed :: "string \<Rightarrow> column_type \<Rightarrow> mapped" where
  "unique_indexed n ty = (indexed n ty)\<lparr>mc_unique := True\<rparr>"

definition SourceRow :: "mapped list" where
  "SourceRow =
     [key_column ''id'', plain ''name'' (String 255), indexed ''type'' (String 32), optional ''url'' (String 2048),
      plain ''config'' JSON, plain ''headers'' JSON, plain ''cron'' (String 64), plain ''priority'' Integer,
      indexed ''status'' (String 16), plain ''parser'' (String 64), plain ''created_at'' DateTimeColumn,
      plain ''updated_at'' DateTimeColumn]"

definition ProgramRow :: "mapped list" where
  "ProgramRow =
     [key_column ''id'', indexed ''title'' (String 512), optional ''description'' Text,
      indexed ''channel_id'' (String 64), plain ''channel_name'' (String 255), optional ''channel_logo'' (String 2048),
      optional ''channel_country'' (String 8), optional ''channel_language'' (String 16),
      indexed ''start_at'' DateTimeColumn, plain ''end_at'' DateTimeColumn, plain ''timezone'' (String 64),
      plain ''tags'' JSON, plain ''source_ids'' JSON, unique_indexed ''identity_key'' (String 128),
      plain ''version'' Integer, plain ''created_at'' DateTimeColumn, plain ''updated_at'' DateTimeColumn]"

definition JobRow :: "mapped list" where
  "JobRow =
     [key_column ''id'', indexed ''source_id'' (String 64), indexed ''status'' (String 16),
      indexed ''started_at'' DateTimeColumn, optional ''finished_at'' DateTimeColumn, plain ''items_fetched'' Integer,
      plain ''items_saved'' Integer, optional ''error'' Text, optional ''trace_id'' (String 64)]"

definition UserRow :: "mapped list" where
  "UserRow =
     [key_column ''id'', unique_indexed ''username'' (String 64), plain ''password_hash'' (String 255),
      plain ''role'' (String 16), plain ''created_at'' DateTimeColumn, plain ''disabled'' Boolean]"

definition SourceHealthRow :: "mapped list" where
  "SourceHealthRow =
     [key_column ''source_id'', plain ''fail_streak'' Integer, optional ''last_check_at'' DateTimeColumn,
      optional ''last_message'' Text]"

text \<open>\<open>Base.metadata.create_all\<close>, with the extra \<open>Index\<close> declared beside \<open>ProgramRow\<close>.\<close>

definition table_of :: "string \<Rightarrow> mapped list \<Rightarrow> table" where
  "table_of n ms =
     \<lparr>tab_name = n, tab_columns = map (\<lambda>m. column (mc_name m) (mc_type m) (mc_optional m)) ms,
      tab_primary_key = map mc_name (filter mc_primary_key ms)\<rparr>"

definition indexes_of :: "string \<Rightarrow> mapped list \<Rightarrow> index list" where
  "indexes_of n ms =
     map (\<lambda>m. \<lparr>ix_name = ''ix_'' @ n @ ''_'' @ mc_name m, ix_table = n, ix_columns = [mc_name m], ix_unique = mc_unique m\<rparr>)
       (filter mc_index ms)"

definition models :: "(string \<times> mapped list) list" where
  "models =
     [(''sources'', SourceRow), (''programs'', ProgramRow), (''jobs'', JobRow), (''users'', UserRow),
      (''source_health'', SourceHealthRow)]"

definition metadata :: schema where
  "metadata =
     \<lparr>sc_tables = map (\<lambda>(n, ms). table_of n ms) models,
      sc_indexes = concat (map (\<lambda>(n, ms). indexes_of n ms) models) @
        [\<lparr>ix_name = ''ix_prog_channel_start'', ix_table = ''programs'', ix_columns = [''channel_id'', ''start_at''],
          ix_unique = False\<rparr>]\<rparr>"

section \<open>The migration and the classes agree\<close>

text \<open>The names an operation touches, and that a schema has none of them.\<close>

fun op_table :: "operation \<Rightarrow> string" where
  "op_table (CreateTable n cols key) = n"
| "op_table (CreateIndex i n cols uniq) = n"
| "op_table (DropIndex i n) = n"
| "op_table (DropTable n) = n"

fun op_index :: "operation \<Rightarrow> string option" where
  "op_index (CreateIndex i n cols uniq) = Some i"
| "op_index (DropIndex i n) = Some i"
| "op_index _ = None"

definition foreign :: "schema \<Rightarrow> operation list \<Rightarrow> bool" where
  "foreign s xs \<longleftrightarrow>
     (\<forall>x \<in> set xs. (\<forall>t \<in> set (sc_tables s). tab_name t \<noteq> op_table x) \<and>
        (\<forall>i \<in> set (sc_indexes s). Some (ix_name i) \<noteq> op_index x \<and> ix_table i \<noteq> op_table x))"

definition beside :: "schema \<Rightarrow> schema \<Rightarrow> schema" where
  "beside s sc = \<lparr>sc_tables = sc_tables s @ sc_tables sc, sc_indexes = sc_indexes s @ sc_indexes sc\<rparr>"

lemma beside_simps [simp]:
  "sc_tables (beside s sc) = sc_tables s @ sc_tables sc" "sc_indexes (beside s sc) = sc_indexes s @ sc_indexes sc"
  "beside s empty_schema = s"
  by (simp_all add: beside_def empty_schema_def)

lemma find_skip: "\<forall>x \<in> set xs. \<not> P x \<Longrightarrow> find P (xs @ ys) = find P ys"
  by (induction xs) auto

lemma find_table_beside:
  "\<forall>t \<in> set (sc_tables s). tab_name t \<noteq> n \<Longrightarrow> find_table n (beside s sc) = find_table n sc"
  by (simp add: find_table_def find_skip)

text \<open>An operation does the same beside a schema that has none of its names.\<close>

lemma apply_op_beside:
  assumes "apply_op x sc = Inr sc'" "foreign s [x]"
  shows "apply_op x (beside s sc) = Inr (beside s sc')"
proof -
  have names: "\<forall>t \<in> set (sc_tables s). tab_name t \<noteq> op_table x"
      "\<forall>i \<in> set (sc_indexes s). Some (ix_name i) \<noteq> op_index x \<and> ix_table i \<noteq> op_table x"
    using assms(2) by (simp_all add: foreign_def)
  note find = find_table_beside [OF names(1)]
  have keep: "filter (\<lambda>t. tab_name t \<noteq> op_table x) (sc_tables s) = sc_tables s"
      "filter (\<lambda>i. ix_table i \<noteq> op_table x) (sc_indexes s) = sc_indexes s"
      "filter (\<lambda>i. Some (ix_name i) \<noteq> op_index x) (sc_indexes s) = sc_indexes s"
    using names by (auto simp: filter_id_conv)
  show ?thesis
    using assms(1) names keep find
    by (cases x) (auto simp: beside_def op_error_def split: if_splits option.splits)
qed

lemma apply_ops_beside:
  "apply_ops xs sc = Inr sc' \<Longrightarrow> foreign s xs \<Longrightarrow> apply_ops xs (beside s sc) = Inr (beside s sc')"
proof (induction xs arbitrary: sc)
  case (Cons x xs)
  then obtain sc1 where sc1: "apply_op x sc = Inr sc1" "apply_ops xs sc1 = Inr sc'"
    by (auto split: sum.splits)
  have "foreign s [x]" "foreign s xs" using Cons.prems(2) by (auto simp: foreign_def)
  with Cons.IH [OF sc1(2)] apply_op_beside [OF sc1(1)] show ?case by simp
qed simp

text \<open>What the migration makes of an empty schema.\<close>

definition created :: schema where
  "created = (case apply_ops upgrade empty_schema of Inl e \<Rightarrow> empty_schema | Inr sc \<Rightarrow> sc)"

lemma upgrade_empty: "apply_ops upgrade empty_schema = Inr created"
  unfolding created_def by code_simp

lemma downgrade_created: "apply_ops downgrade created = Inr empty_schema"
  by code_simp

lemma created_metadata:
  "set (sc_tables created) = set (sc_tables metadata)" "set (sc_indexes created) = set (sc_indexes metadata)"
  by code_simp+

lemma migration_names:
  "list_all (\<lambda>x. op_table x \<in> set (map tab_name (sc_tables metadata)) \<and>
      (case op_index x of None \<Rightarrow> True | Some i \<Rightarrow> i \<in> set (map ix_name (sc_indexes metadata)))) (upgrade @ downgrade)"
  by code_simp

text \<open>
  C32: the migration and the models describe the same database.  On every schema that uses none
  of the application's names (alembic's own version table, say) the upgrade succeeds and adds
  exactly the tables and indexes \<open>create_all\<close> makes of the ORM classes (columns in order, types,
  lengths, nullability, primary keys, uniqueness), and the downgrade that follows takes exactly
  these away again.
\<close>

theorem migration_matches_models:
  assumes "\<forall>t \<in> set (sc_tables s). tab_name t \<notin> tab_name ` set (sc_tables metadata)"
    and "\<forall>i \<in> set (sc_indexes s). ix_name i \<notin> ix_name ` set (sc_indexes metadata) \<and>
      ix_table i \<notin> tab_name ` set (sc_tables metadata)"
  shows "\<exists>sc. apply_ops upgrade s = Inr sc \<and>
    set (sc_tables sc) = set (sc_tables s) \<union> set (sc_tables metadata) \<and>
    set (sc_indexes sc) = set (sc_indexes s) \<union> set (sc_indexes metadata) \<and>
    apply_ops downgrade sc = Inr s"
proof -
  have "foreign s (upgrade @ downgrade)"
    unfolding foreign_def
  proof (intro ballI conjI)
    fix x t assume "x \<in> set (upgrade @ downgrade)" "t \<in> set (sc_tables s)"
    with migration_names assms(1) show "tab_name t \<noteq> op_table x" unfolding list_all_iff set_map by metis
  next
    fix x i assume x: "x \<in> set (upgrade @ downgrade)" "i \<in> set (sc_indexes s)"
    with migration_names have n: "op_table x \<in> tab_name ` set (sc_tables metadata)"
      "case op_index x of None \<Rightarrow> True | Some i \<Rightarrow> i \<in> ix_name ` set (sc_indexes metadata)"
      unfolding list_all_iff set_map by blast+
    from n(1) x(2) assms(2) show "ix_table i \<noteq> op_table x" by metis
    from n(2) x(2) assms(2) show "Some (ix_name i) \<noteq> op_index x" by (cases "op_index x") auto
  qed
  then have up: "foreign s upgrade" and down: "foreign s downgrade" by (auto simp: foreign_def)
  from apply_ops_beside [OF upgrade_empty up] have "apply_ops upgrade s = Inr (beside s created)" by simp
  moreover from apply_ops_beside [OF downgrade_created down] have "apply_ops downgrade (beside s created) = Inr s" by simp
  ultimately show ?thesis by (intro exI [of _ "beside s created"]) (simp add: created_metadata)
qed

theorem migration_matches_models_witness:
  "\<exists>sc. apply_ops upgrade \<lparr>sc_tables = [table_of ''alembic_version'' [key_column ''version_num'']], sc_indexes = []\<rparr> = Inr sc \<and>
    set (sc_indexes sc) = set (sc_indexes metadata) \<and>
    apply_ops downgrade sc = Inr \<lparr>sc_tables = [table_of ''alembic_version'' [key_column ''version_num'']], sc_indexes = []\<rparr>"
proof -
  let ?s = "\<lparr>sc_tables = [table_of ''alembic_version'' [key_column ''version_num'']], sc_indexes = []\<rparr>"
  have "\<forall>t \<in> set (sc_tables ?s). tab_name t \<notin> tab_name ` set (sc_tables metadata)"
    by (simp add: table_of_def metadata_def models_def)
  from migration_matches_models [OF this] show ?thesis by auto
qed

end
