(* ===== verification/SharedSession.thy ===== *)
theory SharedSession
  imports Session
begin

text \<open>
  Two tables in one in-memory session that live and die together, as the tables of one
  SQLAlchemy session do: as soon as one table has changes no flush accepts, neither can be
  used any more.  \<open>on_shared\<close> turns a session on two independent tables into one on the
  shared session; it keeps the laws of \<open>sql_session\<close> and satisfies \<open>shares_session\<close>, but not
  \<open>session_frame\<close>.
\<close>

type_synonym ('a, 'b) shared = "('a list \<times> 'b list) option"

definition tables_of ::
  "('a \<Rightarrow> 'a \<Rightarrow> bool) \<Rightarrow> ('a \<Rightarrow> 'a) \<Rightarrow> ('b \<Rightarrow> 'b \<Rightarrow> bool) \<Rightarrow> ('b \<Rightarrow> 'b) \<Rightarrow>
   ('a, 'b) shared \<Rightarrow> 'a list option \<times> 'b list option" where
  "tables_of c1 st1 c2 st2 s =
     (case s of
        None \<Rightarrow> (None, None)
      | Some (a, b) \<Rightarrow> if mem_ok c1 st1 a \<and> mem_ok c2 st2 b then (Some a, Some b) else (None, None))"

fun shared_of :: "'a list option \<times> 'b list option \<Rightarrow> ('a, 'b) shared" where
  "shared_of (Some a, Some b) = Some (a, b)"
| "shared_of _ = None"

definition on_shared ::
  "(('a, 'b) shared \<Rightarrow> 'a list option \<times> 'b list option) \<Rightarrow>
   ('a list option \<times> 'b list option, 'r) session_api \<Rightarrow> (('a, 'b) shared, 'r) session_api" where
  "on_shared tabs api =
     \<lparr>exec_select = (\<lambda>q s. map_prod id shared_of (exec_select api q (tabs s))),
      get_row = (\<lambda>k s. map_prod id shared_of (get_row api k (tabs s))),
      add_row = (\<lambda>r s. shared_of (add_row api r (tabs s))),
      set_row = (\<lambda>r s. shared_of (set_row api r (tabs s))),
      delete_row = (\<lambda>k s. shared_of (delete_row api k (tabs s))),
      flush = (\<lambda>s. map_prod id shared_of (flush api (tabs s)))\<rparr>"

text \<open>
  A table \<open>view\<close> and its neighbour \<open>other\<close>: both can be read or neither can, and passing
  through the shared session loses nothing while both can.
\<close>

locale shared_pair =
  fixes tabs :: "('a, 'b) shared \<Rightarrow> 'a list option \<times> 'b list option"
    and view :: "'a list option \<times> 'b list option \<Rightarrow> 'r set option"
    and other :: "'a list option \<times> 'b list option \<Rightarrow> 'q set option"
  assumes together: "view (tabs s) = None \<longleftrightarrow> other (tabs s) = None"
    and kept: "view t \<noteq> None \<Longrightarrow> other t \<noteq> None \<Longrightarrow> tabs (shared_of t) = t"
    and dead: "view t = None \<or> other t = None \<Longrightarrow> view (tabs (shared_of t)) = None"
begin

lemma shared_session:
  assumes sess: "sql_session pk clash store api view" and frame: "session_frame api other"
    and broken: "\<And>t. view t = None \<Longrightarrow> \<exists>e t'. flush api t = (Inl e, t') \<and> exc e = IntegrityError \<and> view t' = None"
  shows "sql_session pk clash store (on_shared tabs api) (\<lambda>s. view (tabs s))"
proof -
  have tab: "sql_table pk clash store" using sess by (simp add: sql_session_def)
  note fr = session_frame_simps [OF frame]
  have through: "view (tabs (shared_of t)) = view t" if "other t = other (tabs s)" "view (tabs s) = Some S" for t s S
  proof (cases "view t")
    case (Some T)
    with that together [of s] show ?thesis by (simp add: kept)
  qed (simp add: dead)
  show ?thesis
  proof (intro sql_session.intro tab sql_session_axioms.intro)
    fix s S q k r r0 r' assume v: "view (tabs s) = Some S"
    show "finite S \<and> sql_table.table_ok clash store S" by (rule sql_session.view_ok [OF sess v])
    show "\<exists>xs s'. exec_select (on_shared tabs api) q s = (Inr xs, s') \<and> view (tabs s') = Some S \<and>
        answers q S (map store xs)"
      using sql_session.select [OF sess v, of q] through [OF fr(1) v, of q]
      by (auto simp: on_shared_def)
    show "\<exists>x s'. get_row (on_shared tabs api) k s = (Inr x, s') \<and> view (tabs s') = Some S \<and>
        (case x of None \<Rightarrow> \<forall>r \<in> S. pk r \<noteq> k | Some r \<Rightarrow> store r \<in> S \<and> pk r = k)"
      using sql_session.get [OF sess v, of k] through [OF fr(2) v, of k]
      by (fastforce simp: on_shared_def)
    show "view (tabs (add_row (on_shared tabs api) r s)) =
        (if \<exists>r' \<in> S. clash r r' then None else Some (insert (store r) S))"
      using sql_session.add [OF sess v, of r] through [OF fr(3) v, of r] by (simp add: on_shared_def)
    show "view (tabs (set_row (on_shared tabs api) r s)) = Some (insert (store r) (S - {r0}))"
      if "r0 \<in> S" "pk r = pk r0" "\<And>r'. clash r r' = clash r0 r'"
      using sql_session.assign [OF sess v that] through [OF fr(4) v, of r] by (simp add: on_shared_def)
    show "\<exists>s'. flush (on_shared tabs api) s = (Inr (), s') \<and> view (tabs s') = Some S"
      using sql_session.flush_ok [OF sess v] through [OF fr(6) v] by (auto simp: on_shared_def)
    show "view (tabs (delete_row (on_shared tabs api) k s)) = Some {r \<in> S. pk r \<noteq> k}"
      using sql_session.remove [OF sess v, of k] through [OF fr(5) v, of k] by (simp add: on_shared_def)
    show "\<exists>e s'. flush (on_shared tabs api) (add_row (on_shared tabs api) r s) = (Inl e, s') \<and>
        exc e = IntegrityError \<and> view (tabs s') = None" if "r' \<in> S" "clash r r'"
    proof -
      let ?t = "add_row api r (tabs s)"
      have "view ?t = None" using sql_session.add [OF sess v, of r] that by auto
      then have "view (tabs (shared_of ?t)) = None" using dead [of ?t] by simp
      with broken obtain e t' where t': "flush api (tabs (shared_of ?t)) = (Inl e, t')" "exc e = IntegrityError"
        "view t' = None" by blast
      with dead [of t'] show ?thesis by (simp add: on_shared_def)
    qed
  qed
qed

lemma shared_shares:
  assumes sess: "sql_session pk clash store api view" and frame: "session_frame api other"
  shows "shares_session (on_shared tabs api) (\<lambda>s. view (tabs s)) (\<lambda>s. other (tabs s))"
proof -
  note fr = session_frame_simps [OF frame]
  have keep: "other (tabs (shared_of t)) = other (tabs s)" if "other t = other (tabs s)" "view (tabs s) = Some S"
    "view t = Some T" for t s S T
    using that together [of s] kept [of t] by simp
  show ?thesis
    unfolding shares_session_def
  proof (intro allI impI conjI)
    fix s assume "view (tabs s) \<noteq> None"
    then obtain S where v: "view (tabs s) = Some S" by blast
    show "other (tabs s') = other (tabs s)" if "exec_select (on_shared tabs api) q s = (Inr x, s')" for q x s'
      using that sql_session.select [OF sess v, of q] keep [OF fr(1) v, of q] by (auto simp: on_shared_def)
    show "other (tabs s') = other (tabs s)" if "get_row (on_shared tabs api) k s = (Inr x, s')" for k x s'
      using that sql_session.get [OF sess v, of k] keep [OF fr(2) v, of k] by (auto simp: on_shared_def)
    show "other (tabs s') = other (tabs s)" if "flush (on_shared tabs api) s = (Inr (), s')" for s'
      using that sql_session.flush_ok [OF sess v] keep [OF fr(6) v] by (auto simp: on_shared_def)
    show "other (tabs (add_row (on_shared tabs api) r s)) = other (tabs s)"
      if "view (tabs (add_row (on_shared tabs api) r s)) \<noteq> None" for r
      using that dead [of "add_row api r (tabs s)"] keep [OF fr(3) v, of r]
      by (cases "view (add_row api r (tabs s))") (auto simp: on_shared_def)
    show "other (tabs (set_row (on_shared tabs api) r s)) = other (tabs s)"
      if "view (tabs (set_row (on_shared tabs api) r s)) \<noteq> None" for r
      using that dead [of "set_row api r (tabs s)"] keep [OF fr(4) v, of r]
      by (cases "view (set_row api r (tabs s))") (auto simp: on_shared_def)
  qed
qed

end

end
