(* ===== verification/CrawlOutcome.thy ===== *)
theory CrawlOutcome
  imports Aggregation Parsers SharedSession
begin

text \<open>
  The whole crawl of a JSON page: \<open>AggregationService.run_once\<close> on the SQLAlchemy repositories
  of one session (\<open>app.py\<close>), with the JSON parser the factory always chooses.  The parser gives
  no programme an id and the table takes only one row without, so a page is stored exactly when
  it brings at most one new programme and the catalogue has no row without id besides.  A failed
  flush leaves the session waiting for a rollback nobody does; \<open>dead\<close> says so.
\<close>

section \<open>What one page makes of the catalogue\<close>

definition put_entry ::
  "tv_program \<Rightarrow> (string \<rightharpoonup> string \<times> string list \<times> int) \<Rightarrow> (string \<rightharpoonup> string \<times> string list \<times> int)" where
  "put_entry p m = m(identity_key p \<mapsto>
     (case m (identity_key p) of
        None \<Rightarrow> summary p
      | Some (t, ids, v) \<Rightarrow> (title p, sorted_set (ids @ source_ids p), v + 1)))"

definition blank :: "program_row set \<Rightarrow> bool" where
  "blank S \<longleftrightarrow> (\<exists>r \<in> S. prow_id r = [])"

text \<open>The programmes the catalogue does not know.\<close>

definition unknown :: "(string \<rightharpoonup> 'v) \<Rightarrow> tv_program list \<Rightarrow> nat" where
  "unknown m ps = length (filter (\<lambda>p. m (identity_key p) = None) ps)"

text \<open>A programme without an id whose row can be read back.\<close>

definition without_id :: "tv_program \<Rightarrow> bool" where
  "without_id p \<longleftrightarrow> prog_id p = None \<and> program_ok p \<and> channel_ok (channel p) \<and> logo_url (channel p) = None"

lemma put_entry_other: "identity_key p \<noteq> k \<Longrightarrow> put_entry p m k = m k"
  by (simp add: put_entry_def)

lemma unknown_put:
  assumes "identity_key p \<notin> identity_key ` set ps"
  shows "unknown (put_entry p m) ps = unknown m ps"
proof -
  have "put_entry p m (identity_key q) = m (identity_key q)" if "q \<in> set ps" for q
    using assms that by (intro put_entry_other) auto
  then have "filter (\<lambda>q. put_entry p m (identity_key q) = None) ps = filter (\<lambda>q. m (identity_key q) = None) ps"
    by (intro filter_cong) simp_all
  then show ?thesis by (simp only: unknown_def)
qed

lemma unknown_simps [simp]:
  "unknown m [] = 0" "unknown m (p # ps) = (if m (identity_key p) = None then 1 else 0) + unknown m ps"
  by (simp_all add: unknown_def)

context program_session
begin

lemma catalogue_key:
  assumes "catalogue env view s = Some m" "view s = Some S"
  shows "m k = None \<longleftrightarrow> (\<forall>r \<in> S. prow_identity_key r \<noteq> k)"
proof -
  have "m = keyed prow_identity_key row_summary S" using assms by (simp add: catalogue_Some)
  then show ?thesis by (simp only: keyed_None)
qed

lemma put_known:
  assumes "catalogue env view s = Some m" "view s = Some S" "m (identity_key p) \<noteq> None" "without_id p"
  shows "\<exists>q s' S'. upsert api env now p s = (Inr q, s') \<and> view s' = Some S' \<and>
    catalogue env view s' = Some (put_entry p m) \<and> (blank S' \<longleftrightarrow> blank S)"
proof -
  obtain t ids v where e: "m (identity_key p) = Some (t, ids, v)"
    using assms(3) by (metis option.exhaust prod_cases3)
  obtain q s' where q: "upsert api env now p s = (Inr q, s')" "catalogue env view s' = Some (put_entry p m)"
    using repo.upsert_known [OF assms(1) e] assms(4) e by (auto simp: put_entry_def without_id_def)
  obtain r0 where r0: "r0 \<in> S" "prow_identity_key r0 = identity_key p"
    using catalogue_key [OF assms(1,2), of "identity_key p"] e by auto
  obtain r s1 s2 where u: "program_store r = r0"
      "upsert api env now p s = (program_to_domain env (updated_row (now s1) p r), s2)"
      "view s2 = Some (insert (program_store (updated_row (now s1) p r)) (S - {r0}))"
    using upsert_existing [OF assms(2) r0] by blast
  have "prow_id (program_store (updated_row (now s1) p r)) = prow_id r0" using u(1) by auto
  then have "blank (insert (program_store (updated_row (now s1) p r)) (S - {r0})) \<longleftrightarrow> blank S"
    using r0(1) by (auto simp: blank_def)
  with q u(2,3) show ?thesis by auto
qed

lemma put_new:
  assumes "catalogue env view s = Some m" "view s = Some S" "m (identity_key p) = None" "without_id p" "\<not> blank S"
  shows "\<exists>q s' S'. upsert api env now p s = (Inr q, s') \<and> view s' = Some S' \<and>
    catalogue env view s' = Some (put_entry p m) \<and> blank S'"
proof -
  let ?row = "program_from_domain p"
  have key: "prow_identity_key r \<noteq> identity_key p" if "r \<in> S" for r
    using catalogue_key [OF assms(1,2), of "identity_key p"] assms(3) that by simp
  obtain s' where s': "upsert api env now p s = (program_to_domain env ?row, s')"
      "view s' = Some (insert (program_store ?row) S)"
    using upsert_missing [OF assms(2) key] assms(4,5) by (simp add: without_id_def blank_def) blast
  have "row_valid env ?row" using assms(4) by (simp add: without_id_def from_domain_valid)
  then obtain q where q: "program_to_domain env ?row = Inr q" by (rule row_validE)
  have "catalogue env view s' = Some (put_entry p m)"
    using repo.upsert_new [OF assms(1,3), of q s'] s'(1) q assms(3) by (simp add: put_entry_def)
  moreover have "blank (insert (program_store ?row) S)" using assms(4) by (simp add: blank_def without_id_def)
  ultimately show ?thesis using s' q by auto
qed

lemma put_clash:
  assumes "catalogue env view s = Some m" "view s = Some S" "m (identity_key p) = None" "without_id p" "blank S"
  shows "\<exists>e s1 r'. upsert api env now p s = (Inl e, snd (flush api (add_row api (program_from_domain p) s1))) \<and>
    exc e = IntegrityError \<and> view s1 = Some S \<and> r' \<in> S \<and> program_clash (program_from_domain p) r'"
proof -
  let ?row = "program_from_domain p"
  obtain r' where r': "r' \<in> S" "prow_id r' = []" using assms(5) by (auto simp: blank_def)
  then have clash: "program_clash ?row r'" using assms(4) by (simp add: program_clash_def without_id_def)
  obtain x xs s1 where s1: "exec_select api (by_identity (identity_key p)) s = (Inr xs, s1)"
      "view s1 = Some S" "scalar_one_or_none xs = Inr x"
      "case x of None \<Rightarrow> \<forall>r \<in> S. prow_identity_key r \<noteq> identity_key p
       | Some r \<Rightarrow> program_store r \<in> S \<and> prow_identity_key r = identity_key p"
    using select_identity [OF assms(2)] by blast
  have key: "prow_identity_key r \<noteq> identity_key p" if "r \<in> S" for r
    using catalogue_key [OF assms(1,2), of "identity_key p"] assms(3) that by simp
  have x: "x = None"
  proof (cases x)
    case (Some r)
    with s1(4) key [of "program_store r"] show ?thesis by simp
  qed simp
  have go: "upsert api env now p s =
      bindE (flush api) (\<lambda>_. pure_eff (program_to_domain env ?row)) (add_row api ?row s1)"
    by (simp add: upsert_def bindE_def s1(1,3) x Let_def)
  obtain e s2 where "flush api (add_row api ?row s1) = (Inl e, s2)" "exc e = IntegrityError"
    using conflict [OF s1(2) r'(1) clash] by blast
  then have "upsert api env now p s = (Inl e, snd (flush api (add_row api ?row s1)))"
    by (simp add: go bindE_def)
  with \<open>exc e = IntegrityError\<close> s1(2) r'(1) clash show ?thesis by blast
qed

end

section \<open>One session\<close>

text \<open>
  The two tables on one session: a failed flush leaves the session dead, which nothing the run
  calls can change; no table of a dead session can be read.
\<close>

locale one_session = crawl_tables papi pview japi jview env now agg
  for papi :: "('s, program_row) session_api" and pview :: "'s \<Rightarrow> program_row set option"
    and japi :: "('s, job_row) session_api" and jview :: "'s \<Rightarrow> job_row set option"
    and env :: repo_env and now :: "'s \<Rightarrow> datetime" and agg :: "'s aggregator" +
  fixes dead :: "'s \<Rightarrow> bool"
  assumes dies: "pview s = Some S \<Longrightarrow> r' \<in> S \<Longrightarrow> program_clash r r' \<Longrightarrow> dead (snd (flush papi (add_row papi r s)))"
    and dead_views: "dead s \<Longrightarrow> pview s = None \<and> jview s = None"
    and dead_get: "dead s \<Longrightarrow> \<exists>e s'. get_row japi k s = (Inl e, s') \<and> dead s'"
    and dead_world: "world_keeps agg dead"
begin

text \<open>Saving the programmes of a page.\<close>

lemma saves_page:
  assumes "catalogue env pview s = Some m" "pview s = Some S" "job_map jview s = Some jm"
    and "distinct (map identity_key ps)" and "\<And>p. p \<in> set ps \<Longrightarrow> without_id p"
  shows "if unknown m ps + (if blank S then 1 else 0) \<le> 1
    then \<exists>s'. saves (ag_upsert agg) ps s (length ps) None s' \<and>
      catalogue env pview s' = Some (fold put_entry ps m) \<and> job_map jview s' = Some jm
    else \<exists>n e s'. saves (ag_upsert agg) ps s n (Some e) s' \<and> exc e = IntegrityError \<and> dead s'"
  using assms
proof (induction ps arbitrary: s m S)
  case Nil
  have "saves (ag_upsert agg) [] s 0 None s" by (rule saved_all)
  with Nil show ?case by auto
next
  case (Cons p ps)
  let ?m = "put_entry p m"
  have p: "without_id p" and ps: "\<And>q. q \<in> set ps \<Longrightarrow> without_id q" "distinct (map identity_key ps)"
    using Cons.prems(4,5) by simp_all
  have rest: "unknown ?m ps = unknown m ps" using Cons.prems(4) by (intro unknown_put) simp
  have step: ?case if up: "ag_upsert agg p s = (Inr q, s1)" "pview s1 = Some S1" "catalogue env pview s1 = Some ?m"
    and count: "unknown m (p # ps) + (if blank S then 1 else 0) = unknown m ps + (if blank S1 then 1 else 0)" for q s1 S1
  proof -
    have "jview s1 = jview s"
      using pr.upsert_shares [OF separate(1) Cons.prems(2)] up(1) by (simp add: upsert_is)
    then have j1: "job_map jview s1 = Some jm" using Cons.prems(3) by (simp add: job_map_def)
    note IH = Cons.IH [OF up(3,2) j1 ps(2,1), unfolded rest]
    note one = saved_one [where up = "ag_upsert agg" and p = p and ps = ps, OF up(1)]
    show ?case
    proof (cases "unknown m ps + (if blank S1 then 1 else 0) \<le> 1")
      case True
      with IH obtain s' where "saves (ag_upsert agg) ps s1 (length ps) None s'"
        "catalogue env pview s' = Some (fold put_entry ps ?m)" "job_map jview s' = Some jm" by auto
      with one have "saves (ag_upsert agg) (p # ps) s (length (p # ps)) None s'" by simp
      with True count \<open>catalogue env pview s' = _\<close> \<open>job_map jview s' = _\<close> show ?thesis by auto
    next
      case False
      with IH obtain n e s' where "saves (ag_upsert agg) ps s1 n (Some e) s'" "exc e = IntegrityError" "dead s'"
        by auto
      with one have "\<exists>n e s'. saves (ag_upsert agg) (p # ps) s n (Some e) s' \<and> exc e = IntegrityError \<and> dead s'"
        by blast
      with False show ?thesis unfolding count by simp
    qed
  qed
  show ?case
  proof (cases "m (identity_key p)")
    case (Some e)
    then have k: "m (identity_key p) \<noteq> None" by simp
    obtain q s1 S1 where "upsert papi env now p s = (Inr q, s1)" "pview s1 = Some S1"
      "catalogue env pview s1 = Some ?m" "blank S1 = blank S"
      using pr.put_known [OF Cons.prems(1,2) k p] by blast
    with step [of q s1 S1] Some show ?thesis by (simp add: upsert_is)
  next
    case None
    show ?thesis
    proof (cases "blank S")
      case False
      obtain q s1 S1 where "upsert papi env now p s = (Inr q, s1)" "pview s1 = Some S1"
        "catalogue env pview s1 = Some ?m" "blank S1"
        using pr.put_new [OF Cons.prems(1,2) None p False] by blast
      with step [of q s1 S1] None False show ?thesis by (simp add: upsert_is)
    next
      case True
      obtain e s1 r' where c: "upsert papi env now p s = (Inl e, snd (flush papi (add_row papi (program_from_domain p) s1)))"
        "exc e = IntegrityError" "pview s1 = Some S" "r' \<in> S" "program_clash (program_from_domain p) r'"
        using pr.put_clash [OF Cons.prems(1,2) None p True] by blast
      have "saves (ag_upsert agg) (p # ps) s 0 (Some e) (snd (flush papi (add_row papi (program_from_domain p) s1)))"
        using not_saved [where up = "ag_upsert agg" and p = p and ps = ps] c(1) by (simp add: upsert_is)
      with c(2) dies [OF c(3-5)] None True show ?thesis by auto
    qed
  qed
qed

text \<open>The same inside the factory's transaction, which belongs to another session.\<close>

lemma page_in_transaction:
  assumes "catalogue env pview s = Some m" "pview s = Some S" "job_map jview s = Some jm"
    and "distinct (map identity_key ps)" and "\<And>p. p \<in> set ps \<Longrightarrow> without_id p"
  shows "if unknown m ps + (if blank S then 1 else 0) \<le> 1
    then \<exists>w. in_transaction (ag_session_factory agg) (for_each (save_one (ag_upsert agg)) ps)
          \<lparr>run_world = s, run_saved = 0, run_job = j\<rparr> =
        (Inr (), \<lparr>run_world = w, run_saved = length ps, run_job = j\<rparr>) \<and>
      catalogue env pview w = Some (fold put_entry ps m) \<and> job_map jview w = Some jm
    else \<exists>e r. in_transaction (ag_session_factory agg) (for_each (save_one (ag_upsert agg)) ps)
          \<lparr>run_world = s, run_saved = 0, run_job = j\<rparr> = (Inl e, r) \<and> dead (run_world r)"
    (is "if ?ok then _ else _")
proof (cases "ag_session_factory agg")
  case None
  note saved = saves_page [OF assms]
  show ?thesis
  proof (cases ?ok)
    case True
    with saved obtain s' where sv: "saves (ag_upsert agg) ps s (length ps) None s'"
      "catalogue env pview s' = Some (fold put_entry ps m)" "job_map jview s' = Some jm" by auto
    with for_each_save [OF sv(1), of 0 j] None True show ?thesis by (simp add: in_transaction_def)
  next
    case False
    with saved obtain n e s' where sv: "saves (ag_upsert agg) ps s n (Some e) s'" "dead s'" by auto
    with for_each_save [OF sv(1), of 0 j] None False show ?thesis by (simp add: in_transaction_def)
  qed
next
  case (Some tx)
  obtain s1 where s1: "tx_begin tx s = (Inr (), s1)" using tx_succeeds [OF Some, of s] by (metis prod.collapse)
  with tx_frame [OF Some, of s] have v1: "pview s1 = pview s" "jview s1 = jview s" by simp_all
  then have "catalogue env pview s1 = Some m" "pview s1 = Some S" "job_map jview s1 = Some jm"
    using assms(1-3) by (simp_all add: catalogue_def job_map_def)
  note saved = saves_page [OF this assms(4,5)]
  show ?thesis
  proof (cases ?ok)
    case True
    with saved obtain s2 where sv: "saves (ag_upsert agg) ps s1 (length ps) None s2"
      "catalogue env pview s2 = Some (fold put_entry ps m)" "job_map jview s2 = Some jm" by auto
    obtain s3 where s3: "tx_commit tx s2 = (Inr (), s3)" using tx_succeeds [OF Some, of s2] by (metis prod.collapse)
    with tx_frame [OF Some, of s2] have "pview s3 = pview s2" "jview s3 = jview s2" by simp_all
    then have "catalogue env pview s3 = Some (fold put_entry ps m)" "job_map jview s3 = Some jm"
      using sv(2,3) by (simp_all add: catalogue_def job_map_def)
    with for_each_save [OF sv(1), of 0 j] s1 s3 True show ?thesis
      by (simp add: in_transaction_def Some bindE_def on_world_def)
  next
    case False
    with saved obtain n e s2 where sv: "saves (ag_upsert agg) ps s1 n (Some e) s2" "dead s2" by auto
    then have "dead (tx_rollback tx s2)" using dead_world Some by (simp add: world_keeps_def)
    with for_each_save [OF sv(1), of 0 j] s1 False show ?thesis
      by (simp add: in_transaction_def Some bindE_def on_world_def)
  qed
qed

text \<open>The job of a dead session cannot be updated.\<close>

lemma dead_update: "dead s \<Longrightarrow> \<exists>e s'. jp_update (ag_jobs agg) j s = (Inl e, s') \<and> dead s'"
  using dead_get [of s "job_id j"]
  by (auto simp: jobs_is SQLAlchemyJobRepository_def job_update_def bindE_def)

lemma run_page:
  assumes m: "catalogue env pview s = Some m" "pview s = Some S" "job_map jview s = Some jm" and url: "has_url src"
    and fetch: "\<And>h t s. fst (ag_fetch agg (the (src_url src)) h t s) = Inr x"
    and parse: "\<And>s. fst (ag_parse agg (res_body x) (src_id src) s) = Inr parsed"
    and no_id: "\<And>p. p \<in> set (merge (map apply_norm parsed)) \<Longrightarrow> without_id p"
  defines "ps \<equiv> merge (map apply_norm parsed)"
  shows "if unknown m ps + (if blank S then 1 else 0) \<le> 1
    then \<exists>j s'. run_once agg src s = (Inr j, s') \<and> job_status j = SUCCESS \<and> items_fetched j = length ps \<and>
      items_saved j = length ps \<and> jm (job_id j) = None \<and> job_map jview s' = Some (jm(job_id j \<mapsto> naive_job j)) \<and>
      catalogue env pview s' = Some (fold put_entry ps m)
    else \<exists>e s'. run_once agg src s = (Inl e, s') \<and> dead s'"
    (is "if ?ok then _ else _")
proof -
  obtain jid s1 s2 where st: "ag_uuid4 agg s = (jid, s1)" "jm jid = None"
    "jp_add (ag_jobs agg) (new_job jid (src_id src) (ag_now agg s1)) s1 = (Inr (), s2)"
    "catalogue env pview s2 = Some m"
    "job_map jview s2 = Some (jm(jid \<mapsto> naive_job (new_job jid (src_id src) (ag_now agg s1))))"
    using crawl.started [OF m(1,3)] .
  let ?new = "new_job jid (src_id src) (ag_now agg s1)"
  let ?jm = "jm(jid \<mapsto> naive_job ?new)"
  have "pview s1 = pview s" "jview s1 = jview s" using world st(1) by (auto simp: world_keeps_def dest: spec [of _ s])
  moreover obtain J where "jview s = Some J" using m(3) by (auto elim: job_mapE)
  moreover have "jview s2 \<noteq> None" using st(5) by (auto elim: job_mapE)
  ultimately have p2: "pview s2 = Some S"
    using jb.job_add_shares [OF separate(2), of s1 J ?new s2] st(3) m(2)
    by (simp add: jobs_is SQLAlchemyJobRepository_def)
  obtain s3 where f: "ag_fetch agg (the (src_url src)) (headers_or_none src) 30 s2 = (Inr x, s3)"
    using fetch by (metis prod.collapse)
  obtain s4 where g: "ag_parse agg (res_body x) (src_id src) s3 = (Inr parsed, s4)"
    using parse by (metis prod.collapse)
  have "pview s3 = pview s2" "jview s3 = jview s2" "pview s4 = pview s3" "jview s4 = jview s3"
    using world f g by (simp_all add: world_keeps_def) (metis snd_conv)+
  then have v4: "catalogue env pview s4 = Some m" "pview s4 = Some S" "job_map jview s4 = Some ?jm"
    using st(4,5) p2 by (simp_all add: catalogue_def job_map_def)
  have dist: "distinct (map identity_key ps)" by (simp add: ps_def merge_keys)
  note saved = page_in_transaction [OF v4 dist no_id [folded ps_def], of ?new]
  have body: "run_body agg src \<lparr>run_world = s2, run_saved = 0, run_job = ?new\<rparr> =
      bindE (in_transaction (ag_session_factory agg) (for_each (save_one (ag_upsert agg)) ps))
        (\<lambda>_. run_succeeded agg (length ps)) \<lparr>run_world = s4, run_saved = 0, run_job = ?new\<rparr>"
    using url by (simp add: run_body_def bindE_def on_world_def f g Let_def ps_def)
  show ?thesis
  proof (cases ?ok)
    case True
    with saved obtain w where w: "in_transaction (ag_session_factory agg) (for_each (save_one (ag_upsert agg)) ps)
        \<lparr>run_world = s4, run_saved = 0, run_job = ?new\<rparr> =
          (Inr (), \<lparr>run_world = w, run_saved = length ps, run_job = ?new\<rparr>)"
      "catalogue env pview w = Some (fold put_entry ps m)" "job_map jview w = Some ?jm" by auto
    let ?j = "?new\<lparr>job_status := SUCCESS, items_fetched := length ps, items_saved := length ps,
        job_finished_at := Some (ag_now agg w)\<rparr>"
    have "?jm (job_id ?j) = Some (naive_job ?new)" by simp
    moreover have "same_job (naive_job ?new) ?j" by (simp add: same_job_def naive_job_def)
    moreover have "job_ok ?j" by (simp add: job_ok_def)
    ultimately obtain s6 where u: "jp_update (ag_jobs agg) ?j w = (Inr (), s6)"
        "job_map jview s6 = Some (?jm(job_id ?j \<mapsto> naive_job ?j))" using crawl.update_job [OF w(3)] by blast
    have c6: "catalogue env pview s6 = Some (fold put_entry ps m)" using crawl.jobs_keep(2) [OF w(3) u] w(2) by simp
    have "run_body agg src \<lparr>run_world = s2, run_saved = 0, run_job = ?new\<rparr> =
        (Inr (), \<lparr>run_world = s6, run_saved = length ps, run_job = ?j\<rparr>)"
      using u(1) unfolding body by (simp add: bindE_def w(1) run_succeeded_def on_world_def Let_def)
    from run_once_succeeds [OF st(1,3) this] have "run_once agg src s = (Inr ?j, s6)" by simp
    moreover have "job_map jview s6 = Some (jm(job_id ?j \<mapsto> naive_job ?j))" using u(2) by simp
    ultimately show ?thesis using True c6 st(2) by simp
  next
    case False
    with saved obtain e r where r: "in_transaction (ag_session_factory agg) (for_each (save_one (ag_upsert agg)) ps)
        \<lparr>run_world = s4, run_saved = 0, run_job = ?new\<rparr> = (Inl e, r)" "dead (run_world r)" by auto
    then have "run_body agg src \<lparr>run_world = s2, run_saved = 0, run_job = ?new\<rparr> = (Inl e, r)"
      unfolding body by (simp add: bindE_def)
    note fails = run_once_fails [OF st(1,3) this]
    obtain e' s' where "jp_update (ag_jobs agg)
        ((run_job r)\<lparr>job_status := (if run_saved r > 0 then PARTIAL_FAILURE else FAILED),
           job_error := Some (take 1000 (exn_str e)), job_finished_at := Some (ag_now agg (run_world r)),
           items_saved := run_saved r\<rparr>) (run_world r) = (Inl e', s')" "dead s'"
      using dead_update [OF r(2)] by blast
    with fails False show ?thesis by simp
  qed
qed

end

section \<open>The two tables in one in-memory session\<close>

type_synonym shared_crawl = "(program_row, job_row) shared"

abbreviation crawl_tabs :: "shared_crawl \<Rightarrow> program_row list option \<times> job_row list option" where
  "crawl_tabs \<equiv> tables_of program_clash program_store job_clash job_store"

abbreviation shared_programs :: "(shared_crawl, program_row) session_api" where
  "shared_programs \<equiv> on_shared crawl_tabs (on_fst mem_programs)"

abbreviation shared_jobs :: "(shared_crawl, job_row) session_api" where
  "shared_jobs \<equiv> on_shared crawl_tabs (on_snd mem_jobs)"

lemma mem_flush_broken:
  "mem_view clash store s = None \<Longrightarrow>
     \<exists>e s'. flush (mem_session pk clash store) s = (Inl e, s') \<and> exc e = IntegrityError \<and> mem_view clash store s' = None"
  by (auto simp: mem_session_def bindE_def mem_flush_def mem_view_def)

lemma mem_flush_broken_fst:
  assumes "mem_view clash store (fst t) = None"
  shows "\<exists>e t'. flush (on_fst (mem_session pk clash store)) t = (Inl e, t') \<and> exc e = IntegrityError \<and>
    mem_view clash store (fst t') = None"
  using mem_flush_broken [OF assms, of pk] by (cases t) (auto simp: on_fst_def)

lemma mem_flush_broken_snd:
  assumes "mem_view clash store (snd t) = None"
  shows "\<exists>e t'. flush (on_snd (mem_session pk clash store)) t = (Inl e, t') \<and> exc e = IntegrityError \<and>
    mem_view clash store (snd t') = None"
  using mem_flush_broken [OF assms, of pk] by (cases t) (auto simp: on_snd_def)

lemma tables_of_alive:
  "mem_view c1 st1 (fst t) \<noteq> None \<Longrightarrow> mem_view c2 st2 (snd t) \<noteq> None \<Longrightarrow>
     tables_of c1 st1 c2 st2 (shared_of t) = t"
  by (cases t) (auto simp: tables_of_def mem_view_eq_Some)

lemma tables_of_views:
  "mem_view c1 st1 (fst (tables_of c1 st1 c2 st2 s)) = None \<longleftrightarrow> mem_view c2 st2 (snd (tables_of c1 st1 c2 st2 s)) = None"
  by (auto simp: tables_of_def mem_view_def mem_rows_def split: option.splits)

lemma tables_of_dead:
  assumes "mem_view c1 st1 (fst t) = None \<or> mem_view c2 st2 (snd t) = None"
  shows "mem_view c1 st1 (fst (tables_of c1 st1 c2 st2 (shared_of t))) = None"
    "mem_view c2 st2 (snd (tables_of c1 st1 c2 st2 (shared_of t))) = None"
  using assms
  by (cases "fst t"; cases "snd t"; cases t; auto simp: tables_of_def mem_view_def mem_rows_def split: if_splits)+

interpretation shared_prog: shared_pair crawl_tabs
  "\<lambda>t. mem_programs_view (fst t)" "\<lambda>t. mem_jobs_view (snd t)"
  by unfold_locales (simp_all add: tables_of_views tables_of_alive tables_of_dead)

interpretation shared_job: shared_pair crawl_tabs
  "\<lambda>t. mem_jobs_view (snd t)" "\<lambda>t. mem_programs_view (fst t)"
  by unfold_locales (auto simp: tables_of_views tables_of_alive tables_of_dead)

definition shared_aggregator :: "parse_env \<Rightarrow> shared_crawl transaction option \<Rightarrow> shared_crawl aggregator" where
  "shared_aggregator penv factory =
     sql_aggregator shared_programs shared_jobs demo_env (\<lambda>_. sample_time)
       (\<lambda>u h t s. (Inr \<lparr>res_url = u, res_status_code = 200, res_body = ''page'', res_headers = [],
                         res_elapsed_ms = 1\<rparr>, s))
       (\<lambda>b i. pure_eff (json_parse penv i b)) (\<lambda>s. (fst (demo_uuid4 (crawl_tabs s)), s)) factory"

interpretation shared_crawl: one_session
  shared_programs "\<lambda>s. mem_programs_view (fst (crawl_tabs s))" shared_jobs "\<lambda>s. mem_jobs_view (snd (crawl_tabs s))"
  demo_env "\<lambda>_. sample_time" "shared_aggregator penv None" "\<lambda>s. s = None" for penv
proof (intro one_session.intro crawl_tables.intro crawl_tables_axioms.intro one_session_axioms.intro)
  note progs = sql_session_on_fst [OF program_table.mem.sql_session_axioms]
  note jbs = sql_session_on_snd [OF job_table.mem.sql_session_axioms]
  note pframe = session_frame_on_fst [where v = mem_jobs_view and api = mem_programs]
  note jframe = session_frame_on_snd [where v = mem_programs_view and api = mem_jobs]
  show "program_session shared_programs (\<lambda>s. mem_programs_view (fst (crawl_tabs s)))"
    unfolding program_session_def
    by (rule shared_prog.shared_session [OF progs pframe]) (rule mem_flush_broken_fst)
  show "job_session shared_jobs (\<lambda>s. mem_jobs_view (snd (crawl_tabs s)))"
    unfolding job_session_def
    by (rule shared_job.shared_session [OF jbs jframe]) (rule mem_flush_broken_snd)
  show "shares_session shared_programs (\<lambda>s. mem_programs_view (fst (crawl_tabs s))) (\<lambda>s. mem_jobs_view (snd (crawl_tabs s)))"
    by (rule shared_prog.shared_shares [OF progs pframe])
  show "shares_session shared_jobs (\<lambda>s. mem_jobs_view (snd (crawl_tabs s))) (\<lambda>s. mem_programs_view (fst (crawl_tabs s)))"
    by (rule shared_job.shared_shares [OF jbs jframe])
  show "jm (fst (ag_uuid4 (shared_aggregator penv None) s)) = None"
    if "job_map (\<lambda>s. mem_jobs_view (snd (crawl_tabs s))) s = Some jm" for s jm
    using demo_uuid4_fresh [of "crawl_tabs s" jm] that by (simp add: shared_aggregator_def job_map_def)
  show "(snd (flush shared_programs (add_row shared_programs r s))) = None"
    if v: "mem_programs_view (fst (crawl_tabs s)) = Some S" "r' \<in> S" "program_clash r r'" for s S r r'
  proof -
    obtain rs b where rs: "crawl_tabs s = (Some rs, b)" "mem_ok program_clash program_store rs" "set rs = S"
      using v(1) by (cases "crawl_tabs s") (auto simp: mem_view_eq_Some)
    then have "add_row shared_programs r s = None"
      using v(2,3) by (auto simp: on_shared_def on_fst_def mem_session_def mem_rows_def list_ex_iff)
    then show ?thesis by (simp add: on_shared_def on_fst_def mem_session_def bindE_def mem_flush_def mem_rows_def tables_of_def)
  qed
qed (auto simp: shared_aggregator_def world_keeps_def on_shared_def tables_of_def on_snd_def mem_session_def
    bindE_def mem_flush_def mem_rows_def mem_view_def)

section \<open>Properties\<close>

text \<open>The programmes of a parsed page stay valid through normalisation and merging.\<close>

lemma normalized_ok:
  assumes "program_ok p" "stripped (title p)"
  shows "program_ok (apply_norm p)"
proof -
  have t: "title p \<noteq> []" "length (title p) \<le> 512" using assms(1) by (auto simp: program_ok_def str_between_def)
  have "\<not> py_space (hd (title p))" using assms(2) t(1) by (simp add: stripped_def)
  then have "normalize_title (title p) \<noteq> []" using t(1) by (auto simp: normalize_title_eq_Nil_iff)
  moreover have "length (normalize_title (title p)) \<le> 512" using normalize_title_length [of "title p"] t(2) by linarith
  ultimately show ?thesis by (simp add: program_ok_def str_between_def apply_norm_def Suc_le_eq)
qed

lemma merged_without_id:
  assumes "\<And>p. p \<in> set ps \<Longrightarrow> without_id p" "q \<in> set (merge ps)"
  shows "without_id q"
proof -
  obtain items where items: "items \<noteq> []" "q = merge_group items" "set items = {p \<in> set ps. identity_key p = identity_key q}"
    using merge_member [OF assms(2)] by metis
  then have "hd items \<in> set ps" using hd_in_set [OF items(1)] by auto
  with assms(1) have "without_id (hd items)" .
  then show ?thesis by (simp add: items(2) merge_group_def Let_def without_id_def program_ok_def)
qed

lemma page_without_id:
  assumes "json_parse penv sid content = Inr parsed" "q \<in> set (merge (map apply_norm parsed))"
  shows "without_id q"
proof (rule merged_without_id [OF _ assms(2)])
  fix p assume "p \<in> set (map apply_norm parsed)"
  then obtain x where x: "x \<in> set parsed" "p = apply_norm x" by auto
  from assms(1) obtain data where
      "parse_root ''json root must be list or {items:[]}'' (json_item penv sid) data = Inr parsed"
    by (auto simp: json_parse_def split: sum.splits)
  then have "\<forall>p \<in> set parsed. parsed_program penv sid p" by (rule parse_root_Inr) (rule json_item_Inr)
  with x(1) have "parsed_program penv sid x" by blast
  then show "without_id p"
    using normalized_ok [of x] by (simp add: x(2) without_id_def parsed_program_def) (simp add: apply_norm_def)
qed

lemma unknown_merge:
  "unknown m (merge (map apply_norm ps)) = card {k \<in> identity_key ` set ps. m k = None}"
proof -
  let ?qs = "merge (map apply_norm ps)"
  have d: "distinct (map identity_key ?qs)" by (simp add: merge_keys)
  have keys: "identity_key ` set ?qs = identity_key ` set ps"
    using arg_cong [OF merge_keys [of "map apply_norm ps"], of set] by (simp add: apply_norm_def image_image)
  let ?fs = "filter (\<lambda>p. m (identity_key p) = None) ?qs"
  have "distinct (map identity_key ?fs)" using d by (rule distinct_map_filter)
  then have "unknown m ?qs = card (set (map identity_key ?fs))"
    using distinct_card [of "map identity_key ?fs"] by (simp add: unknown_def)
  also have "set (map identity_key ?fs) = {k \<in> identity_key ` set ?qs. m k = None}" by auto
  finally show ?thesis by (simp only: keys)
qed

text \<open>
  C1: the outcome of a crawl.  On the repositories of one session, for a source whose page can be
  fetched and parsed, \<open>run_once\<close> succeeds exactly when the page brings at most one programme the
  catalogue does not know, and none if the table already has a row without an id.  Then the job
  is \<open>SUCCESS\<close> and counts every distinct key, exactly this job is added to the job table, and the
  catalogue is the old one with the merged programmes put in one after the other.  Otherwise,
  in particular when a source with two programmes is crawled for the first time, it raises and
  leaves the session dead: neither the programmes nor the job, not even a failed one, can be
  committed.
\<close>

theorem crawl_outcome:
  assumes "one_session papi pview japi jview env now agg dead"
    and "catalogue env pview s = Some m" and "pview s = Some S" and "job_map jview s = Some jm"
    and "has_url src" and "\<And>h t s. fst (ag_fetch agg (the (src_url src)) h t s) = Inr x"
    and "ag_parse agg = (\<lambda>b i. pure_eff (json_parse penv i b))" and "json_parse penv (src_id src) (res_body x) = Inr parsed"
  shows "if card {k \<in> identity_key ` set parsed. m k = None} + (if blank S then 1 else 0) \<le> 1
    then \<exists>j s'. run_once agg src s = (Inr j, s') \<and> job_status j = SUCCESS \<and>
      items_fetched j = card (identity_key ` set parsed) \<and> items_saved j = card (identity_key ` set parsed) \<and>
      jm (job_id j) = None \<and> job_map jview s' = Some (jm(job_id j \<mapsto> naive_job j)) \<and>
      catalogue env pview s' = Some (fold put_entry (merge (map apply_norm parsed)) m)
    else \<exists>e s'. run_once agg src s = (Inl e, s') \<and> dead s' \<and> pview s' = None \<and> jview s' = None"
proof -
  let ?ps = "merge (map apply_norm parsed)"
  have keys: "identity_key ` set ?ps = identity_key ` set parsed"
    using arg_cong [OF merge_keys [of "map apply_norm parsed"], of set] by (simp add: apply_norm_def image_image)
  have "distinct (map identity_key ?ps)" by (simp add: merge_keys)
  then have len: "length ?ps = card (identity_key ` set parsed)"
    using distinct_card [of "map identity_key ?ps"] keys by simp
  have parse: "fst (ag_parse agg (res_body x) (src_id src) s) = Inr parsed" for s
    by (simp add: assms(7,8) pure_eff_def)
  note run = one_session.run_page [OF assms(1-6) parse page_without_id [OF assms(8)], unfolded unknown_merge len]
  show ?thesis
  proof (cases "card {k \<in> identity_key ` set parsed. m k = None} + (if blank S then 1 else 0) \<le> 1")
    case True
    with run show ?thesis by simp
  next
    case False
    with run obtain e s' where "run_once agg src s = (Inl e, s')" "dead s'" by auto
    with one_session.dead_views [OF assms(1), of s'] False show ?thesis by auto
  qed
qed

definition page_of :: "string list \<Rightarrow> parse_env" where
  "page_of titles = demo_parse_env (JList (map (\<lambda>t. JObj [(''title'', JStr t), (''start'', JStr ''1970''),
     (''end'', JStr ''1970''), (''channel'', JStr ''One'')]) titles))"

theorem crawl_outcome_witness:
  "(\<exists>j s'. run_once (shared_aggregator (page_of [''News'']) None) (sample_source ''b'') (Some ([], [])) = (Inr j, s') \<and>
      job_status j = SUCCESS \<and> items_saved j = 1) \<and>
   (\<exists>e. run_once (shared_aggregator (page_of [''News'', ''Film'']) None) (sample_source ''b'') (Some ([], [])) = (Inl e, None))"
proof -
  let ?s = "Some ([], []) :: shared_crawl"
  have tabs: "crawl_tabs ?s = (Some [], Some [])" by (simp add: tables_of_def mem_ok_def)
  have v: "mem_programs_view (fst (crawl_tabs ?s)) = Some {}" by (simp add: tabs mem_view_eq_Some mem_ok_def)
  have c: "catalogue demo_env (\<lambda>s. mem_programs_view (fst (crawl_tabs s))) ?s = Some Map.empty"
    by (simp add: catalogue_def v)
  have j: "job_map (\<lambda>s. mem_jobs_view (snd (crawl_tabs s))) ?s = Some Map.empty"
    by (simp add: job_map_def tabs mem_view_def mem_rows_def mem_ok_def)
  have url: "has_url (sample_source ''b'')" by (simp add: has_url_def)
  let ?x = "\<lparr>res_url = the (src_url (sample_source ''b'')), res_status_code = 200, res_body = ''page'', res_headers = [],
      res_elapsed_ms = 1\<rparr>"
  have f: "fst (ag_fetch (shared_aggregator penv None) (the (src_url (sample_source ''b''))) h t s) = Inr ?x" for penv h t s
    by (simp add: shared_aggregator_def)
  have pa: "ag_parse (shared_aggregator penv None) = (\<lambda>b i. pure_eff (json_parse penv i b))" for penv
    by (simp add: shared_aggregator_def)
  have "case json_parse (page_of [''News'']) ''b'' ''page'' of Inl _ \<Rightarrow> False | Inr ps \<Rightarrow> length ps = 1" by code_simp
  then obtain p where one: "json_parse (page_of [''News'']) ''b'' ''page'' = Inr [p]"
    by (auto simp: length_Suc_conv split: sum.splits)
  have "case json_parse (page_of [''News'', ''Film'']) ''b'' ''page'' of Inl _ \<Rightarrow> False
      | Inr ps \<Rightarrow> length ps = 2 \<and> distinct (map identity_key ps)" by code_simp
  then obtain q r where two: "json_parse (page_of [''News'', ''Film'']) ''b'' ''page'' = Inr [q, r]"
      "identity_key q \<noteq> identity_key r"
    by (auto simp: length_Suc_conv numeral_2_eq_2 split: sum.splits)
  note run = crawl_outcome [OF shared_crawl.one_session_axioms c v j url f pa]
  have k1: "card {k \<in> identity_key ` set [p]. Map.empty k = None} = 1" by simp
  have k2: "{k \<in> identity_key ` set [q, r]. Map.empty k = None} = {identity_key q, identity_key r}" by auto
  have "\<exists>j s'. run_once (shared_aggregator (page_of [''News'']) None) (sample_source ''b'') ?s = (Inr j, s') \<and>
      job_status j = SUCCESS \<and> items_saved j = 1"
    using run [of "page_of [''News'']" "[p]"] one unfolding k1 by (auto simp: blank_def)
  moreover have "\<exists>e. run_once (shared_aggregator (page_of [''News'', ''Film'']) None) (sample_source ''b'') ?s = (Inl e, None)"
    using run [of "page_of [''News'', ''Film'']" "[q, r]"] two unfolding k2 by auto
  ultimately show ?thesis by blast
qed

end
