(* ===== verification/Deployment.thy ===== *)
theory Deployment
  imports Schema Startup
begin

text \<open>
  How the database gets its tables over the life of a deployment: \<open>alembic/env.py\<close>, which every
  migration command runs, the part of the lifespan of \<open>interfaces/api/app.py\<close> that calls it, and
  what a sequence of starts does to the schema and to the version alembic records in it.
  Alembic itself, its configuration object and the database connection are parameters.
\<close>

section \<open>The migration environment\<close>

text \<open>
  What \<open>env.py\<close> asks of alembic: \<open>'e\<close> are engines, \<open>'c\<close> connections.  The option is
  \<open>sqlalchemy.url\<close> of the main section; \<open>al_transaction\<close> is
  \<open>with context.begin_transaction()\<close> around a body.
\<close>

datatype 'c target = Url "string option" | Connection 'c

record ('s, 'e, 'c) alembic =
  al_store_option :: "string \<Rightarrow> ('s, unit) eff"
  al_main_option :: "('s, string option) eff"
  al_config_file :: "string option"
  al_file_config :: "string \<Rightarrow> ('s, unit) eff"
  al_offline :: bool
  al_engine_from_config :: "('s, 'e) eff"
  al_connect :: "'e \<Rightarrow> ('s, 'c) eff"
  al_close :: "'c \<Rightarrow> 's \<Rightarrow> 's"
  al_dispose :: "'e \<Rightarrow> ('s, unit) eff"
  al_configure :: "'c target \<Rightarrow> ('s, unit) eff"
  al_transaction :: "('s, unit) eff \<Rightarrow> ('s, unit) eff"
  al_run_migrations :: "('s, unit) eff"

text \<open>
  \<open>config.set_main_option\<close> stores the value through a \<open>ConfigParser\<close>, whose interpolation
  allows a percent sign only doubled or in a reference \<open>%(name)s\<close>.
\<close>

fun drop_reference :: "string \<Rightarrow> string option" where
  "drop_reference [] = None"
| "drop_reference (c # cs) = (if c = CHR '')'' then (case cs of d # ds \<Rightarrow> if d = CHR ''s'' then Some ds else None | [] \<Rightarrow> None)
                              else drop_reference cs)"

lemma drop_reference_shorter: "drop_reference s = Some t \<Longrightarrow> length t < length s"
  by (induction s) (auto split: if_splits list.splits)

function remove_references :: "string \<Rightarrow> string" where
  "remove_references [] = []"
| "remove_references (c # cs) =
     (case (if c = CHR ''%'' \<and> (case cs of a # b # _ \<Rightarrow> a = CHR ''('' \<and> b \<noteq> CHR '')'' | _ \<Rightarrow> False)
            then drop_reference (tl cs) else None) of
        Some ds \<Rightarrow> remove_references ds
      | None \<Rightarrow> c # remove_references cs)"
  by pat_completeness auto
termination
  by (relation "measure length") (auto dest!: drop_reference_shorter split: if_splits list.splits)

definition before_set :: "string \<Rightarrow> exn + unit" where
  "before_set value =
     (if CHR ''%'' \<in> set (remove_references (replace_all ''%%'' [] value))
      then Inl (Exn ValueError ''invalid interpolation syntax'') else Inr ())"

definition set_main_option :: "('s, 'e, 'c) alembic \<Rightarrow> string \<Rightarrow> ('s, unit) eff" where
  "set_main_option al url = bindE (pure_eff (before_set url)) (\<lambda>_. al_store_option al url)"

text \<open>The top of the module: a variable that is set and not empty wins over the configuration.\<close>

definition load_config :: "string option \<Rightarrow> ('s, 'e, 'c) alembic \<Rightarrow> ('s, unit) eff" where
  "load_config db_url al =
     bindE (case db_url of None \<Rightarrow> ret () | Some url \<Rightarrow> if url = [] then ret () else set_main_option al url) (\<lambda>_.
       case al_config_file al of None \<Rightarrow> ret () | Some f \<Rightarrow> al_file_config al f)"

definition run_migrations_offline :: "('s, 'e, 'c) alembic \<Rightarrow> ('s, unit) eff" where
  "run_migrations_offline al =
     bindE (al_main_option al) (\<lambda>url.
     bindE (al_configure al (Url url)) (\<lambda>_.
       al_transaction al (al_run_migrations al)))"

definition do_run_migrations :: "('s, 'e, 'c) alembic \<Rightarrow> 'c \<Rightarrow> ('s, unit) eff" where
  "do_run_migrations al connection =
     bindE (al_configure al (Connection connection)) (\<lambda>_. al_transaction al (al_run_migrations al))"

text \<open>The engine is disposed of only when nothing raised; the connection is always closed.\<close>

definition run_async_migrations :: "('s, 'e, 'c) alembic \<Rightarrow> ('s, unit) eff" where
  "run_async_migrations al =
     bindE (al_engine_from_config al) (\<lambda>connectable.
     bindE (bindE (al_connect al connectable) (\<lambda>connection s.
              case do_run_migrations al connection s of (x, s') \<Rightarrow> (x, al_close al connection s'))) (\<lambda>_.
       al_dispose al connectable))"

definition run_migrations_online :: "('s, 'e, 'c) alembic \<Rightarrow> ('s, unit) eff" where
  "run_migrations_online al = run_async_migrations al"

definition env_module :: "string option \<Rightarrow> ('s, 'e, 'c) alembic \<Rightarrow> ('s, unit) eff" where
  "env_module db_url al =
     bindE (load_config db_url al) (\<lambda>_.
       if al_offline al then run_migrations_offline al else run_migrations_online al)"

text \<open>
  \<open>_run_alembic_upgrade\<close> has \<open>alembic upgrade head\<close> run the environment in a worker thread; the
  lifespan first puts its own database URL into the configuration.
\<close>

definition run_alembic_upgrade :: "string option \<Rightarrow> ('s, 'e, 'c) alembic \<Rightarrow> ('s, unit) eff" where
  "run_alembic_upgrade db_url al = env_module db_url al"

definition lifespan_migration :: "string option \<Rightarrow> ('s, 'e, 'c) alembic \<Rightarrow> settings \<Rightarrow> ('s, unit) eff" where
  "lifespan_migration db_url al st =
     bindE (set_main_option al (database_url st)) (\<lambda>_. run_alembic_upgrade db_url al)"

section \<open>The tables and the recorded version\<close>

text \<open>The database's schema, and the revision in its \<open>alembic_version\<close> table.\<close>

type_synonym database = "schema \<times> string option"

definition revision :: string where
  "revision = ''197491bccd3f''"

text \<open>
  \<open>upgrade head\<close> with the one revision there is: nothing at the head, else the operations of the
  migration and the new version; a version the directory does not know cannot be upgraded.
\<close>

definition migrate :: "database \<Rightarrow> database option" where
  "migrate d =
     (case snd d of
        None \<Rightarrow> (case apply_ops upgrade (fst d) of Inl e \<Rightarrow> None | Inr sc \<Rightarrow> Some (sc, Some revision))
      | Some v \<Rightarrow> if v = revision then Some d else None)"

text \<open>\<open>create_all\<close>, which makes only the tables that are not there, with their indexes.\<close>

definition create_missing :: "schema \<Rightarrow> schema \<Rightarrow> schema" where
  "create_missing m sc =
     (let new = filter (\<lambda>t. find_table (tab_name t) sc = None) (sc_tables m)
      in \<lparr>sc_tables = sc_tables sc @ new,
          sc_indexes = sc_indexes sc @ filter (\<lambda>i. ix_table i \<in> set (map tab_name new)) (sc_indexes m)\<rparr>)"

definition bootstrapped :: schema where
  "bootstrapped = create_missing metadata empty_schema"

lemma bootstrapped_metadata: "bootstrapped = metadata"
  by code_simp

lemma create_missing_again:
  "create_missing metadata created = created" "create_missing metadata metadata = metadata"
  by code_simp+

lemma migrate_empty: "migrate (empty_schema, None) = Some (created, Some revision)"
  by (simp add: migrate_def upgrade_empty)

lemma migrate_bootstrapped: "migrate (metadata, None) = None"
proof -
  have "find_table ''jobs'' metadata \<noteq> None" by code_simp
  then show ?thesis by (simp add: migrate_def upgrade_def op_error_def)
qed

lemma migrate_created: "migrate (created, Some revision) = Some (created, Some revision)"
  by (simp add: migrate_def)

section \<open>What alembic and the engine promise\<close>

text \<open>
  A database with transactional DDL, as PostgreSQL: a block of \<open>begin_transaction\<close> that raises
  leaves the database as it was, one that ends has done what its body did; nothing but
  \<open>run_migrations\<close> changes tables or version; and migrations that end have migrated.
\<close>

locale migration_tool =
  fixes al :: "('s, 'e, 'c) alembic" and db :: "'s \<Rightarrow> database"
  assumes online: "\<not> al_offline al"
    and store: "db (snd (al_store_option al url s)) = db s"
    and file_config: "db (snd (al_file_config al f s)) = db s"
    and engine: "db (snd (al_engine_from_config al s)) = db s"
    and connect: "db (snd (al_connect al e s)) = db s"
    and close: "db (al_close al c s) = db s"
    and dispose: "db (snd (al_dispose al e s)) = db s"
    and configure: "db (snd (al_configure al tgt s)) = db s"
    and rolled_back: "al_transaction al m s = (Inl x, s') \<Longrightarrow> db s' = db s"
    and committed: "al_transaction al m s = (Inr (), s') \<Longrightarrow> \<exists>t t'. db t = db s \<and> m t = (Inr (), t') \<and> db t' = db s'"
    and run: "al_run_migrations al s = (Inr (), s') \<Longrightarrow> migrate (db s) = Some (db s')"
begin

lemma set_option: "db (snd (set_main_option al url s)) = db s"
  by (cases "before_set url") (simp_all add: set_main_option_def bindE_def pure_eff_def store)

lemma config: "db (snd (load_config db_url al s)) = db s"
  unfolding load_config_def
  by (rule snd_bindE) (simp_all add: set_option file_config split: option.splits)

text \<open>A migration either raises with the database as it was, or brings it to the head.\<close>

lemma transaction:
  "al_transaction al (al_run_migrations al) s = (Inl x, s') \<Longrightarrow> db s' = db s"
  "al_transaction al (al_run_migrations al) s = (Inr (), s') \<Longrightarrow> migrate (db s) = Some (db s')"
proof -
  assume "al_transaction al (al_run_migrations al) s = (Inr (), s')"
  from committed [OF this] show "migrate (db s) = Some (db s')" using run by metis
qed (rule rolled_back)

lemma do_run:
  "do_run_migrations al c s = (Inl x, s') \<Longrightarrow> db s' = db s"
  "do_run_migrations al c s = (Inr (), s') \<Longrightarrow> migrate (db s) = Some (db s')"
proof -
  obtain r t where r: "al_configure al (Connection c) s = (r, t)" by force
  then have t: "db t = db s" using configure [of "Connection c" s] by simp
  show "do_run_migrations al c s = (Inl x, s') \<Longrightarrow> db s' = db s"
    using r t transaction(1) [of t x s'] by (cases r) (auto simp: do_run_migrations_def bindE_def)
  show "do_run_migrations al c s = (Inr (), s') \<Longrightarrow> migrate (db s) = Some (db s')"
    using r t transaction(2) [of t s'] by (cases r) (auto simp: do_run_migrations_def bindE_def)
qed

lemma outcome:
  assumes "lifespan_migration db_url al st s = (x, s')"
  shows "db s' = db s \<and> (\<exists>e. x = Inl e) \<or> migrate (db s) = Some (db s')"
proof -
  obtain r1 s1 where 1: "set_main_option al (database_url st) s = (r1, s1)" "db s1 = db s"
    using set_option [of "database_url st" s] by (metis prod.exhaust_sel)
  obtain r2 s2 where 2: "load_config db_url al s1 = (r2, s2)" "db s2 = db s1"
    using config [of db_url s1] by (metis prod.exhaust_sel)
  obtain r3 s3 where 3: "al_engine_from_config al s2 = (r3, s3)" "db s3 = db s2"
    using engine [of s2] by (metis prod.exhaust_sel)
  note steps = lifespan_migration_def run_alembic_upgrade_def env_module_def run_migrations_online_def run_async_migrations_def bindE_def online
  show ?thesis
  proof (cases "\<exists>u1 u2 c. r1 = Inr u1 \<and> r2 = Inr u2 \<and> r3 = Inr c")
    case False
    with assms 1 2 3 show ?thesis by (cases r1; cases r2; cases r3) (auto simp: steps)
  next
    case True
    then obtain c where r: "r1 = Inr ()" "r2 = Inr ()" "r3 = Inr c" by auto
    obtain r4 s4 where 4: "al_connect al c s3 = (r4, s4)" "db s4 = db s3"
      using connect [of c s3] by (metis prod.exhaust_sel)
    show ?thesis
    proof (cases r4)
      case (Inl e)
      with assms 1 2 3 4 r show ?thesis by (auto simp: steps)
    next
      case k: (Inr k)
      obtain r5 s5 where 5: "do_run_migrations al k s4 = (r5, s5)" by force
      show ?thesis
      proof (cases r5)
        case (Inl e)
        with do_run(1) 5 have "db s5 = db s4" by metis
        with assms 1 2 3 4 5 r k Inl close show ?thesis by (auto simp: steps)
      next
        case (Inr u)
        with do_run(2) 5 have m: "migrate (db s4) = Some (db s5)" by simp
        have "s' = snd (al_dispose al c (al_close al k s5))"
          using assms 1 2 3 4 5 r k Inr by (simp add: steps)
        with m 1(2) 2(2) 3(2) 4(2) show ?thesis by (simp add: dispose close)
      qed
    qed
  qed
qed

end

section \<open>A sequence of starts\<close>

definition auto_migrates :: "('s, 't, 'o) lifespan_env \<Rightarrow> bool" where
  "auto_migrates env \<longleftrightarrow> le_auto_migrate env = Some ''1''"

definition bootstraps :: "settings \<Rightarrow> ('s, 't, 'o) lifespan_env \<Rightarrow> bool" where
  "bootstraps st env \<longleftrightarrow> le_bootstrap_schema env = Some ''1'' \<or> le_bootstrap_schema env = None \<and> \<not> is_production st"

text \<open>
  One start of the application on such a database: \<open>create_all\<close> runs in a transaction of its own,
  and the other steps work on rows, not on tables.
\<close>

locale deployed_app = migration_tool al db
  for al :: "('s, 'e, 'c) alembic" and db :: "'s \<Rightarrow> database" +
  fixes db_url :: "string option" and st :: settings and env :: "('s, 't, 'o) lifespan_env"
  assumes upgrade: "le_upgrade env = lifespan_migration db_url al st"
    and create_all: "le_create_all env s = (Inr (), s') \<Longrightarrow> db s' = (create_missing metadata (fst (db s)), snd (db s))"
    and create_all_raised: "le_create_all env s = (Inl x, s') \<Longrightarrow> db s' = db s"
    and observing: "db (snd (start_observing st env s)) = db s"
    and app_engine: "db (snd (le_engine env s)) = db s"
    and users: "db (snd (seed_users_step st env s)) = db s"
    and seeds: "db (snd (seed_if_empty (le_life env) (le_seed_db env) (le_seed_env env) s)) = db s"
    and schedule: "db (snd (schedule_health_check env s)) = db s"
    and scheduler: "db (snd (start_scheduler (le_scheduler env) s)) = db s"
begin

lemma migrated: "db (snd (auto_migrate env s)) = db s \<or> auto_migrates env \<and> migrate (db s) = Some (db (snd (auto_migrate env s)))"
  using outcome [of db_url st s "fst (le_upgrade env s)" "snd (le_upgrade env s)"]
  by (auto simp: logged_steps auto_migrates_def upgrade)

lemma created_all:
  "db (snd (bootstrap_schema st env s)) = db s \<or>
   bootstraps st env \<and> db (snd (bootstrap_schema st env s)) = (create_missing metadata (fst (db s)), snd (db s))"
  using create_all [of s "snd (le_create_all env s)"] create_all_raised [of s _ "snd (le_create_all env s)"]
  by (cases rule: eff_cases [of "le_create_all env s"]) (simp_all add: logged_steps bootstraps_def)

lemma auto_seeded: "db (snd (auto_seed st env s)) = db s"
  by (simp add: logged_steps seeds)

lemma rest:
  "db (snd (bindE (seed_users_step st env) (\<lambda>_. bindE (auto_seed st env) (\<lambda>_. bindE (schedule_health_check env) (\<lambda>_.
     start_scheduler (le_scheduler env)))) s)) = db s"
  by (intro snd_bindE users auto_seeded schedule scheduler)

lemma started:
  assumes "start_observing st env s = (Inr u, s1)" and "le_engine env (snd (auto_migrate env s1)) = (Inr v, s3)"
  shows "db (snd (startup st env s)) = db (snd (bootstrap_schema st env s3))"
proof -
  have "snd (startup st env s) = snd (bindE (seed_users_step st env) (\<lambda>_. bindE (auto_seed st env) (\<lambda>_.
      bindE (schedule_health_check env) (\<lambda>_. start_scheduler (le_scheduler env)))) (snd (bootstrap_schema st env s3)))"
    using assms
    by (simp add: startup_def bindE_def [of "start_observing st env"] bindE_def [of "auto_migrate env"]
        bindE_def [of "le_engine env"] bindE_def [of "bootstrap_schema st env"] logged_steps(1,2))
  then show ?thesis using rest by metis
qed

text \<open>What a whole start may do to tables and version, however it ends.\<close>

lemma start:
  "\<exists>d. (d = db s \<or> auto_migrates env \<and> migrate (db s) = Some d) \<and>
     (db (snd (startup st env s)) = d \<or>
      bootstraps st env \<and> db (snd (startup st env s)) = (create_missing metadata (fst d), snd d))"
proof -
  obtain r1 s1 where 1: "start_observing st env s = (r1, s1)" "db s1 = db s"
    using observing [of s] by (metis prod.exhaust_sel)
  show ?thesis
  proof (cases r1)
    case (Inl e)
    with 1 have "db (snd (startup st env s)) = db s" by (simp add: startup_def bindE_def)
    then show ?thesis by blast
  next
    case begun: (Inr u)
    define s2 where "s2 = snd (auto_migrate env s1)"
    have 2: "db s2 = db s \<or> auto_migrates env \<and> migrate (db s) = Some (db s2)"
      using migrated [of s1] unfolding s2_def 1(2) .
    obtain r3 s3 where 3: "le_engine env s2 = (r3, s3)" "db s3 = db s2"
      using app_engine [of s2] by (metis prod.exhaust_sel)
    show ?thesis
    proof (cases r3)
      case (Inl e)
      then have "snd (startup st env s) = s3"
        using 1(1) 3(1) begun by (simp add: startup_def bindE_def logged_steps s2_def)
      with 3(2) have "db (snd (startup st env s)) = db s2" by simp
      with 2 show ?thesis by blast
    next
      case (Inr v)
      from started [OF 1(1) [unfolded begun] 3(1) [unfolded s2_def Inr]]
      have "db (snd (startup st env s)) = db (snd (bootstrap_schema st env s3))" .
      with created_all [of s3] 2 3(2) show ?thesis by metis
    qed
  qed
qed

end

text \<open>Starts one after another, each with its own settings and environment.\<close>

primrec starts :: "(settings \<times> ('s, 't, 'o) lifespan_env) list \<Rightarrow> 's \<Rightarrow> 's" where
  "starts [] s = s"
| "starts (x # xs) s = starts xs (snd (startup (fst x) (snd x) s))"

lemma starts_append: "starts (xs @ ys) s = starts ys (starts xs s)"
  by (induction xs arbitrary: s) simp_all

datatype phase = Empty | Bootstrapped | Migrated

fun database_of :: "phase \<Rightarrow> database" where
  "database_of Empty = (empty_schema, None)"
| "database_of Bootstrapped = (metadata, None)"
| "database_of Migrated = (created, Some revision)"

fun next_phase :: "phase \<Rightarrow> phase \<Rightarrow> bool" where
  "next_phase Empty q \<longleftrightarrow> True"
| "next_phase p q \<longleftrightarrow> q = p"

lemma database_of_cases: "d = database_of p \<Longrightarrow> (d = database_of Empty \<Longrightarrow> P) \<Longrightarrow> (d = database_of Bootstrapped \<Longrightarrow> P) \<Longrightarrow> (d = database_of Migrated \<Longrightarrow> P) \<Longrightarrow> P"
  by (cases p) simp_all

lemma next_phase_trans: "next_phase p q \<Longrightarrow> next_phase q r \<Longrightarrow> next_phase p r"
  by (cases p; cases q) simp_all

lemma migrate_phase: "migrate (database_of p) = Some d \<Longrightarrow> \<exists>q. d = database_of q \<and> next_phase p q"
  by (cases p) (auto simp: migrate_empty migrate_bootstrapped migrate_created intro: exI [of _ Migrated])

lemma create_phase: "\<exists>q. (create_missing metadata (fst (database_of p)), snd (database_of p)) = database_of q \<and> next_phase p q"
proof (cases p)
  case Empty
  then show ?thesis by (intro exI [of _ Bootstrapped]) (simp add: bootstrapped_metadata [unfolded bootstrapped_def])
qed (simp_all add: create_missing_again)

lemma start_phase:
  assumes "deployed_app al db db_url st env" and "db s = database_of p"
  shows "\<exists>q. db (snd (startup st env s)) = database_of q \<and> next_phase p q"
proof -
  obtain d where d: "d = db s \<or> migrate (db s) = Some d"
    "db (snd (startup st env s)) = d \<or> db (snd (startup st env s)) = (create_missing metadata (fst d), snd d)"
    using deployed_app.start [OF assms(1), of s] by blast
  have "next_phase p p" by (cases p) simp_all
  with d(1) assms(2) migrate_phase [of p d] obtain q where q: "d = database_of q" "next_phase p q" by auto
  from create_phase [of q] next_phase_trans [OF q(2)] d(2) q show ?thesis by metis
qed

lemma starts_phase:
  assumes "\<forall>x \<in> set xs. deployed_app al db db_url (fst x) (snd x)" and "db s = database_of p"
  shows "\<exists>q. db (starts xs s) = database_of q \<and> next_phase p q"
  using assms
proof (induction xs arbitrary: s p)
  case Nil
  moreover have "next_phase p p" by (cases p) simp_all
  ultimately show ?case by (intro exI [of _ p]) simp
next
  case (Cons x xs)
  then obtain q where q: "db (snd (startup (fst x) (snd x) s)) = database_of q" "next_phase p q"
    using start_phase [of al db db_url "fst x" "snd x" s p] by auto
  from Cons.IH [OF _ q(1)] Cons.prems(1) next_phase_trans [OF q(2)] show ?case by fastforce
qed


lemma phase_tables:
  "database_of p = (empty_schema, None) \<or>
   set (sc_tables (fst (database_of p))) = set (sc_tables metadata) \<and>
   set (sc_indexes (fst (database_of p))) = set (sc_indexes metadata) \<and> snd (database_of p) \<in> {None, Some revision}"
  by (cases p) (simp_all add: created_metadata)

lemma phase_final: "database_of p \<noteq> (empty_schema, None) \<Longrightarrow> next_phase p q \<Longrightarrow> q = p"
  by (cases p) auto

lemma phase_unversioned: "database_of p \<noteq> (empty_schema, None) \<Longrightarrow> snd (database_of p) = None \<Longrightarrow> migrate (database_of p) = None"
  by (cases p) (simp_all add: migrate_bootstrapped)

section \<open>A deployment in memory\<close>

text \<open>
  A database of which only tables and version are kept: its migrations run the operations of the
  migration, its \<open>create_all\<close> makes the missing tables of the models, and no rows can be read.
\<close>

definition no_rows :: "(database, 'a) eff" where
  "no_rows = raise (Exn OtherError ''OperationalError'')"

definition mem_alembic :: "(database, unit, unit) alembic" where
  "mem_alembic =
     \<lparr>al_store_option = (\<lambda>_. ret ()), al_main_option = ret None, al_config_file = Some ''alembic.ini'',
      al_file_config = (\<lambda>_. ret ()), al_offline = False, al_engine_from_config = ret (),
      al_connect = (\<lambda>_. ret ()), al_close = (\<lambda>_ s. s), al_dispose = (\<lambda>_. ret ()), al_configure = (\<lambda>_. ret ()),
      al_transaction = (\<lambda>m s. case m s of (Inl e, _) \<Rightarrow> (Inl e, s) | (Inr u, s') \<Rightarrow> (Inr u, s')),
      al_run_migrations = (\<lambda>s. case migrate s of None \<Rightarrow> no_rows s | Some d \<Rightarrow> (Inr (), d))\<rparr>"

lemma mem_transaction:
  fixes m :: "(database, unit) eff"
  shows "al_transaction mem_alembic m s = (Inl x, s') \<Longrightarrow> s' = s"
    and "al_transaction mem_alembic m s = (Inr (), s') \<Longrightarrow> m s = (Inr (), s')"
  by (cases rule: eff_cases [of "m s"]; simp add: mem_alembic_def)+

lemma mem_run: "al_run_migrations mem_alembic s = (Inr (), s') \<Longrightarrow> migrate s = Some s'"
  by (cases "migrate s") (simp_all add: mem_alembic_def no_rows_def raise_def)

lemma mem_calls:
  "al_offline mem_alembic = False" "al_store_option mem_alembic = (\<lambda>_. ret ())" "al_file_config mem_alembic = (\<lambda>_. ret ())"
  "al_engine_from_config mem_alembic = ret ()" "al_connect mem_alembic = (\<lambda>_. ret ())"
  "al_close mem_alembic = (\<lambda>_ s. s)" "al_dispose mem_alembic = (\<lambda>_. ret ())" "al_configure mem_alembic = (\<lambda>_. ret ())"
  by (simp_all add: mem_alembic_def)

interpretation mem_migration: migration_tool mem_alembic "\<lambda>d. d"
  by (rule migration_tool.intro, unfold mem_calls ret_def)
    (simp, simp, simp, simp, simp, simp, simp, simp, erule mem_transaction(1),
     drule mem_transaction(2), blast, erule mem_run)

definition closed_session :: "(database, 'r) session_api" where
  "closed_session =
     \<lparr>exec_select = (\<lambda>_. no_rows), get_row = (\<lambda>_. no_rows), add_row = (\<lambda>_ s. s), set_row = (\<lambda>_ s. s),
      delete_row = (\<lambda>_ s. s), flush = no_rows\<rparr>"

definition mem_app :: "settings \<Rightarrow> string option \<Rightarrow> string option \<Rightarrow> (database, unit, unit) lifespan_env" where
  "mem_app st migration bootstrap =
     \<lparr>le_tracing = \<lparr>ot_import = (\<lambda>_. no_rows), ot_resource_create = (\<lambda>_. no_rows), ot_tracer_provider = (\<lambda>_. no_rows),
        ot_exporter = (\<lambda>_. no_rows), ot_batch_processor = (\<lambda>_. no_rows), ot_add_span_processor = (\<lambda>_ _. no_rows),
        ot_set_tracer_provider = (\<lambda>_. no_rows), ot_get_tracer = (\<lambda>_. no_rows), ot_global = (\<lambda>_. None),
        ot_set_global = (\<lambda>_ s. s)\<rparr>,
      le_auto_migrate = migration, le_bootstrap_schema = bootstrap, le_auto_seed = None,
      le_upgrade = lifespan_migration None mem_alembic st, le_engine = ret (),
      le_create_all = (\<lambda>d. (Inr (), create_missing metadata (fst d), snd d)),
      le_life = \<lparr>sl_open = (\<lambda>s. s), sl_commit = ret (), sl_rollback = (\<lambda>s. s), sl_close = (\<lambda>s. s)\<rparr>,
      le_auth = \<lparr>pwd_hash = (\<lambda>_. no_rows), pwd_verify = (\<lambda>_ _. Inr False), au_uuid4 = (\<lambda>s. ([], s)), au_now = (\<lambda>_. sample_time)\<rparr>,
      le_users = SQLAlchemyUserRepository closed_session,
      le_seed_db = \<lparr>sd_sources = closed_session, sd_programs = closed_session, sd_jobs = closed_session,
        sd_clear_sources = no_rows, sd_clear_programs = no_rows, sd_clear_jobs = no_rows\<rparr>,
      le_seed_env = demo_seed,
      le_health = \<lparr>he_fetch = (\<lambda>_ _ _. no_rows), he_monotonic = (\<lambda>_. 0), he_now = (\<lambda>_. sample_time)\<rparr>,
      le_threshold = 3, le_source_repo = SQLAlchemySourceRepository closed_session (\<lambda>_. sample_time),
      le_health_repo = SQLAlchemySourceHealthRepository closed_session (\<lambda>_. sample_time),
      le_scheduler = \<lparr>as_running = (\<lambda>_. False), as_start = ret (), as_shutdown = (\<lambda>_. ret ()), as_add_job = (\<lambda>_. ret ()),
        as_remove_job = (\<lambda>_. ret ()), as_from_crontab = (\<lambda>_. Inr ())\<rparr>,
      le_sleep = (\<lambda>_. ret ()), le_fetcher_aclose = ret (), le_engine_dispose = ret ()\<rparr>"

interpretation mem_deployment: deployed_app mem_alembic "\<lambda>d. d" None default_settings "mem_app default_settings migration bootstrap"
  for migration bootstrap
proof (intro deployed_app.intro mem_migration.migration_tool_axioms deployed_app_axioms.intro)
  fix s :: database
  have "default_settings = default_settings\<lparr>otlp_endpoint := [], seed_users := []\<rparr>" by (simp add: default_settings_def)
  then have st: "otlp_endpoint default_settings = []" "seed_users default_settings = []" by (metis settings.select_convs settings.surjective default_settings_def)+
  show "snd (start_observing default_settings (mem_app default_settings migration bootstrap) s) = s"
    by (cases "configure_logging (log_level default_settings)")
      (simp_all add: start_observing_def bindE_def pure_eff_def init_tracer_def st ret_def)
  show "snd (seed_users_step default_settings (mem_app default_settings migration bootstrap) s) = s"
    by (simp add: seed_users_step_def st ret_def)
  show "snd (seed_if_empty (le_life (mem_app default_settings migration bootstrap))
      (le_seed_db (mem_app default_settings migration bootstrap))
      (le_seed_env (mem_app default_settings migration bootstrap)) s) = s"
    by (simp add: mem_app_def seed_if_empty_def with_session_def closed_session_def no_rows_def raise_def bindE_def)
qed (simp_all add: mem_app_def schedule_health_check_def add_interval_def start_scheduler_def ret_def)


section \<open>What becomes of a database\<close>



text \<open>
  A database URL with a percent sign that is neither doubled nor part of a reference (every
  percent-encoded password) turns the automatic migration off: the lifespan's call raises before
  alembic runs, nothing of the database or the configuration is touched, and the start goes on.
\<close>

theorem percent_url_skips_migration:
  assumes "CHR ''%'' \<in> set (remove_references (replace_all ''%%'' [] (database_url st)))"
    and "le_upgrade env = lifespan_migration db_url al st"
  shows "auto_migrate env s = (Inr (), s)"
  using assms
  by (simp add: logged_steps lifespan_migration_def run_alembic_upgrade_def set_main_option_def before_set_def bindE_def pure_eff_def)

theorem percent_url_skips_migration_witness:
  "auto_migrate (mem_app (default_settings\<lparr>database_url := ''postgresql+asyncpg://tv:p%40ss@db/tv''\<rparr>) (Some ''1'') (Some ''0''))
     (empty_schema, None) = (Inr (), (empty_schema, None))"
proof (rule percent_url_skips_migration)
  let ?st = "default_settings\<lparr>database_url := ''postgresql+asyncpg://tv:p%40ss@db/tv''\<rparr>"
  show "CHR ''%'' \<in> set (remove_references (replace_all ''%%'' [] (database_url ?st)))"
    by simp code_simp
  show "le_upgrade (mem_app ?st (Some ''1'') (Some ''0'')) = lifespan_migration None mem_alembic ?st"
    by (simp add: mem_app_def)
qed

end
