(* ===== verification/SourcesService.thy ===== *)
theory SourcesService
  imports SourcesApi Lifespan
begin

text \<open>
  The source endpoints of \<open>interfaces/api/routers/sources.py\<close> as one service.  Every request has a
  session of its own (\<open>get_session\<close> of \<open>interfaces/api/deps.py\<close>), which it commits itself or which
  is closed without a commit.  The specification \<open>allowed\<close> says of one request what it may
  answer and what it makes of the stored sources, as a map from ids; the endpoints refine it over
  any sequence of requests.
\<close>

section \<open>Requests\<close>

datatype source_call =
    Create source_create | Get_all | Get string | Put string source_changes
  | Delete string | Enable string | Disable string

datatype source_answer = One source_reply | Many "source_reply list" | Okay | Nothing

definition answer_with :: "'s api_env \<Rightarrow> tv_source \<Rightarrow> exn + source_answer" where
  "answer_with env x = map_sum id One (source_out env x)"

text \<open>Each endpoint with its reply model; a switch answers \<open>{"ok": True}\<close> and a deletion nothing.\<close>

fun source_endpoint :: "'s api_env \<Rightarrow> source_call \<Rightarrow> ('s, source_answer) eff" where
  "source_endpoint env (Create p) = bindE (create_source env p) (\<lambda>x. pure_eff (answer_with env x))"
| "source_endpoint env Get_all =
     bindE (list_sources env) (\<lambda>xs. pure_eff (map_sum id Many (traverse (source_out env) xs)))"
| "source_endpoint env (Get k) = bindE (get_source env k) (\<lambda>x. pure_eff (answer_with env x))"
| "source_endpoint env (Put k p) = bindE (update_source env k p) (\<lambda>x. pure_eff (answer_with env x))"
| "source_endpoint env (Delete k) = bindE (delete_source env k) (\<lambda>_. ret Nothing)"
| "source_endpoint env (Enable k) = bindE (enable_source env k) (\<lambda>_. ret Okay)"
| "source_endpoint env (Disable k) = bindE (disable_source env k) (\<lambda>_. ret Okay)"

definition source_request :: "'s session_life \<Rightarrow> 's api_env \<Rightarrow> source_call \<Rightarrow> ('s, source_answer) eff" where
  "source_request life env c = with_session life (source_endpoint env c)"

fun source_requests ::
  "'s session_life \<Rightarrow> 's api_env \<Rightarrow> source_call list \<Rightarrow> 's \<Rightarrow> (exn + source_answer) list \<times> 's" where
  "source_requests life env [] s = ([], s)"
| "source_requests life env (c # cs) s =
     (case source_request life env c s of
        (x, s1) \<Rightarrow> (case source_requests life env cs s1 of (xs, s2) \<Rightarrow> (x # xs, s2)))"

section \<open>The specification\<close>

text \<open>The source a creation makes of its request, for an id and a time.\<close>

definition new_source :: "string \<Rightarrow> datetime \<Rightarrow> source_create \<Rightarrow> tv_source" where
  "new_source i now p =
     \<lparr>src_id = i, src_name = sc_name p, src_type = sc_type p, src_url = sc_url p,
      src_config = sc_config p, src_headers = sc_headers p, src_cron = sc_cron p,
      src_priority = sc_priority p, src_status = ACTIVE, src_parser = sc_parser p,
      src_created_at = now, src_updated_at = now\<rparr>"

text \<open>Two sources that differ at most in their times.\<close>

definition same_source :: "tv_source \<Rightarrow> tv_source \<Rightarrow> bool" where
  "same_source x y \<longleftrightarrow> (\<exists>c u. x = touched c u y)"

fun allowed ::
  "'s api_env \<Rightarrow> source_call \<Rightarrow> (string \<rightharpoonup> tv_source) \<Rightarrow> exn + source_answer \<Rightarrow> (string \<rightharpoonup> tv_source) \<Rightarrow> bool" where
  "allowed env (Create p) m out m' \<longleftrightarrow>
     (\<exists>i now. (\<forall>j. str_or_none (sc_id p) = Some j \<longrightarrow> i = j) \<and>
        (if \<not> source_ok (new_source i now p) then m' = m \<and> (\<exists>e. out = Inl e \<and> exc e = ValidationError)
         else if m i \<noteq> None then m' = m \<and> (\<exists>e. out = Inl e \<and> exc e = IntegrityError)
         else m' = m(i \<mapsto> naive_source (new_source i now p)) \<and> out = answer_with env (new_source i now p)))"
| "allowed env Get_all m out m' \<longleftrightarrow>
     m' = m \<and> (\<exists>xs. naive_source ` set xs = ran m \<and> distinct (map src_id xs) \<and>
       out = map_sum id Many (traverse (source_out env) xs))"
| "allowed env (Get k) m out m' \<longleftrightarrow>
     m' = m \<and> (case m k of
       None \<Rightarrow> out = Inl not_found | Some x \<Rightarrow> (\<exists>y. naive_source y = x \<and> out = answer_with env y))"
| "allowed env (Put k p) m out m' \<longleftrightarrow>
     (case m k of
        None \<Rightarrow> m' = m \<and> out = Inl not_found
      | Some x \<Rightarrow>
          (case null_error p of
             Some e \<Rightarrow> m' = m \<and> out = Inl e
           | None \<Rightarrow> (\<exists>t y. m' = m(k \<mapsto> touched (src_created_at x) t (apply_changes p x)) \<and>
               same_source y (apply_changes p x) \<and> out = answer_with env y)))"
| "allowed env (Delete k) m out m' \<longleftrightarrow> m' = m(k := None) \<and> out = Inr Nothing"
| "allowed env (Enable k) m out m' \<longleftrightarrow>
     (case m k of
        None \<Rightarrow> m' = m \<and> out = Inl not_found
      | Some x \<Rightarrow> (\<exists>t. m' = m(k \<mapsto> touched (src_created_at x) t (x\<lparr>src_status := ACTIVE\<rparr>))) \<and> out = Inr Okay)"
| "allowed env (Disable k) m out m' \<longleftrightarrow>
     (case m k of
        None \<Rightarrow> m' = m \<and> out = Inl not_found
      | Some x \<Rightarrow> (\<exists>t. m' = m(k \<mapsto> touched (src_created_at x) t (x\<lparr>src_status := DISABLED\<rparr>))) \<and> out = Inr Okay)"

inductive allowed_run ::
  "'s api_env \<Rightarrow> source_call list \<Rightarrow> (string \<rightharpoonup> tv_source) \<Rightarrow> (exn + source_answer) list \<Rightarrow> (string \<rightharpoonup> tv_source) \<Rightarrow> bool"
  for env where
  Nil: "allowed_run env [] m [] m"
| Cons: "allowed env c m out m1 \<Longrightarrow> allowed_run env cs m1 outs m' \<Longrightarrow> allowed_run env (c # cs) m (out # outs) m'"

inductive_simps allowed_run_simps: "allowed_run env [] m outs m'" "allowed_run env (c # cs) m outs m'"

text \<open>
  Requests whose values can be read back when they are stored: \<open>SourceUpdate\<close> leaves the name and
  the priority unchecked, and an empty URL is stored as none by a creation only.
\<close>

definition given_ok :: "source_changes \<Rightarrow> bool" where
  "given_ok p \<longleftrightarrow>
     (case su_name p of Some (Some n) \<Rightarrow> str_between 1 255 n | _ \<Rightarrow> True) \<and>
     (case su_priority p of Some (Some n) \<Rightarrow> 0 \<le> n \<and> n \<le> 10 | _ \<Rightarrow> True) \<and> su_url p \<noteq> Some (Some [])"

fun call_ok :: "source_call \<Rightarrow> bool" where
  "call_ok (Create p) \<longleftrightarrow> sc_url p \<noteq> Some []"
| "call_ok (Put k p) \<longleftrightarrow> given_ok p"
| "call_ok _ \<longleftrightarrow> True"

lemma given_ok_assignable: "given_ok p \<Longrightarrow> assignable x \<Longrightarrow> assignable (apply_changes p x)"
  by (auto simp: given_ok_def assignable_def source_ok_def apply_changes_def given_def split: option.splits)


text \<open>
  What the specification keeps: a source that is not deleted stays, with its time of creation, and
  only the two switches change its status.
\<close>

lemma allowed_keeps:
  assumes "allowed env c m out m'" "m k = Some x" "c \<noteq> Delete k"
  shows "\<exists>y. m' k = Some y \<and> src_created_at y = src_created_at x \<and>
    (c \<notin> {Enable k, Disable k} \<longrightarrow> src_status y = src_status x)"
proof (cases c)
  case (Put j p)
  have "src_created_at (touched a t z) = a" "src_status (apply_changes p z) = src_status z" for a t z
    by (simp_all add: touched_def apply_changes_def)
  with assms Put show ?thesis by (cases "m j"; cases "null_error p") auto
next
  case (Create p)
  with assms show ?thesis by (auto split: if_splits)
qed (use assms in \<open>auto simp: touched_def split: option.splits\<close>)

lemma allowed_run_keeps:
  assumes "allowed_run env cs m outs m'" "m k = Some x" "Delete k \<notin> set cs"
  shows "\<exists>y. m' k = Some y \<and> src_created_at y = src_created_at x \<and>
    (Enable k \<notin> set cs \<and> Disable k \<notin> set cs \<longrightarrow> src_status y = src_status x)"
  using assms
proof (induction arbitrary: x rule: allowed_run.induct)
  case (Cons c m out m1 cs outs m')
  then obtain y where y: "m1 k = Some y" "src_created_at y = src_created_at x"
      "c \<notin> {Enable k, Disable k} \<longrightarrow> src_status y = src_status x"
    using allowed_keeps [of env c m out m1 k x] by auto
  with Cons.IH [OF y(1)] Cons.prems(2) show ?case by auto
qed simp

section \<open>Committing at the end\<close>

text \<open>
  \<open>quiet\<close> calls leave what is committed alone; an \<open>atomic\<close> one has changed nothing of it when it
  raises, and has committed all that its session sees when it returns.
\<close>

definition quiet :: "('s \<Rightarrow> 'd) \<Rightarrow> ('s, 'a) eff \<Rightarrow> bool" where
  "quiet disk m \<longleftrightarrow> (\<forall>s. disk (snd (m s)) = disk s)"

definition atomic :: "('s \<Rightarrow> 'd option) \<Rightarrow> ('s \<Rightarrow> 'd) \<Rightarrow> ('s, 'a) eff \<Rightarrow> bool" where
  "atomic view disk m \<longleftrightarrow>
     (\<forall>s. (case m s of (Inl e, s') \<Rightarrow> disk s' = disk s | (Inr x, s') \<Rightarrow> view s' = Some (disk s')))"

named_theorems commit_rules

lemma quiet_simps [commit_rules]:
  "quiet disk (ret x)" "quiet disk (raise e)" "quiet disk (pure_eff r)"
  by (simp_all add: quiet_def ret_def raise_def pure_eff_def)

lemma quiet_bind [commit_rules]: "quiet disk m \<Longrightarrow> (\<And>x. quiet disk (f x)) \<Longrightarrow> quiet disk (bindE m f)"
  unfolding quiet_def by (intro allI snd_bindE) auto

lemma atomic_raise [commit_rules]: "atomic view disk (raise e)"
  by (simp add: atomic_def raise_def)

lemma atomic_bind [commit_rules]: "quiet disk m \<Longrightarrow> (\<And>x. atomic view disk (f x)) \<Longrightarrow> atomic view disk (bindE m f)"
  unfolding atomic_def quiet_def
proof
  fix s assume q: "\<forall>s. disk (snd (m s)) = disk s"
    and f: "\<And>x. \<forall>s. case f x s of (Inl e, s') \<Rightarrow> disk s' = disk s | (Inr x, s') \<Rightarrow> view s' = Some (disk s')"
  from spec [OF q, of s]
  show "case bindE m f s of (Inl e, s') \<Rightarrow> disk s' = disk s | (Inr x, s') \<Rightarrow> view s' = Some (disk s')"
  proof (cases rule: eff_cases [of "m s"])
    case (returned x s1)
    with spec [OF q, of s] spec [OF f [of x], of s1] show ?thesis by (simp add: bindE_def split: prod.splits sum.splits)
  qed (simp add: bindE_def)
qed

lemma atomic_then_ret: "atomic view disk m \<Longrightarrow> atomic view disk (bindE m (\<lambda>x. ret (f x)))"
  unfolding atomic_def
proof
  fix s assume m: "\<forall>s. case m s of (Inl e, s') \<Rightarrow> disk s' = disk s | (Inr x, s') \<Rightarrow> view s' = Some (disk s')"
  from spec [OF m, of s]
  show "case bindE m (\<lambda>x. ret (f x)) s of (Inl e, s') \<Rightarrow> disk s' = disk s | (Inr x, s') \<Rightarrow> view s' = Some (disk s')"
    by (cases rule: eff_cases [of "m s"]) (simp_all add: bindE_def ret_def)
qed

lemma atomic_now: "(\<And>t. atomic view disk (f t)) \<Longrightarrow> atomic view disk (\<lambda>s. f s s)"
  by (simp add: atomic_def)

lemma bindE_reply: "bindE m (\<lambda>x. pure_eff (f x)) s = (case m s of (Inl e, s') \<Rightarrow> (Inl e, s') | (Inr x, s') \<Rightarrow> (f x, s'))"
  by (simp add: bindE_def pure_eff_def split: prod.splits sum.splits)

section \<open>The endpoints on a repository with commits\<close>

context source_unit_of_work
begin

lemma create_outcome:
  assumes "sources s = Some m" "ae_sources env = repo" "ae_commit env = commit"
    and "sources (snd (ae_uuid4 env s)) = sources s"
    and "\<And>i n. source_ok (new_source i n p) \<Longrightarrow> valid (new_source i n p)"
  obtains i n where "\<forall>j. str_or_none (sc_id p) = Some j \<longrightarrow> i = j"
    "if \<not> source_ok (new_source i n p) then \<exists>e s'. create_source env p s = (Inl e, s') \<and> exc e = ValidationError
     else if m i \<noteq> None then \<exists>e s'. create_source env p s = (Inl e, s') \<and> exc e = IntegrityError
     else \<exists>s'. create_source env p s = (Inr (new_source i n p), s') \<and>
       sources s' = Some (m(i \<mapsto> naive_source (new_source i n p)))"
proof -
  obtain i s1 where i: "(case str_or_none (sc_id p) of Some i \<Rightarrow> (i, s) | None \<Rightarrow> ae_uuid4 env s) = (i, s1)"
    by (metis prod.exhaust)
  then have s1: "sources s1 = Some m" and given: "\<forall>j. str_or_none (sc_id p) = Some j \<longrightarrow> i = j"
    using assms(1,4) by (auto split: option.splits)
  let ?x = "new_source i (ae_now env s) p"
  have id: "src_id ?x = i" by (simp add: new_source_def)
  have create: "create_source env p s =
      bindE (pure_eff (validated (source_ok ?x) ?x)) (\<lambda>x. bindE (bindE (sp_add repo x) (\<lambda>_. commit)) (\<lambda>_. ret x)) s1"
    by (simp add: create_source_def i assms(2,3) new_source_def Let_def bindE_assoc)
  have "if \<not> source_ok ?x then \<exists>e s'. create_source env p s = (Inl e, s') \<and> exc e = ValidationError
     else if m i \<noteq> None then \<exists>e s'. create_source env p s = (Inl e, s') \<and> exc e = IntegrityError
     else \<exists>s'. create_source env p s = (Inr ?x, s') \<and> sources s' = Some (m(i \<mapsto> naive_source ?x))"
  proof (cases "source_ok ?x")
    case False
    then show ?thesis by (simp add: create validated_def bindE_def pure_eff_def)
  next
    case True
    then have c: "create_source env p s = bindE (bindE (sp_add repo ?x) (\<lambda>_. commit)) (\<lambda>_. ret ?x) s1"
      by (simp add: create validated_def bindE_pure)
    show ?thesis
    proof (cases "m i = None")
      case new: True
      with add_commit [OF s1, of ?x] id assms(5) [OF True] obtain s' where
        "bindE (sp_add repo ?x) (\<lambda>_. commit) s1 = (Inr (), s')" "sources s' = Some (m(i \<mapsto> naive_source ?x))" by auto
      with True new show ?thesis by (simp add: c bindE_def [of "bindE (sp_add repo ?x) (\<lambda>_. commit)"])
    next
      case False
      with add_duplicate [OF s1, of ?x] id obtain e s' where
        "bindE (sp_add repo ?x) (\<lambda>_. commit) s1 = (Inl e, s')" "exc e = IntegrityError" by auto
      with True False show ?thesis by (simp add: c bindE_def [of "bindE (sp_add repo ?x) (\<lambda>_. commit)"])
    qed
  qed
  with given that show thesis by blast
qed

lemma switch_outcome:
  assumes "sources s = Some m" "ae_sources env = repo" "ae_commit env = commit"
  shows "case m k of
      None \<Rightarrow> \<exists>s'. switch_source st env k s = (Inl not_found, s')
    | Some x \<Rightarrow> \<exists>s' t. switch_source st env k s = (Inr (), s') \<and>
        sources s' = Some (m(k \<mapsto> touched (src_created_at x) t (x\<lparr>src_status := st\<rparr>)))"
proof (cases "m k")
  case None
  show ?thesis
    by (rule get_unknown [OF assms(1) None assms(2)]) (simp add: None switch_source_def bindE_def)
next
  case (Some x)
  obtain y s1 where y: "get_source env k s = (Inr y, s1)" "sources s1 = Some m" "naive_source y = x" "src_id y = k"
    by (rule get_known [OF assms(1) Some assms(2)])
  let ?y = "y\<lparr>src_status := st\<rparr>"
  have "valid ?y" using stored_valid [OF assms(1) Some y(3)] valid_status by blast
  moreover have "m (src_id ?y) = Some x" using y(4) Some by simp
  ultimately obtain t s' where u: "bindE (sp_update repo ?y) (\<lambda>_. commit) s1 = (Inr (), s')"
      "sources s' = Some (m(src_id ?y \<mapsto> touched (src_created_at x) t ?y))"
    using update_commit [OF y(2)] by blast
  have "touched (src_created_at x) t ?y = touched (src_created_at x) t (x\<lparr>src_status := st\<rparr>)"
    unfolding y(3) [symmetric] by (cases y) (simp add: touched_def naive_source_def)
  with u y(1,4) Some assms(2,3) show ?thesis
    by (auto simp: switch_source_def bindE_def [of "get_source env k"])
qed

lemma update_outcome:
  assumes "sources s = Some m" "ae_sources env = repo" "ae_commit env = commit"
    and "\<forall>y t. m k = Some (naive_source y) \<longrightarrow> valid ((apply_changes p y)\<lparr>src_updated_at := t\<rparr>)"
  shows "case m k of
      None \<Rightarrow> \<exists>s'. update_source env k p s = (Inl not_found, s')
    | Some x \<Rightarrow>
        (case null_error p of
           Some e \<Rightarrow> \<exists>s'. update_source env k p s = (Inl e, s')
         | None \<Rightarrow> \<exists>y s' t. update_source env k p s = (Inr y, s') \<and> same_source y (apply_changes p x) \<and>
             sources s' = Some (m(k \<mapsto> touched (src_created_at x) t (apply_changes p x))))"
proof (cases "m k")
  case None
  show ?thesis
    by (rule get_unknown [OF assms(1) None assms(2)]) (simp add: None update_source_def bindE_def)
next
  case (Some x)
  obtain y s1 where y: "get_source env k s = (Inr y, s1)" "sources s1 = Some m" "naive_source y = x" "src_id y = k"
    by (rule get_known [OF assms(1) Some assms(2)])
  show ?thesis
  proof (cases "null_error p")
    case err: (Some e)
    with y(1) Some show ?thesis by (simp add: update_source_def bindE_def)
  next
    case ok: None
    let ?z = "(apply_changes p y)\<lparr>src_updated_at := ae_now env s1\<rparr>"
    have id: "src_id ?z = k" using y(4) by (simp add: apply_changes_def)
    have same: "touched c u ?z = touched c u (apply_changes p x)" for c u
      unfolding y(3) [symmetric] by (simp add: touched_def apply_changes_def naive_source_def split: option.splits)
    have "?z = touched (src_created_at ?z) (src_updated_at ?z) ?z" by (simp add: touched_def)
    then have "same_source ?z (apply_changes p x)" unfolding same_source_def same by blast
    moreover have known: "m (src_id ?z) = Some x" using id Some by simp
    have "valid ?z" using assms(4) Some y(3) by simp
    then obtain t s2 where u: "bindE (sp_update repo ?z) (\<lambda>_. commit) s1 = (Inr (), s2)"
        "sources s2 = Some (m(src_id ?z \<mapsto> touched (src_created_at x) t ?z))"
      using update_commit [OF y(2) known] by blast
    have "update_source env k p s = bindE (bindE (sp_update repo ?z) (\<lambda>_. commit)) (\<lambda>_. ret ?z) s1"
      using y(1) by (simp add: update_source_def bindE_def [of "get_source env k"] ok Let_def bindE_assoc assms(2,3))
    then have "update_source env k p s = (Inr ?z, s2)"
      by (simp add: bindE_def [of "bindE (sp_update repo ?z) (\<lambda>_. commit)"] u(1))
    ultimately show ?thesis using u(2) Some ok unfolding same id by auto
  qed
qed

end

section \<open>The service\<close>

locale source_service = source_commit api view now "sl_commit life"
  for api :: "('s, source_row) session_api" and view :: "'s \<Rightarrow> source_row set option"
    and now :: "'s \<Rightarrow> datetime" and life :: "'s session_life" +
  fixes disk :: "'s \<Rightarrow> source_row set" and env :: "'s api_env"
  assumes open_sees: "view (sl_open life s) = Some (disk s)"
    and ends_keep: "disk (sl_open life s) = disk s" "disk (sl_close life s) = disk s"
    and outside: "session_frame api disk"
    and commit_writes: "sl_commit life s = (Inr (), s') \<Longrightarrow> view s' = Some (disk s')"
    and commit_keeps: "sl_commit life s = (Inl e, s') \<Longrightarrow> disk s' = disk s"
    and uuid: "view (snd (ae_uuid4 env s)) = view s" "disk (snd (ae_uuid4 env s)) = disk s"
    and env: "ae_sources env = SQLAlchemySourceRepository api now" "ae_commit env = sl_commit life"
begin

lemma quiet_repo:
  "quiet disk (sp_get (ae_sources env) k)" "quiet disk (sp_list (ae_sources env) st)"
  "quiet disk (sp_update (ae_sources env) x)" "quiet disk (sp_add (ae_sources env) x)"
  "quiet disk (sp_delete (ae_sources env) k)"
proof -
  show "quiet disk (sp_delete (ae_sources env) k)"
    unfolding env SQLAlchemySourceRepository_def quiet_def source_delete_def
    by (auto intro!: snd_bindE simp: session_frame_simps [OF outside] ret_def split: option.splits)
qed (simp_all add: env SQLAlchemySourceRepository_def quiet_def source_frames [OF outside] source_add_def
    session_frame_simps [OF outside])

lemma atomic_commit: "atomic view disk (ae_commit env)"
  unfolding atomic_def env using commit_writes commit_keeps by (auto split: prod.splits sum.splits)

lemma quiet_get: "quiet disk (get_source env k)"
  unfolding get_source_def by (auto intro!: commit_rules quiet_repo split: option.splits)

lemma atomic_endpoints:
  "atomic view disk (delete_source env k)" "atomic view disk (switch_source st env k)"
  "atomic view disk (update_source env k p)" "atomic view disk (create_source env q)"
proof -
  show "atomic view disk (delete_source env k)" "atomic view disk (switch_source st env k)"
    unfolding delete_source_def switch_source_def
    by (rule atomic_bind, rule quiet_repo, rule atomic_commit,
        rule atomic_bind, rule quiet_get, rule atomic_bind, rule quiet_repo, rule atomic_commit)
  show "atomic view disk (update_source env k p)"
    unfolding update_source_def Let_def
  proof (rule atomic_bind [OF quiet_get])
    fix x
    let ?y = "\<lambda>s. (apply_changes p x)\<lparr>src_updated_at := ae_now env s\<rparr>"
    have "atomic view disk (bindE (sp_update (ae_sources env) (?y t)) (\<lambda>_. bindE (ae_commit env) (\<lambda>_. ret (?y t))))" for t
      by (rule atomic_bind [OF quiet_repo(3)], rule atomic_then_ret [OF atomic_commit])
    from atomic_now [where f = "\<lambda>t. bindE (sp_update (ae_sources env) (?y t)) (\<lambda>_. bindE (ae_commit env) (\<lambda>_. ret (?y t)))", OF this]
    show "atomic view disk (case null_error p of Some e \<Rightarrow> raise e
      | None \<Rightarrow> \<lambda>s. bindE (sp_update (ae_sources env) ((apply_changes p x)\<lparr>src_updated_at := ae_now env s\<rparr>))
          (\<lambda>_. bindE (ae_commit env) (\<lambda>_. ret ((apply_changes p x)\<lparr>src_updated_at := ae_now env s\<rparr>))) s)"
      by (cases "null_error p") (simp_all add: atomic_raise)
  qed
  have body: "atomic view disk (bindE (pure_eff (validated (source_ok x) x)) (\<lambda>x.
      bindE (sp_add (ae_sources env) x) (\<lambda>_. bindE (ae_commit env) (\<lambda>_. ret x))))" for x
    by (rule atomic_bind, rule commit_rules, rule atomic_bind, rule quiet_repo,
        rule atomic_then_ret [OF atomic_commit])
  show "atomic view disk (create_source env q)"
    unfolding atomic_def
  proof
    fix s
    obtain i s1 where i: "(case str_or_none (sc_id q) of Some i \<Rightarrow> (i, s) | None \<Rightarrow> ae_uuid4 env s) = (i, s1)"
      by (metis prod.exhaust)
    have "disk s1 = disk s" using i uuid(2) [of s] by (auto split: option.splits)
    with spec [OF body [of "new_source i (ae_now env s) q", unfolded atomic_def], where x = s1]
    show "case create_source env q s of (Inl e, s') \<Rightarrow> disk s' = disk s | (Inr x, s') \<Rightarrow> view s' = Some (disk s')"
      by (simp add: create_source_def i Let_def new_source_def split: prod.splits sum.splits)
  qed
qed

lemma uow: "source_unit_of_work (ae_sources env) (source_map view) assignable (ae_commit env)"
  unfolding env by (rule uow_laws)

definition committed :: "'s \<Rightarrow> (string \<rightharpoonup> tv_source) option" where
  "committed = source_map (\<lambda>s. Some (disk s))"

lemma committed_simps:
  "committed (sl_close life s) = committed s" "source_map view (sl_open life s) = committed s"
  "committed (sl_open life s) = committed s"
  by (simp_all add: committed_def source_map_def ends_keep open_sees)

text \<open>What a request leaves behind when its session is closed.\<close>

lemma settled:
  assumes "atomic view disk m" "m (sl_open life s) = (out, s')"
  shows "committed (sl_close life s') = (case out of Inl _ \<Rightarrow> committed s | Inr _ \<Rightarrow> source_map view s')"
proof -
  from spec [OF assms(1) [unfolded atomic_def], of "sl_open life s"] assms(2)
  show ?thesis
    by (cases out) (simp_all add: committed_simps(1), simp_all add: committed_def source_map_def ends_keep)
qed

lemma quiet_settled:
  assumes "quiet disk m" "m (sl_open life s) = (out, s')"
  shows "committed (sl_close life s') = committed s"
  using spec [OF assms(1) [unfolded quiet_def], of "sl_open life s"] assms(2)
  by (simp add: committed_simps(1)) (simp add: committed_def source_map_def ends_keep)

lemma request_is:
  "source_endpoint env c (sl_open life s) = (out, s') \<Longrightarrow> source_request life env c s = (out, sl_close life s')"
  by (simp add: source_request_def with_session_def)

lemma refines_switch:
  assumes "committed s = Some m"
  shows "\<exists>out s'. bindE (switch_source st env k) (\<lambda>_. ret Okay) (sl_open life s) = (out, s') \<and>
    (case m k of
       None \<Rightarrow> committed (sl_close life s') = Some m \<and> out = Inl not_found
     | Some x \<Rightarrow> (\<exists>t. committed (sl_close life s') =
         Some (m(k \<mapsto> touched (src_created_at x) t (x\<lparr>src_status := st\<rparr>)))) \<and> out = Inr Okay)"
proof -
  have o: "source_map view (sl_open life s) = Some m" using assms by (simp add: committed_simps)
  note out = source_unit_of_work.switch_outcome [OF uow o refl refl, where k = k and st = st]
  show ?thesis
  proof (cases "m k")
    case None
    with out obtain s' where s': "switch_source st env k (sl_open life s) = (Inl not_found, s')" by auto
    with settled [OF atomic_endpoints(2) s'] None assms show ?thesis by (simp add: bindE_def)
  next
    case (Some x)
    with out obtain s' t where s': "switch_source st env k (sl_open life s) = (Inr (), s')"
        "source_map view s' = Some (m(k \<mapsto> touched (src_created_at x) t (x\<lparr>src_status := st\<rparr>)))" by auto
    with settled [OF atomic_endpoints(2) s'(1)] Some show ?thesis by (auto simp: bindE_def ret_def)
  qed
qed

text \<open>One request: what it answers and leaves is allowed.\<close>

definition refined :: "source_call \<Rightarrow> (string \<rightharpoonup> tv_source) \<Rightarrow> 's \<Rightarrow> bool" where
  "refined c m s \<longleftrightarrow>
     (\<exists>out s' m'. source_request life env c s = (out, s') \<and> committed s' = Some m' \<and> allowed env c m out m')"

lemma refinedI:
  assumes "source_endpoint env c (sl_open life s) = (out, s')" "committed (sl_close life s') = Some m'"
    "allowed env c m out m'"
  shows "refined c m s"
  unfolding refined_def using request_is [OF assms(1)] assms(2,3) by blast

lemma refined_create:
  assumes m: "committed s = Some m" and p: "sc_url p \<noteq> Some []"
  shows "refined (Create p) m s"
proof -
  let ?r = "create_source env p (sl_open life s)"
  have v: "assignable (new_source i n p)" if "source_ok (new_source i n p)" for i n
    using that p by (simp add: assignable_def new_source_def)
  have u: "source_map view (snd (ae_uuid4 env (sl_open life s))) = source_map view (sl_open life s)"
    by (simp add: source_map_def uuid)
  obtain i n where i: "\<forall>j. str_or_none (sc_id p) = Some j \<longrightarrow> i = j"
    "if \<not> source_ok (new_source i n p) then \<exists>e s'. ?r = (Inl e, s') \<and> exc e = ValidationError
     else if m i \<noteq> None then \<exists>e s'. ?r = (Inl e, s') \<and> exc e = IntegrityError
     else \<exists>s'. ?r = (Inr (new_source i n p), s') \<and> source_map view s' = Some (m(i \<mapsto> naive_source (new_source i n p)))"
    by (rule source_unit_of_work.create_outcome [OF uow _ refl refl u v]) (simp_all add: committed_simps m)
  show ?thesis
  proof (cases "source_ok (new_source i n p) \<and> m i = None")
    case True
    with i(2) obtain s' where s': "?r = (Inr (new_source i n p), s')"
        "source_map view s' = Some (m(i \<mapsto> naive_source (new_source i n p)))" by auto
    have "allowed env (Create p) m (answer_with env (new_source i n p)) (m(i \<mapsto> naive_source (new_source i n p)))"
      unfolding allowed.simps using i(1) True by (intro exI [of _ i] exI [of _ n]) simp
    with settled [OF atomic_endpoints(4) s'(1)] s' show ?thesis by (intro refinedI) (simp_all add: bindE_reply)
  next
    case False
    with i(2) obtain e s' where s': "?r = (Inl e, s')"
        "exc e = (if source_ok (new_source i n p) then IntegrityError else ValidationError)" by (auto split: if_splits)
    have "allowed env (Create p) m (Inl e) m"
      unfolding allowed.simps using i(1) False s'(2) by (intro exI [of _ i] exI [of _ n]) auto
    with settled [OF atomic_endpoints(4) s'(1)] s' m show ?thesis by (intro refinedI) (simp_all add: bindE_reply)
  qed
qed

lemma refined_get:
  assumes m: "committed s = Some m"
  shows "refined (Get k) m s"
proof (cases "m k")
  case None
  have o: "source_map view (sl_open life s) = Some m" using m by (simp add: committed_simps)
  obtain s' where s': "get_source env k (sl_open life s) = (Inl not_found, s')"
    by (rule source_unit_of_work.get_unknown [OF uow o None refl])
  with quiet_settled [OF quiet_get s'] None m show ?thesis
    by (intro refinedI [where out = "Inl not_found"]) (simp_all add: bindE_reply)
next
  case (Some x)
  obtain y s' where y: "get_source env k (sl_open life s) = (Inr y, s')" "naive_source y = x"
    by (rule source_unit_of_work.get_known [OF uow committed_simps(2) [of s, unfolded m] Some refl])
  then have "allowed env (Get k) m (answer_with env y) m" using Some by auto
  with y quiet_settled [OF quiet_get y(1)] m show ?thesis by (intro refinedI) (simp_all add: bindE_reply)
qed

lemma refined_get_all:
  assumes m: "committed s = Some m"
  shows "refined Get_all m s"
proof -
  have "source_map view (sl_open life s) = Some m" by (simp add: committed_simps m)
  from source_repository.list [OF source_unit_of_work.axioms(1) [OF uow] this, of None]
  obtain xs s' where xs: "sp_list (ae_sources env) None (sl_open life s) = (Inr xs, s')"
      "naive_source ` set xs = ran m" "distinct (map src_id xs)" by auto
  then have "allowed env Get_all m (map_sum id Many (traverse (source_out env) xs)) m" by auto
  with xs(1) quiet_settled [OF quiet_repo(2) xs(1)] m show ?thesis
    by (intro refinedI) (simp_all add: list_sources_def bindE_reply)
qed

lemma refined_put:
  assumes m: "committed s = Some m" and p: "given_ok p"
  shows "refined (Put k p) m s"
proof -
  have o: "source_map view (sl_open life s) = Some m" using m by (simp add: committed_simps)
  have v: "\<forall>y t. m k = Some (naive_source y) \<longrightarrow> assignable ((apply_changes p y)\<lparr>src_updated_at := t\<rparr>)"
  proof (intro allI impI)
    fix y t assume y: "m k = Some (naive_source y)"
    have "assignable (apply_changes p y)"
      using given_ok_assignable [OF p] source_repository.stored_valid [OF source_unit_of_work.axioms(1) [OF uow] o y refl] .
    then show "assignable ((apply_changes p y)\<lparr>src_updated_at := t\<rparr>)" by (simp add: assignable_def source_ok_def)
  qed
  note out = source_unit_of_work.update_outcome [where k = k and p = p, OF uow o refl refl v]
  have failed: "refined (Put k p) m s"
    if "update_source env k p (sl_open life s) = (Inl e, s')" "allowed env (Put k p) m (Inl e) m" for e s'
    using that settled [OF atomic_endpoints(3) that(1)] m by (intro refinedI) (simp_all add: bindE_reply)
  show ?thesis
  proof (cases "m k")
    case None
    with out show ?thesis by (auto intro!: failed)
  next
    case (Some x)
    show ?thesis
    proof (cases "null_error p")
      case err: (Some e)
      with out Some show ?thesis by (auto intro!: failed)
    next
      case ok: None
      with out Some obtain y s' t where s': "update_source env k p (sl_open life s) = (Inr y, s')"
          "same_source y (apply_changes p x)"
          "source_map view s' = Some (m(k \<mapsto> touched (src_created_at x) t (apply_changes p x)))" by auto
      then have "allowed env (Put k p) m (answer_with env y) (m(k \<mapsto> touched (src_created_at x) t (apply_changes p x)))"
        using Some ok by auto
      with settled [OF atomic_endpoints(3) s'(1)] s' show ?thesis by (intro refinedI) (simp_all add: bindE_reply)
    qed
  qed
qed

lemma refined_delete:
  assumes m: "committed s = Some m"
  shows "refined (Delete k) m s"
proof -
  have "source_map view (sl_open life s) = Some m" by (simp add: committed_simps m)
  from source_unit_of_work.delete_commit [OF uow this, of k]
  obtain s' where s': "delete_source env k (sl_open life s) = (Inr (), s')" "source_map view s' = Some (m(k := None))"
    unfolding delete_source_def by blast
  with settled [OF atomic_endpoints(1) s'(1)] show ?thesis by (intro refinedI) (simp_all add: bindE_def ret_def)
qed

lemma refines:
  assumes m: "committed s = Some m" and c: "call_ok c"
  shows "refined c m s"
proof (cases c)
  case (Enable k)
  with refines_switch [OF m, of ACTIVE k] show ?thesis
    by (cases "m k") (auto simp: enable_source_def intro!: refinedI)
next
  case (Disable k)
  with refines_switch [OF m, of DISABLED k] show ?thesis
    by (cases "m k") (auto simp: disable_source_def intro!: refinedI)
qed (use m c in \<open>simp_all add: refined_create refined_get refined_get_all refined_put refined_delete\<close>)

lemma requests_refine:
  assumes "committed s = Some m" and "\<forall>c \<in> set cs. call_ok c"
  shows "\<exists>outs s' m'. source_requests life env cs s = (outs, s') \<and> committed s' = Some m' \<and> allowed_run env cs m outs m'"
  using assms
proof (induction cs arbitrary: s m)
  case Nil
  then show ?case by (auto intro: allowed_run.Nil)
next
  case (Cons c cs)
  obtain out s1 m1 where 1: "source_request life env c s = (out, s1)" "committed s1 = Some m1" "allowed env c m out m1"
    using refines [OF Cons.prems(1), of c] Cons.prems(2) by (auto simp: refined_def)
  obtain outs s' m' where "source_requests life env cs s1 = (outs, s')" "committed s' = Some m'" "allowed_run env cs m1 outs m'"
    using Cons.IH [OF 1(2)] Cons.prems(2) by auto
  with 1 show ?case by (auto intro: allowed_run.Cons)
qed

end


section \<open>The service in memory\<close>

text \<open>The session's rows, beside those committed.\<close>

type_synonym source_mem = "source_row list option \<times> source_row list"

definition source_life :: "source_mem session_life" where
  "source_life =
     \<lparr>sl_open = (\<lambda>(_, a). (Some (mem_clean source_clash source_store a), a)),
      sl_commit = (\<lambda>(x, a). case mem_rows source_clash source_store x of
         Some a' \<Rightarrow> (Inr (), (x, a')) | None \<Rightarrow> (Inl (Exn IntegrityError ''UNIQUE constraint failed''), (x, a))),
      sl_rollback = (\<lambda>(_, a). (None, a)), sl_close = (\<lambda>(_, a). (None, a))\<rparr>"

definition source_disk :: "source_mem \<Rightarrow> source_row set" where
  "source_disk s = set (mem_clean source_clash source_store (snd s))"

definition source_env :: "source_mem api_env" where
  "source_env =
     \<lparr>ae_sources = SQLAlchemySourceRepository (on_fst mem_sources) (\<lambda>_. sample_time), ae_commit = sl_commit source_life,
      ae_now = (\<lambda>_. sample_time), ae_uuid4 = (\<lambda>s. (''new'', s)),
      ae_http_url = (\<lambda>u. if startswith u ''http'' then Some u else None)\<rparr>"

lemma source_commit_mem:
  "mem_rows source_clash source_store (fst s) = Some rs \<Longrightarrow> sl_commit source_life s = (Inr (), (fst s, rs))"
  "mem_rows source_clash source_store (fst s) = None \<Longrightarrow>
     sl_commit source_life s = (Inl (Exn IntegrityError ''UNIQUE constraint failed''), s)"
  by (cases s; simp add: source_life_def)+

lemma source_flush_mem:
  "flush (on_fst mem_sources) s =
     (case mem_rows source_clash source_store (fst s) of
        None \<Rightarrow> (Inl (Exn IntegrityError ''UNIQUE constraint failed''), s) | Some rs \<Rightarrow> (Inr (), s))"
  by (cases s) (simp add: on_fst_def mem_session_def mem_flush_def bindE_def ret_def split: option.split)

interpretation mem_source_service: source_service "on_fst mem_sources" "\<lambda>s. mem_sources_view (fst s)"
  "\<lambda>_. sample_time" source_life source_disk source_env
proof -
  have "sql_session srow_id source_clash source_store (on_fst mem_sources :: (source_mem, source_row) session_api)
      (\<lambda>s. mem_sources_view (fst s))"
    by (rule sql_session_on_fst) (rule source_table.mem.sql_session_axioms)
  note sess = this
  show "source_service (on_fst mem_sources) (\<lambda>s. mem_sources_view (fst s)) (\<lambda>_. sample_time) source_life source_disk source_env"
  proof (intro source_service.intro source_commit.intro source_session.intro sess source_commit_axioms.intro
      source_service_axioms.intro)
    fix s s' :: source_mem and e
    show "flush (on_fst mem_sources) s = (Inr (), s') \<Longrightarrow>
        \<exists>s''. sl_commit source_life s = (Inr (), s'') \<and> mem_sources_view (fst s'') = mem_sources_view (fst s')"
      "flush (on_fst mem_sources) s = (Inl e, s') \<Longrightarrow> \<exists>s''. sl_commit source_life s = (Inl e, s'')"
      by (cases "mem_rows source_clash source_store (fst s)"; simp add: source_flush_mem source_commit_mem mem_view_def mem_rows_def split: option.splits if_splits)+
    show "mem_sources_view (fst (sl_open source_life s)) = Some (source_disk s)"
      "source_disk (sl_open source_life s) = source_disk s" "source_disk (sl_close source_life s) = source_disk s"
      by (simp_all add: source_life_def source_disk_def mem_view_clean split: prod.splits)
    show "session_frame (on_fst mem_sources :: (source_mem, source_row) session_api) source_disk"
      unfolding source_disk_def by (rule session_frame_on_fst)
    show "sl_commit source_life s = (Inr (), s') \<Longrightarrow> mem_sources_view (fst s') = Some (source_disk s')"
      "sl_commit source_life s = (Inl e, s') \<Longrightarrow> source_disk s' = source_disk s"
      by (auto simp: source_life_def source_disk_def mem_view_def mem_clean_def mem_rows_def split: prod.splits option.splits if_splits)
  qed (simp_all add: source_env_def)
qed


section \<open>Properties\<close>

text \<open>
  C2: the source API refines a map.  Whatever requests arrive, in whatever order, each in its own
  session, with values that can be read back: the answers and what is committed afterwards are
  those of the specification, starting from the sources stored before.  A request that fails
  before its commit leaves no trace.  In particular a source that is not deleted keeps its id
  and its time of creation, and nothing but the two switches changes its status.
\<close>

theorem source_api_refines_map:
  assumes "source_service api view now life disk env"
    and "source_map (\<lambda>s. Some (disk s)) s = Some m" and "\<forall>c \<in> set cs. call_ok c"
  shows "\<exists>outs s' m'. source_requests life env cs s = (outs, s') \<and>
    source_map (\<lambda>s. Some (disk s)) s' = Some m' \<and> allowed_run env cs m outs m' \<and>
    (\<forall>k x. m k = Some x \<and> Delete k \<notin> set cs \<longrightarrow>
       (\<exists>y. m' k = Some y \<and> src_created_at y = src_created_at x \<and>
         (Enable k \<notin> set cs \<and> Disable k \<notin> set cs \<longrightarrow> src_status y = src_status x)))"
proof -
  note laws = source_service.requests_refine [OF assms(1)] source_service.committed_def [OF assms(1)]
  obtain outs s' m' where "source_requests life env cs s = (outs, s')" "source_map (\<lambda>s. Some (disk s)) s' = Some m'"
      "allowed_run env cs m outs m'"
    using laws(1) [unfolded laws(2), OF assms(2,3)] by blast
  with allowed_run_keeps show ?thesis by blast
qed

lemma source_api_refines_map_witness:
  "\<exists>m x outs s' m' y.
     source_map (\<lambda>s. Some (source_disk s)) (None, [source_row_of (sample_source ''a'')]) = Some m \<and> m ''a'' = Some x \<and>
     source_requests source_life source_env [Disable ''a'', Get ''a'', Delete ''b'', Get_all]
       (None, [source_row_of (sample_source ''a'')]) = (outs, s') \<and>
     source_map (\<lambda>s. Some (source_disk s)) s' = Some m' \<and>
     allowed_run source_env [Disable ''a'', Get ''a'', Delete ''b'', Get_all] m outs m' \<and>
     m' ''a'' = Some y \<and> src_created_at y = src_created_at x"
proof -
  let ?s = "(None, [source_row_of (sample_source ''a'')]) :: source_mem"
  let ?cs = "[Disable ''a'', Get ''a'', Delete ''b'', Get_all]"
  obtain m where m: "source_map mem_sources_view (Some [source_row_of (sample_source ''a'')]) = Some m"
      "m ''a'' = Some (naive_source (sample_source ''a''))"
    using mem_source_map [of "[sample_source ''a'']"] by auto
  then have "mem_sources_view (Some [source_row_of (sample_source ''a'')]) = Some {source_row_of (sample_source ''a'')}"
    by (auto simp: source_map_Some mem_view_eq_Some)
  then have "source_disk ?s = {source_row_of (sample_source ''a'')}"
    by (auto simp: source_disk_def mem_clean_def mem_view_eq_Some mem_ok_def)
  with m have start: "source_map (\<lambda>s. Some (source_disk s)) ?s = Some m"
    by (simp add: source_map_def mem_view_def mem_rows_def split: if_splits)
  have ok: "\<forall>c \<in> set ?cs. call_ok c" by simp
  obtain outs s' m' where run: "source_requests source_life source_env ?cs ?s = (outs, s')"
      "source_map (\<lambda>s. Some (source_disk s)) s' = Some m'" "allowed_run source_env ?cs m outs m'"
    and keeps: "\<forall>k x. m k = Some x \<and> Delete k \<notin> set ?cs \<longrightarrow>
       (\<exists>y. m' k = Some y \<and> src_created_at y = src_created_at x \<and>
         (Enable k \<notin> set ?cs \<and> Disable k \<notin> set ?cs \<longrightarrow> src_status y = src_status x))"
    using source_api_refines_map [OF mem_source_service.source_service_axioms start ok] by blast
  have "Delete ''a'' \<notin> set ?cs" by simp
  with keeps m(2) obtain y where "m' ''a'' = Some y"
      "src_created_at y = src_created_at (naive_source (sample_source ''a''))" by blast
  with start m(2) run show ?thesis by blast
qed

end
