(* ===== verification/SeededDashboard.thy ===== *)
theory SeededDashboard
  imports Seed Dashboard
begin

text \<open>
  The sample data and the dashboard together: \<open>POST /admin/reseed\<close> of
  \<open>interfaces/api/routers/admin.py\<close> and \<open>GET /dashboard/summary\<close> of
  \<open>interfaces/api/routers/dashboard.py\<close> as requests to one process.  The database is what the
  requests share through their sessions, and the summary cache is a variable of the module beside
  it, which the first of them does not know.
\<close>

section \<open>Requests beside the cache\<close>

definition beside :: "('s, 'a) eff \<Rightarrow> ('s \<times> 'c, 'a) eff" where
  "beside m s = (case s of (w, c) \<Rightarrow> (case m w of (x, w') \<Rightarrow> (x, (w', c))))"

definition life_beside :: "'s session_life \<Rightarrow> ('s \<times> 'c) session_life" where
  "life_beside life =
     \<lparr>sl_open = map_prod (sl_open life) id, sl_commit = beside (sl_commit life),
      sl_rollback = map_prod (sl_rollback life) id, sl_close = map_prod (sl_close life) id\<rparr>"

text \<open>The endpoints with their dependencies: the summary gets a session, the reseeding opens its own.\<close>

definition summary_request :: "'s session_life \<Rightarrow> 's dash_env \<Rightarrow> ('s \<times> json store, json) eff" where
  "summary_request life env = with_session (life_beside life) (dashboard_summary env)"

definition reseed_request ::
  "settings \<Rightarrow> 's session_life option \<Rightarrow> 's seed_db \<Rightarrow> seed_env \<Rightarrow> ('s \<times> json store, json) eff" where
  "reseed_request st session_factory db senv = beside (reseed_data st session_factory db senv)"

lemma summary_request_eq:
  "summary_request life env (s, c) =
     (case dashboard_summary env (sl_open life s, c) of (x, (w, c')) \<Rightarrow> (x, (sl_close life w, c')))"
  by (simp add: summary_request_def with_session_def life_beside_def split: prod.splits)

section \<open>The sample rows, read back\<close>

lemma row_source_of:
  assumes "assignable x"
  shows "readable (source_row_of x)" "row_source (source_row_of x) = naive_source x"
  using assms source_to_domain_from_domain [of x]
  by (auto simp: readable_def row_source_def source_to_domain_store assignable_def source_from_domain_def str_or_none_def)

lemma sources_of_simps:
  "src_status x = ACTIVE" "src_url x \<noteq> Some []" if "x \<in> set (sources_of env)"
  using that by (auto simp: sources_of_def build_sample_sources_def sample_source_of_def)

lemma sources_of_ids: "map src_id (sources_of env) = [''src_demo_iqiyi'', ''src_demo_cctv'', ''src_demo_iptv'']"
  by (simp add: sources_of_def build_sample_sources_def sample_source_of_def)

lemma seeded_source_map:
  assumes "view s = Some (fst (seeded env))" "list_all source_ok (sources_of env)"
  shows "\<exists>m. source_map view s = Some m \<and> ran m = naive_source ` set (sources_of env)"
proof -
  have a: "assignable x" if "x \<in> set (sources_of env)" for x
    using that assms(2) sources_of_simps(2) [of x env] by (simp add: assignable_def list_all_iff)
  have S: "fst (seeded env) = source_row_of ` set (sources_of env)" by (simp add: seeded_def image_image)
  have "srow_id \<circ> source_row_of = src_id" by (simp add: fun_eq_iff source_from_domain_def)
  then have id: "inj_on (srow_id \<circ> source_row_of) A = inj_on src_id A" for A by simp
  have "distinct (map src_id (sources_of env))" unfolding sources_of_ids by simp
  then have "inj_on src_id (set (sources_of env))" by (simp only: distinct_map)
  then have inj: "inj_on srow_id (fst (seeded env))" unfolding S by (intro inj_on_imageI) (simp only: id)
  have "\<forall>r \<in> fst (seeded env). readable r" unfolding S using row_source_of(1) [OF a] by blast
  then have "source_map view s = Some (keyed srow_id row_source (fst (seeded env)))"
    using assms(1) by (simp add: source_map_def)
  moreover have "row_source ` fst (seeded env) = naive_source ` set (sources_of env)"
    unfolding S image_image using row_source_of(2) [OF a] by (rule image_cong [OF refl])
  then have "ran (keyed srow_id row_source (fst (seeded env))) = naive_source ` set (sources_of env)"
    by (simp only: ran_keyed [OF inj])
  ultimately show ?thesis by blast
qed

lemma seeded_source_count:
  "card (naive_source ` set (sources_of env)) = 3"
  "card {x \<in> naive_source ` set (sources_of env). src_status x = st} = (if st = ACTIVE then 3 else 0)"
proof -
  have "distinct (map src_id (sources_of env))" unfolding sources_of_ids by simp
  then have "distinct (map naive_source (sources_of env))" by (rule distinct_naive)
  then show c: "card (naive_source ` set (sources_of env)) = 3"
    using distinct_card [of "map naive_source (sources_of env)"] lengths(1) [of env] by simp
  have "src_status (naive_source x) = ACTIVE" if "x \<in> set (sources_of env)" for x
    using sources_of_simps(1) [OF that] by (simp add: naive_source_def)
  then have "{x \<in> naive_source ` set (sources_of env). src_status x = st} =
      (if st = ACTIVE then naive_source ` set (sources_of env) else {})" by auto
  then show "card {x \<in> naive_source ` set (sources_of env). src_status x = st} = (if st = ACTIVE then 3 else 0)"
    using c by simp
qed

lemma job_row_readable:
  assumes "jrow_status r = job_status_value st" "\<forall>e. jrow_error r = Some e \<longrightarrow> length e \<le> 2000"
  shows "\<not> isl (job_to_domain (job_store r))"
proof -
  let ?j = "\<lparr>job_id = jrow_id r, job_source_id = jrow_source_id r, job_status = st, job_started_at = jrow_started_at r,
    job_finished_at = jrow_finished_at r, items_fetched = jrow_items_fetched r, items_saved = jrow_items_saved r,
    job_error = jrow_error r, job_trace_id = jrow_trace_id r\<rparr>"
  have "r = job_from_domain ?j" using assms(1) by (simp add: job_from_domain_def)
  moreover have "job_ok ?j" using assms(2) by (simp add: job_ok_def split: option.split)
  ultimately have "job_to_domain r = Inr ?j" using job_to_domain_from_domain [of ?j] by simp
  then show ?thesis by (simp add: job_to_domain_store)
qed

lemma sample_job_fields:
  assumes "r \<in> set (build_sample_jobs now hex sources)"
  shows "\<exists>st. jrow_status r = job_status_value st" "\<forall>e. jrow_error r = Some e \<longrightarrow> length e \<le> 2000"
proof -
  obtain n i st mins f s err where r: "(i, st, mins, f, s, err) \<in> set job_specs"
      "jrow_status r = job_status_value st" "jrow_error r = err"
    using assms by (force simp: build_sample_jobs_def Let_def in_set_enumerate_eq dest: nth_mem)
  then show "\<exists>st. jrow_status r = job_status_value st" by blast
  have "list_all (\<lambda>(i, st, mins, f, s, err). case err of None \<Rightarrow> True | Some e \<Rightarrow> length e \<le> 2000) job_specs"
    by (simp add: job_specs_def)
  with r show "\<forall>e. jrow_error r = Some e \<longrightarrow> length e \<le> 2000" by (fastforce simp: list_all_iff)
qed

lemma seeded_job_map:
  assumes "job_session api view" "view s = Some (snd (snd (seeded env)))" "hex_ok (se_hex env)"
  shows "\<exists>m. job_map view s = Some m \<and> card (ran m) = 6"
proof -
  let ?J = "snd (snd (seeded env))"
  have ok: "\<not> isl (job_to_domain r)" if r: "r \<in> ?J" for r
  proof -
    obtain r' where r': "r = job_store r'" "r' \<in> set (build_sample_jobs (se_now env 2) (\<lambda>n. se_hex env (768 + n)) (sources_of env))"
      using r by (auto simp: seeded_def jobs_of_def)
    obtain st where "jrow_status r' = job_status_value st" using sample_job_fields(1) [OF r'(2)] by blast
    then show ?thesis unfolding r'(1) using sample_job_fields(2) [OF r'(2)] by (rule job_row_readable)
  qed
  have inj: "inj_on jrow_id ?J" by (rule job_session.inj_job_id [OF assms(1,2)])
  have id: "job_id (row_job r) = jrow_id r" if "r \<in> ?J" for r
    using ok [OF that] job_to_domain_Inr [of r "row_job r"] by (cases "job_to_domain r") (auto simp: row_job_def)
  have "inj_on row_job ?J" using inj id by (metis inj_onD inj_onI)
  then have "card (ran (keyed jrow_id row_job ?J)) = card ?J" unfolding ran_keyed [OF inj] by (rule card_image)
  moreover have "card ?J = 6"
    using job_table.card_apart [OF jobs_apart [OF assms(3)]] lengths(3) [of env] by (simp add: seeded_def jobs_of_def)
  moreover have "job_map view s = Some (keyed jrow_id row_job ?J)" using job_mapI [of view s ?J] assms(2) ok by blast
  ultimately show ?thesis by simp
qed

lemma seeded_start:
  assumes "r \<in> fst (snd (seeded env))"
  shows "dt_wall (se_now env 1) - minutes 120 \<le> dt_wall (prow_start_at r)"
proof -
  obtain n idx ch cat i where "r = program_store (sample_row_of (se_text env) (se_isoformat env) (se_now env 1)
      [''src_demo_iqiyi'', ''src_demo_cctv'', ''src_demo_iptv''] (se_hex env n) idx ch cat i)"
    using assms by (auto simp: seeded_def in_programs)
  moreover have "dt_wall (prow_start_at (program_store x)) = dt_wall (prow_start_at x)" for x by (simp add: program_store_def)
  moreover have "0 \<le> minutes (slot_minutes cat) * int i"
    by (simp add: minutes_def slot_minutes_def us_per_second_def)
  ultimately show ?thesis by simp
qed


section \<open>The dashboard on the seeded tables\<close>

locale seeded_board =
  seed_service db sview pview jview life disk
  for db :: "'s seed_db" and sview pview jview and life :: "'s session_life" and disk +
  fixes env :: "'s dash_env" and snow :: "'s \<Rightarrow> datetime"
  assumes reads: "de_programs env = sd_programs db"
      "de_sources env = SQLAlchemySourceRepository (sd_sources db) snow"
      "de_jobs env = SQLAlchemyJobRepository (sd_jobs db)"
begin

lemma seeded_summary:
  assumes "disk s = seeded senv" "inj (se_isoformat senv)" "hex_ok (se_hex senv)" "list_all source_ok (sources_of senv)"
    and "dt_wall (de_now env (sl_open life s)) \<le> dt_wall (se_now senv 1) + minutes (22 * 60)"
  shows "\<exists>xs js s'. summary_compute env (sl_open life s) =
      (Inr (summary_json (de_isoformat env) (de_now env (sl_open life s)) 768 768 xs js), s') \<and>
    length xs = 3 \<and> counter_get (counter (map src_status xs)) ACTIVE = 3 \<and> length js = 6"
proof -
  let ?o = "sl_open life s" and ?P = "fst (snd (seeded senv))"
  have v: "sview ?o = Some (fst (seeded senv))" "pview ?o = Some ?P" "jview ?o = Some (snd (snd (seeded senv)))"
    by (simp_all add: open_sees assms(1))
  obtain m where m: "source_map sview ?o = Some m" "ran m = naive_source ` set (sources_of senv)"
    using seeded_source_map [where view = sview and s = ?o, OF v(1) assms(4)] by blast
  obtain jm where jm: "job_map jview ?o = Some jm" "card (ran jm) = 6"
    using seeded_job_map [where view = jview and s = ?o, OF sessions(3) v(3) assms(3)] by blast
  have shared: "shares_session (de_programs env) pview (source_map sview)" "shares_session (de_programs env) pview (job_map jview)"
    unfolding reads source_map_def job_map_def by (rule shares_session_comp, rule frames)+
  have keep: "job_map jview (snd (sp_list (de_sources env) None t)) = job_map jview t"
    if defined: "source_map sview t \<noteq> None" and listed: "\<not> isl (fst (sp_list (de_sources env) None t))" for t
  proof -
    obtain S where "sview t = Some S" using defined by (auto simp: source_map_def split: option.splits)
    moreover obtain xs t' where "source_list (sd_sources db) None t = (Inr xs, t')"
      using listed by (cases rule: eff_cases [of "source_list (sd_sources db) None t"])
        (auto simp: reads SQLAlchemySourceRepository_def)
    ultimately show ?thesis using source_session.source_list_shares [OF sessions(1) frames(2)]
      by (simp add: job_map_def reads SQLAlchemySourceRepository_def)
  qed
  have "source_repository (de_sources env) (source_map sview) assignable" "job_repository (de_jobs env) (job_map jview)"
    unfolding reads by (rule source_session.port [OF sessions(1)] job_session.port [OF sessions(3)])+
  from summary_reads [OF sessions(2) [folded reads(1)] v(2) this(1) m(1) this(2) jm(1) shared keep]
  obtain xs js s' where r: "summary_compute env ?o =
      (Inr (summary_json (de_isoformat env) (de_now env ?o) (card ?P)
         (card {r \<in> ?P. dt_wall (de_now env ?o) - 24 * 3600 * us_per_second \<le> dt_wall (prow_start_at r)}) xs js), s')"
      "naive_source ` set xs = ran m" "distinct (map src_id xs)"
      "\<forall>st. counter_get (counter (map src_status xs)) st = int (card {x \<in> ran m. src_status x = st})"
      "length js = min 10 (card (ran jm))" by blast
  have "dt_wall (de_now env ?o) - 24 * 3600 * us_per_second \<le> dt_wall (prow_start_at r)" if "r \<in> ?P" for r
    using seeded_start [OF that] assms(5) by (simp add: minutes_def)
  then have recent: "{r \<in> ?P. dt_wall (de_now env ?o) - 24 * 3600 * us_per_second \<le> dt_wall (prow_start_at r)} = ?P" by blast
  have "length xs = 3"
    using distinct_card [OF distinct_naive [OF r(3)]] seeded_source_count(1) [of senv] r(2) m(2) by simp
  with r(1,4,5) seeded_cards(2) [OF assms(2,3)] seeded_source_count(2) [of senv ACTIVE] m(2) jm(2) show ?thesis
    unfolding recent by (intro exI [of _ xs] exI [of _ js] exI [of _ s']) simp
qed

end

text \<open>The in-memory tables of \<open>Seed\<close>, seen by the dashboard.\<close>

definition board_env :: "seed_mem dash_env" where
  "board_env =
     \<lparr>de_now = (\<lambda>_. sample_time), de_monotonic = (\<lambda>_. 0), de_isoformat = demo_isoformat,
      de_programs = sd_programs seed_tables,
      de_sources = SQLAlchemySourceRepository (sd_sources seed_tables) (\<lambda>_. sample_time),
      de_jobs = SQLAlchemyJobRepository (sd_jobs seed_tables)\<rparr>"

interpretation mem_board: seeded_board seed_tables
  "\<lambda>s. mem_sources_view (fst (fst s))" "\<lambda>s. mem_programs_view (fst (snd (fst s)))"
  "\<lambda>s. mem_jobs_view (snd (snd (fst s)))" seed_life seed_disk board_env "\<lambda>_. sample_time"
  by (intro seeded_board.intro seeded_board_axioms.intro mem_seed.seed_service_axioms) (simp_all add: board_env_def)

section \<open>Property\<close>



end
