(* ===== verification/Spec2Isabelle.thy ===== *)
theory Spec2Isabelle
  imports HttpClient HealthCheck Aggregation LLM Sources Cache Middleware SourcesApi Application
    Lifespan Routers Dashboard Adapters Services Startup Schema CrawlOutcome Routing Deployment
    SourcesService SeededDashboard
begin

text \<open>
  TV List Aggregator, the package \<open>tv_list_aggregator\<close> under \<open>src/tv-list-aggregator\<close>: it
  fetches programme listings from configured sources, parses and deduplicates them, stores
  them in an SQL catalogue, and keeps a record of crawls and of each source's health.

  \<^bold>\<open>How the parts fit.\<close>  A scheduled job asks the source registry for the active sources and runs
  the aggregation service on each: fetch (HTTP client with rate limiter, breaker and retries),
  parse (JSON or LLM parser, or an M3U or HTML adapter), normalise titles, merge duplicates,
  upsert into the programme repository, record a crawl job.  A second job probes every active
  source, counts consecutive failures in the health repository and pauses a source that
  reaches the threshold.  A FastAPI application shows the catalogue, manages the sources and
  starts crawls; every request passes a stack of middleware, and the endpoints that change
  sources want a token with the admin role.

  \<^bold>\<open>Theories.\<close>
  \<^item> \<open>Prelude\<close>, \<open>PyString\<close>: Python dicts as association lists (\<open>dict_set\<close> keeps the
    position of a key), sorted sets, string methods (\<open>strip\<close>, \<open>split\<close>, \<open>splitlines\<close>,
    \<open>replace\<close>).  Text is limited to code points below 256, the type \<open>char\<close>.
  \<^item> \<open>Effects\<close>: \<open>core/exceptions.py\<close> and the library's exception classes with \<open>is_subclass\<close>;
    the effect \<open>('s, 'a) eff\<close>, which passes a state and returns an exception or a value and
    keeps the state of a failed computation; \<open>try_except\<close>, \<open>traverse\<close>, \<open>for_each\<close>.
  \<^item> \<open>Domain\<close>: \<open>domain/models\<close>, records with the constraints pydantic checks
    (\<open>program_ok\<close>, \<open>source_ok\<close>, \<open>job_ok\<close>); date-times are microseconds with an optional offset.
  \<^item> \<open>Normalization\<close>, \<open>Dedup\<close>: \<open>domain/services/normalization_service.py\<close> and
    \<open>dedup_service.py\<close>; equivalence with a split-and-join reference, unique keys, idempotence,
    what a merged programme holds.
  \<^item> \<open>RateLimiter\<close>, \<open>CircuitBreaker\<close>: \<open>infrastructure/resilience\<close>.  The bucket's rate bound and
    that it is attained at nearly twice the configured rate; the breaker sequentially
    (\<open>breaker_call\<close>) and as the step relation \<open>brk_step\<close> of overlapping calls.
  \<^item> \<open>HttpClient\<close>: \<open>infrastructure/http/client.py\<close>.  Locale \<open>tenacity\<close> states what
    \<open>@retry\<close> promises and is interpreted on \<open>retry_loop\<close>.
  \<^item> \<open>Session\<close>: SQLAlchemy's session as the record \<open>session_api\<close>; locale \<open>sql_table\<close> (keys and
    unique columns of a table) and \<open>sql_session\<close> (what a session promises), with the
    sublocale \<open>mem\<close>, an in-memory session, for every table.  \<open>shares_session\<close> says what
    calls on one table leave of its siblings in the same session; \<open>SharedSession\<close> builds two
    tables in one in-memory session, which a failed flush kills together.
  \<^item> \<open>ProgramRepository\<close>, \<open>SourceRepository\<close>, \<open>HealthRepository\<close>, \<open>JobRepository\<close>:
    \<open>infrastructure/persistence\<close> and \<open>domain/services/source_registry.py\<close>.  Each has a locale with
    the laws of the repository over an abstract map (\<open>catalogue\<close>, \<open>source_map\<close>,
    \<open>streak_map\<close>, \<open>job_map\<close>) and a sublocale proving that the SQL implementation over any
    session refines it.
  \<^item> \<open>HealthCheck\<close>, \<open>Aggregation\<close>: \<open>domain/services\<close> and \<open>interfaces/scheduler/jobs\<close>; their
    lemmas are proved in locales over the repositories' laws and instantiated on the SQL
    repositories (\<open>health_tables\<close>, \<open>crawl_tables\<close>).
  \<^item> \<open>CrawlOutcome\<close>: crawl, parser and repositories put together on the one session the
    application gives them (locale \<open>one_session\<close>): when a crawl succeeds, and what is left when not.
  \<^item> \<open>Parsers\<close>, \<open>LLM\<close>, \<open>Sources\<close>: \<open>plugins\<close> and \<open>infrastructure/llm\<close>.
  \<^item> \<open>Cache\<close>: \<open>core/cache.py\<close>, with \<open>get_or_set\<close> as the step relation \<open>cache_step\<close>.
  \<^item> \<open>Settings\<close>, \<open>Middleware\<close>: \<open>core/settings.py\<close> and \<open>interfaces/api/middleware\<close> with the
    exception handlers of \<open>app.py\<close>, composed as \<open>serve\<close> around any endpoint.
  \<^item> \<open>UserRepository\<close>, \<open>Auth\<close>: users, passwords, tokens and roles (\<open>auth_service.py\<close>,
    \<open>security.py\<close>, \<open>routers/auth.py\<close>); locale \<open>user_repository\<close> and its SQL implementation.
  \<^item> \<open>SourcesApi\<close>, \<open>Routers\<close>, \<open>Dashboard\<close>: \<open>interfaces/api/routers\<close>: the source endpoints with
    their role guard; programmes, jobs, channels and the CSV export, whose text is read back by
    the reader \<open>csv_rows\<close>; the cached summary and the timeline.
  \<^item> \<open>SourcesService\<close>: the source endpoints as one service, each request in a session of its own;
    locale \<open>source_service\<close> proves that any sequence of requests refines the specification
    \<open>allowed\<close>, in which a request works on a map from ids to sources, or fails without a trace.
  \<^item> \<open>Lifespan\<close>: \<open>interfaces/api/app.py\<close> and \<open>routers/admin.py\<close>: the plug-in registry, the
    aggregator factory with the crawl endpoints, and the scheduled health check, each on a
    session of its own (\<open>session_life\<close>).  The locales \<open>crawl_service\<close> and \<open>health_service\<close> say
    what a database keeps of an uncommitted session and are interpreted on the in-memory one.
  \<^item> \<open>Routing\<close>: the endpoints of \<open>interfaces/api/routers\<close> with their methods, paths, role
    dependencies and limits, their inclusion in \<open>create_app\<close>, and a request from the choice of a route
    (locale \<open>http_router\<close>) to the endpoint's body; \<open>Application\<close> puts the middleware around it.
  \<^item> \<open>Seed\<close>, \<open>Startup\<close>: \<open>interfaces/api/seed.py\<close> with its endpoints, over a database of three
    tables (locale \<open>seed_service\<close>; with the dashboard and its cache in \<open>SeededDashboard\<close>, locale
    \<open>seeded_board\<close>); the lifespan's start and shutdown, the scheduler's
    wrapper, \<open>deps.py\<close> and \<open>sqlalchemy_base.py\<close>.
  \<^item> \<open>Observability\<close>: \<open>core/logging.py\<close>, \<open>core/tracing.py\<close> and the metrics the code declares; its
    first two are the first steps of a start.
  \<^item> \<open>Schema\<close>: the ORM classes of \<open>infrastructure/persistence/models.py\<close> as a schema, the
    migration of \<open>alembic/versions\<close> as operations on schemas, and their agreement.
  \<^item> \<open>Deployment\<close>: \<open>alembic/env.py\<close> and the lifespan's call of it; the locales \<open>migration_tool\<close>
    (a database with transactional DDL) and \<open>deployed_app\<close> (one start on it), and what any
    sequence of starts makes of an empty database.
  \<^item> \<open>Adapters\<close>: the vendors' language models and the browser fetcher of \<open>infrastructure\<close>.
  \<^item> \<open>Services\<close>: the detailed health report, feedback, and the clean-up job.

  \<^bold>\<open>Parameters.\<close>  What the code calls but does not contain is an argument of the definitions:
  httpx (\<open>env_get\<close>), the clock and \<open>asyncio.sleep\<close>, tenacity's decorator, the SQL session and its
  grouped queries, \<open>json.loads\<close>, \<open>datetime.fromisoformat\<close>, SHA-1, pydantic's URL
  normalisation and its reading of the environment, UUIDs, trafilatura, the language models'
  SDKs, Playwright, APScheduler, alembic, the YAML reader, jose and passlib.

  \<^bold>\<open>Conventions.\<close>  Floats are reals.  Two awaits with nothing between them that another task can
  see are one step.  A failing flush or query leaves the session without a view
  (\<open>None\<close>), so nothing is claimed of it until it is rolled back, and nothing of the other tables
  of the same session either.  Log calls are left out.
  The only fuel is the number of retries, \<open>fetch_attempts\<close>, which is the code's own bound; the
  other loops are structural or terminate by a measure.

  \<^bold>\<open>Not modelled.\<close>  slowapi's counting of requests (a limit is a parameter that may raise), the
  contents of the static files, and Starlette's treatment of a path that ends in a line feed are
  library code.  A request's body is decoded by FastAPI before or beside its dependencies;
  the endpoints start from the decoded body.  Protocol classes have no code, and the screenshot
  script is no part of the service.  The Chinese titles of \<open>seed.py\<close> are a parameter.
\<close>

end
